(* ===== verification/Prelude.thy ===== *)
theory Prelude
  imports Main "HOL-Library.Sublist" "HOL-Library.List_Lexorder" "HOL-Library.Char_ord"
begin

text \<open>
  Shared ground of the development: errors as values, and the part of Go's standard library
  (\<^verbatim>\<open>strings\<close>, \<^verbatim>\<open>strconv\<close>, \<^verbatim>\<open>bytes\<close>) that the repository calls. A Go string is a byte
  sequence, here a \<^typ>\<open>string\<close> (a list of 8-bit characters); indices and lengths count bytes,
  as in Go. \<open>TrimSpace\<close>, \<open>ToLower\<close> and \<open>ToUpper\<close> are modelled on the ASCII range. The order of
  strings is Go's bytewise lexicographic order (List\_Lexorder over Char\_ord), so
  \<open>sort\<close> is \<^verbatim>\<open>sort.Strings\<close>.
\<close>

section \<open>Errors as values\<close>

text \<open>
  An \<open>error\<close> return is \<open>Error\<close> with its message; \<^verbatim>\<open>log.Fatal\<close> and \<^verbatim>\<open>os.Exit\<close> end the process
  (\<open>Fatal\<close>); \<open>Panic\<close> is a Go run-time panic or \<^verbatim>\<open>log.Panic\<close>.
\<close>

datatype go_error = Error string | Fatal string | Panic string

type_synonym 'a result = "go_error + 'a"

fun bind_result :: "'a result \<Rightarrow> ('a \<Rightarrow> 'b result) \<Rightarrow> 'b result" where
  "bind_result (Inl e) f = Inl e"
| "bind_result (Inr x) f = f x"

text \<open>A loop that processes a slice in place and returns at the first error.\<close>

fun mapM_result :: "('a \<Rightarrow> 'b result) \<Rightarrow> 'a list \<Rightarrow> 'b list result" where
  "mapM_result f [] = Inr []"
| "mapM_result f (x # xs) =
     bind_result (f x) (\<lambda>y. bind_result (mapM_result f xs) (\<lambda>ys. Inr (y # ys)))"

text \<open>A loop that threads an accumulator and returns at the first error.\<close>

fun foldM_result :: "('s \<Rightarrow> 'a \<Rightarrow> 's result) \<Rightarrow> 's \<Rightarrow> 'a list \<Rightarrow> 's result" where
  "foldM_result f s [] = Inr s"
| "foldM_result f s (x # xs) = bind_result (f s x) (\<lambda>s'. foldM_result f s' xs)"

named_theorems result_simps \<open>unfolding of error plumbing\<close>
named_theorems path_simps \<open>facts on file paths\<close>
named_theorems str_simps \<open>facts on Go string functions\<close>

lemma bind_result_Inr [result_simps]:
  "bind_result m f = Inr y \<longleftrightarrow> (\<exists>x. m = Inr x \<and> f x = Inr y)"
  by (cases m) auto

lemma bind_result_Inl [result_simps]:
  "bind_result m f = Inl e \<longleftrightarrow> m = Inl e \<or> (\<exists>x. m = Inr x \<and> f x = Inl e)"
  by (cases m) auto

lemma bind_result_cong [fundef_cong]:
  "m = m' \<Longrightarrow> (\<And>x. m' = Inr x \<Longrightarrow> f x = g x) \<Longrightarrow> bind_result m f = bind_result m' g"
  by (cases m') auto

lemma mapM_result_cong [fundef_cong]:
  "xs = ys \<Longrightarrow> (\<And>x. x \<in> set ys \<Longrightarrow> f x = g x) \<Longrightarrow> mapM_result f xs = mapM_result g ys"
  by (induction ys arbitrary: xs) auto

lemma mapM_result_Inr_iff:
  "mapM_result f xs = Inr ys \<longleftrightarrow> list_all2 (\<lambda>x y. f x = Inr y) xs ys"
proof (induction xs arbitrary: ys)
  case Nil
  then show ?case by auto
next
  case (Cons x xs)
  then show ?case by (cases ys) (auto simp: result_simps)
qed

lemma mapM_result_elem:
  "mapM_result f xs = Inr ys \<Longrightarrow> y \<in> set ys \<Longrightarrow> \<exists>x \<in> set xs. f x = Inr y"
proof (induction xs arbitrary: ys)
  case Nil
  then show ?case by simp
next
  case (Cons x xs)
  then show ?case by (auto simp: result_simps)
qed

lemma mapM_result_length: "mapM_result f xs = Inr ys \<Longrightarrow> length ys = length xs"
  by (auto simp: mapM_result_Inr_iff dest: list_all2_lengthD)

lemma mapM_result_Inl_iff:
  "mapM_result f xs = Inl e \<longleftrightarrow>
     (\<exists>us x vs ys. xs = us @ x # vs \<and> mapM_result f us = Inr ys \<and> f x = Inl e)"
proof (induction xs)
  case Nil
  then show ?case by simp
next
  case (Cons a xs)
  show ?case
  proof
    assume "mapM_result f (a # xs) = Inl e"
    then consider "f a = Inl e"
      | b where "f a = Inr b" and "mapM_result f xs = Inl e"
      by (auto simp: result_simps)
    then show "\<exists>us x vs ys. a # xs = us @ x # vs \<and> mapM_result f us = Inr ys \<and> f x = Inl e"
    proof cases
      case 1
      then show ?thesis by (intro exI [of _ "[]"]) auto
    next
      case 2
      with Cons.IH obtain us x vs ys where
        "xs = us @ x # vs" "mapM_result f us = Inr ys" "f x = Inl e" by blast
      with 2 show ?thesis by (intro exI [of _ "a # us"]) auto
    qed
  next
    assume "\<exists>us x vs ys. a # xs = us @ x # vs \<and> mapM_result f us = Inr ys \<and> f x = Inl e"
    then obtain us x vs ys where
      "a # xs = us @ x # vs" and us: "mapM_result f us = Inr ys" and x: "f x = Inl e" by blast
    then consider "us = []" "a = x"
      | us' where "us = a # us'" "xs = us' @ x # vs"
      by (cases us) auto
    then show "mapM_result f (a # xs) = Inl e"
    proof cases
      case 1
      with x show ?thesis by simp
    next
      case 2
      with us obtain b ys' where "f a = Inr b" "mapM_result f us' = Inr ys'"
        by (auto simp: result_simps)
      with 2 x Cons.IH show ?thesis by (auto simp: result_simps)
    qed
  qed
qed

text \<open>A loop whose step fails with the same error exactly where \<open>P\<close> does not hold.\<close>

lemma mapM_result_outcome:
  assumes "\<And>x. x \<in> set xs \<Longrightarrow> if P x then \<exists>y. f x = Inr y \<and> R x y else f x = Inl e"
  shows "if \<forall>x \<in> set xs. P x then \<exists>ys. mapM_result f xs = Inr ys \<and> list_all2 R xs ys
    else mapM_result f xs = Inl e"
  using assms
proof (induction xs)
  case Nil
  then show ?case by simp
next
  case (Cons x xs)
  have x: "if P x then \<exists>y. f x = Inr y \<and> R x y else f x = Inl e" using Cons.prems by simp
  have xs: "if \<forall>x \<in> set xs. P x then \<exists>ys. mapM_result f xs = Inr ys \<and> list_all2 R xs ys
    else mapM_result f xs = Inl e"
    by (rule Cons.IH) (use Cons.prems in simp)
  show ?case
  proof (cases "P x")
    case True
    with x obtain y where "f x = Inr y" "R x y" by auto
    with xs True show ?thesis by (cases "\<forall>x \<in> set xs. P x") auto
  next
    case False
    with x show ?thesis by auto
  qed
qed

lemma foldM_result_append:
  "foldM_result f s (xs @ ys) = bind_result (foldM_result f s xs) (\<lambda>s'. foldM_result f s' ys)"
proof (induction xs arbitrary: s)
  case Nil
  then show ?case by simp
next
  case (Cons x xs)
  then show ?case by (cases "f s x") auto
qed

text \<open>An invariant kept by every iteration holds after the loop.\<close>

lemma foldM_result_invariant:
  assumes "foldM_result f s xs = Inr t" and "P s"
    and "\<And>s x s'. x \<in> set xs \<Longrightarrow> P s \<Longrightarrow> f s x = Inr s' \<Longrightarrow> P s'"
  shows "P t"
  using assms
proof (induction xs arbitrary: s)
  case Nil
  then show ?case by simp
next
  case (Cons x xs)
  from Cons.prems(1) obtain s' where s': "f s x = Inr s'" and t: "foldM_result f s' xs = Inr t"
    by (auto simp: result_simps)
  have "P s'" using Cons.prems(2,3) s' by (meson list.set_intros(1))
  with Cons.IH [OF t] Cons.prems(3) show ?case by (meson list.set_intros(2))
qed

text \<open>The text of an error, as \<^verbatim>\<open>%s\<close> prints it.\<close>

fun errText :: "go_error \<Rightarrow> string" where
  "errText (Error s) = s"
| "errText (Fatal s) = s"
| "errText (Panic s) = s"

text \<open>Single and double quotes around a string, for error messages.\<close>

definition sq :: "string \<Rightarrow> string" where "sq s = [CHR 0x27] @ s @ [CHR 0x27]"

definition dq :: "string \<Rightarrow> string" where "dq s = [CHR 0x22] @ s @ [CHR 0x22]"

section \<open>Package strings\<close>

definition HasPrefix :: "string \<Rightarrow> string \<Rightarrow> bool" where
  "HasPrefix s p = prefix p s"

definition HasSuffix :: "string \<Rightarrow> string \<Rightarrow> bool" where
  "HasSuffix s p = (length p \<le> length s \<and> drop (length s - length p) s = p)"

definition TrimPrefix :: "string \<Rightarrow> string \<Rightarrow> string" where
  "TrimPrefix s p = (if HasPrefix s p then drop (length p) s else s)"

definition TrimSuffix :: "string \<Rightarrow> string \<Rightarrow> string" where
  "TrimSuffix s p = (if HasSuffix s p then take (length s - length p) s else s)"

text \<open>\<^verbatim>\<open>strings.Split\<close> with a separator of one byte: never empty, \<open>[s]\<close> when it does not occur.\<close>

fun StrSplit :: "string \<Rightarrow> char \<Rightarrow> string list" where
  "StrSplit [] c = [[]]"
| "StrSplit (x # xs) c =
     (if x = c then [] # StrSplit xs c
      else (case StrSplit xs c of [] \<Rightarrow> [[x]] | w # ws \<Rightarrow> (x # w) # ws))"

fun StrJoin :: "string list \<Rightarrow> string \<Rightarrow> string" where
  "StrJoin [] sep = []"
| "StrJoin [s] sep = s"
| "StrJoin (s # t # ss) sep = s @ sep @ StrJoin (t # ss) sep"

text \<open>\<^verbatim>\<open>strings.Replace(s, old, new, -1)\<close> with an \<open>old\<close> of one byte.\<close>

definition StrReplace :: "string \<Rightarrow> char \<Rightarrow> string \<Rightarrow> string" where
  "StrReplace s c new = concat (map (\<lambda>x. if x = c then new else [x]) s)"

fun StrContains :: "string \<Rightarrow> string \<Rightarrow> bool" where
  "StrContains [] t = (t = [])"
| "StrContains (x # xs) t = (prefix t (x # xs) \<or> StrContains xs t)"

text \<open>\<^verbatim>\<open>strings.SplitN(s, sep, 2)\<close> for a non-empty separator: the parts around its first
  occurrence, \<open>None\<close> when there is none.\<close>

fun CutFirst :: "string \<Rightarrow> string \<Rightarrow> (string \<times> string) option" where
  "CutFirst [] sep = None"
| "CutFirst (c # cs) sep =
     (if prefix sep (c # cs) then Some ([], drop (length sep) (c # cs))
      else map_option (\<lambda>(a, b). (c # a, b)) (CutFirst cs sep))"

text \<open>\<^verbatim>\<open>bytes.IndexAny\<close> with an ASCII set, \<^verbatim>\<open>IndexByte\<close> with a singleton; \<open>None\<close> is \<open>-1\<close>.\<close>

fun IndexAny :: "string \<Rightarrow> string \<Rightarrow> nat option" where
  "IndexAny [] cs = None"
| "IndexAny (x # xs) cs = (if x \<in> set cs then Some 0 else map_option Suc (IndexAny xs cs))"

definition isSpace :: "char \<Rightarrow> bool" where
  "isSpace c = (c \<in> set [CHR 0x09, CHR 0x0A, CHR 0x0B, CHR 0x0C, CHR 0x0D, CHR '' ''])"

definition TrimRightIf :: "(char \<Rightarrow> bool) \<Rightarrow> string \<Rightarrow> string" where
  "TrimRightIf P s = rev (dropWhile P (rev s))"

definition TrimSpace :: "string \<Rightarrow> string" where
  "TrimSpace s = TrimRightIf isSpace (dropWhile isSpace s)"

definition lower_char :: "char \<Rightarrow> char" where
  "lower_char c = (let n = of_char c :: nat in
     if 65 \<le> n \<and> n \<le> 90 then char_of (n + 32) else c)"

definition upper_char :: "char \<Rightarrow> char" where
  "upper_char c = (let n = of_char c :: nat in
     if 97 \<le> n \<and> n \<le> 122 then char_of (n - 32) else c)"

definition ToLower :: "string \<Rightarrow> string" where
  "ToLower s = map lower_char s"

definition ToUpper :: "string \<Rightarrow> string" where
  "ToUpper s = map upper_char s"

subsection \<open>Prefixes and suffixes\<close>

lemma HasPrefix_append [simp]: "HasPrefix (p @ s) p"
  by (simp add: HasPrefix_def)

lemma HasPrefix_iff: "HasPrefix s p \<longleftrightarrow> (\<exists>t. s = p @ t)"
  by (auto simp: HasPrefix_def prefix_def)

lemma HasPrefix_Nil [simp]: "HasPrefix s []"
  by (simp add: HasPrefix_def)

lemma HasPrefix_trans: "HasPrefix s p \<Longrightarrow> HasPrefix p q \<Longrightarrow> HasPrefix s q"
  by (auto simp: HasPrefix_def)

lemma TrimPrefix_append [simp]: "TrimPrefix (p @ s) p = s"
  by (simp add: TrimPrefix_def)

lemma append_TrimPrefix: "HasPrefix s p \<Longrightarrow> p @ TrimPrefix s p = s"
  by (auto simp: HasPrefix_iff)

lemma TrimPrefix_no: "\<not> HasPrefix s p \<Longrightarrow> TrimPrefix s p = s"
  by (simp add: TrimPrefix_def)

lemma HasSuffix_iff: "HasSuffix s p \<longleftrightarrow> (\<exists>t. s = t @ p)"
proof
  assume "HasSuffix s p"
  then have "s = take (length s - length p) s @ p"
    by (metis HasSuffix_def append_take_drop_id)
  then show "\<exists>t. s = t @ p" by blast
qed (auto simp: HasSuffix_def)

lemma HasSuffix_append [simp]: "HasSuffix (s @ p) p"
  by (auto simp: HasSuffix_iff)

lemma TrimSuffix_append [simp]: "TrimSuffix (s @ p) p = s"
  by (simp add: TrimSuffix_def)

lemma TrimSuffix_no: "\<not> HasSuffix s p \<Longrightarrow> TrimSuffix s p = s"
  by (simp add: TrimSuffix_def)

lemma TrimSuffix_id_or: "TrimSuffix s p = s \<or> s = TrimSuffix s p @ p"
proof (cases "HasSuffix s p")
  case True
  then obtain t where "s = t @ p" by (auto simp: HasSuffix_iff)
  then show ?thesis by simp
next
  case False
  then show ?thesis by (simp add: TrimSuffix_no)
qed

subsection \<open>Split and join\<close>

lemma StrSplit_not_Nil [simp]: "StrSplit s c \<noteq> []"
  by (cases s) (auto split: list.splits)

lemma StrSplit_no_sep: "w \<in> set (StrSplit s c) \<Longrightarrow> c \<notin> set w"
proof (induction s arbitrary: w)
  case Nil
  then show ?case by simp
next
  case (Cons x xs)
  then show ?case by (cases "StrSplit xs c") (auto split: if_splits)
qed

lemma StrJoin_Cons: "StrJoin (s # ss) sep = (if ss = [] then s else s @ sep @ StrJoin ss sep)"
  by (cases ss) auto

lemma StrJoin_StrSplit [simp]: "StrJoin (StrSplit s c) [c] = s"
proof (induction s)
  case Nil
  then show ?case by simp
next
  case (Cons x xs)
  then show ?case by (cases "StrSplit xs c") (auto simp: StrJoin_Cons)
qed

lemma StrSplit_single: "c \<notin> set s \<Longrightarrow> StrSplit s c = [s]"
  by (induction s) auto

lemma StrSplit_append_sep: "StrSplit (s @ c # t) c = StrSplit s c @ StrSplit t c"
proof (induction s)
  case Nil
  then show ?case by simp
next
  case (Cons x xs)
  then show ?case by (cases "StrSplit xs c") auto
qed

lemma StrSplit_StrJoin:
  "ss \<noteq> [] \<Longrightarrow> (\<And>w. w \<in> set ss \<Longrightarrow> c \<notin> set w) \<Longrightarrow> StrSplit (StrJoin ss [c]) c = ss"
proof (induction ss)
  case Nil
  then show ?case by simp
next
  case (Cons s ss)
  show ?case
  proof (cases "ss = []")
    case True
    with Cons.prems show ?thesis by (simp add: StrSplit_single)
  next
    case False
    with Cons show ?thesis
      by (simp add: StrJoin_Cons StrSplit_append_sep StrSplit_single)
  qed
qed

lemma StrJoin_append:
  "xs \<noteq> [] \<Longrightarrow> ys \<noteq> [] \<Longrightarrow> StrJoin (xs @ ys) sep = StrJoin xs sep @ sep @ StrJoin ys sep"
  by (induction xs) (auto simp: StrJoin_Cons)

subsection \<open>Search\<close>

lemma StrContains_iff: "StrContains s t \<longleftrightarrow> (\<exists>u v. s = u @ t @ v)"
proof (induction s)
  case Nil
  then show ?case by auto
next
  case (Cons x xs)
  show ?case
  proof
    assume "StrContains (x # xs) t"
    then show "\<exists>u v. x # xs = u @ t @ v"
      using Cons.IH by (auto simp: prefix_def) (metis append.left_neutral append_Cons)+
  next
    assume "\<exists>u v. x # xs = u @ t @ v"
    then obtain u v where uv: "x # xs = u @ t @ v" by blast
    show "StrContains (x # xs) t"
    proof (cases u)
      case Nil
      with uv have "prefix t (x # xs)" by simp
      then show ?thesis by simp
    next
      case (Cons y ys)
      with uv Cons.IH show ?thesis by auto
    qed
  qed
qed

lemma CutFirst_Some: "CutFirst s sep = Some (a, b) \<Longrightarrow> s = a @ sep @ b"
  by (induction s arbitrary: a) (auto simp: prefix_def split: if_splits)

lemma IndexAny_Some:
  "IndexAny s cs = Some i \<Longrightarrow> i < length s \<and> s ! i \<in> set cs \<and> set (take i s) \<inter> set cs = {}"
proof (induction s arbitrary: i)
  case Nil
  then show ?case by simp
next
  case (Cons x xs)
  then show ?case by (auto split: if_splits)
qed

lemma IndexAny_None: "IndexAny s cs = None \<longleftrightarrow> set s \<inter> set cs = {}"
  by (induction s) auto

lemma IndexAny_append:
  "set s \<inter> set cs = {} \<Longrightarrow> IndexAny (s @ t) cs = map_option ((+) (length s)) (IndexAny t cs)"
proof (induction s)
  case Nil
  then show ?case by (simp add: option.map_ident)
next
  case (Cons x xs)
  then show ?case by (auto simp: option.map_comp comp_def)
qed

section \<open>Package strconv\<close>

text \<open>
  \<^verbatim>\<open>strconv.Atoi\<close>: an optional sign and at least one decimal digit, refused outside the
  64-bit range of \<^verbatim>\<open>int\<close>; \<open>None\<close> is the error.
\<close>

definition isDigit :: "char \<Rightarrow> bool" where
  "isDigit c = (let n = of_char c :: nat in 48 \<le> n \<and> n \<le> 57)"

definition digit_val :: "char \<Rightarrow> nat" where
  "digit_val c = (of_char c :: nat) - 48"

fun parse_digits :: "nat \<Rightarrow> string \<Rightarrow> nat option" where
  "parse_digits acc [] = Some acc"
| "parse_digits acc (c # cs) =
     (if isDigit c then parse_digits (10 * acc + digit_val c) cs else None)"

definition maxInt :: int where "maxInt = 9223372036854775807"
definition minInt :: int where "minInt = -9223372036854775808"

definition Atoi :: "string \<Rightarrow> int option" where
  "Atoi s =
     (let (neg, ds) = (case s of [] \<Rightarrow> (False, [])
        | c # cs \<Rightarrow> if c = CHR ''-'' then (True, cs)
                    else if c = CHR ''+'' then (False, cs) else (False, c # cs))
      in if ds = [] then None
         else case parse_digits 0 ds of None \<Rightarrow> None
           | Some n \<Rightarrow> let i = (if neg then - int n else int n)
                       in if minInt \<le> i \<and> i \<le> maxInt then Some i else None)"

text \<open>The message of its error.\<close>

definition AtoiErr :: "string \<Rightarrow> string" where
  "AtoiErr s =
     (let digits = (case s of c # cs \<Rightarrow> if c = CHR ''-'' \<or> c = CHR ''+'' then cs else s | [] \<Rightarrow> []) in
      ''strconv.Atoi: parsing '' @ dq s @
      (if digits \<noteq> [] \<and> list_all isDigit digits then '': value out of range'' else '': invalid syntax''))"

fun digits_of :: "nat \<Rightarrow> string" where
  "digits_of n = (if n < 10 then [char_of (48 + n)]
                  else digits_of (n div 10) @ [char_of (48 + n mod 10)])"

declare digits_of.simps [simp del]

text \<open>\<^verbatim>\<open>strconv.Itoa\<close>, also \<^verbatim>\<open>%d\<close>.\<close>

definition Itoa :: "int \<Rightarrow> string" where
  "Itoa i = (if i < 0 then CHR ''-'' # digits_of (nat (- i)) else digits_of (nat i))"

lemma isDigit_digit [simp]: "(d::nat) < 10 \<Longrightarrow> isDigit (char_of (48 + d))"
  by (simp add: isDigit_def Let_def)

lemma digit_val_digit [simp]: "(d::nat) < 10 \<Longrightarrow> digit_val (char_of (48 + d)) = d"
  by (simp add: digit_val_def)

lemma parse_digits_append:
  "parse_digits acc (xs @ ys) =
     (case parse_digits acc xs of None \<Rightarrow> None | Some a \<Rightarrow> parse_digits a ys)"
  by (induction acc xs rule: parse_digits.induct) auto

lemma parse_digits_digits_of: "parse_digits 0 (digits_of n) = Some n"
proof (induction n rule: digits_of.induct)
  case (1 n)
  show ?case
  proof (cases "n < 10")
    case True
    then show ?thesis by (simp add: digits_of.simps [of n])
  next
    case False
    with 1 have "parse_digits 0 (digits_of (n div 10)) = Some (n div 10)" by simp
    with False show ?thesis
      by (simp add: digits_of.simps [of n] parse_digits_append)
  qed
qed

lemma digits_of_not_Nil [simp]: "digits_of n \<noteq> []"
  by (subst digits_of.simps) simp

lemma digits_of_isDigit: "c \<in> set (digits_of n) \<Longrightarrow> isDigit c"
proof (induction n rule: digits_of.induct)
  case (1 n)
  then show ?case
    by (cases "n < 10") (auto simp: digits_of.simps [of n])
qed

lemma not_isDigit_sign [simp]: "\<not> isDigit CHR ''-''" "\<not> isDigit CHR ''+''"
  by (simp_all add: isDigit_def)

lemma digits_of_Cons: "digits_of n = c # cs \<Longrightarrow> c \<noteq> CHR ''-'' \<and> c \<noteq> CHR ''+''"
  using digits_of_isDigit [of c n] by auto

text \<open>Round trip of the decimal printer and parser on the machine range.\<close>

lemma Atoi_Itoa:
  assumes "minInt \<le> i" and "i \<le> maxInt"
  shows "Atoi (Itoa i) = Some i"
proof (cases "i < 0")
  case True
  with assms show ?thesis
    by (simp add: Atoi_def Itoa_def parse_digits_digits_of)
next
  case False
  obtain c cs where c: "digits_of (nat i) = c # cs"
    using digits_of_not_Nil [of "nat i"] by (cases "digits_of (nat i)") auto
  from digits_of_Cons [OF c] parse_digits_digits_of [of "nat i"] c False assms
  show ?thesis by (simp add: Atoi_def Itoa_def)
qed

section \<open>Tables that are filled one entry at a time\<close>

text \<open>
  A table with an operation that adds a value under its own key. The last value of a key counts,
  so the order in which the values are added does not matter when no two of them share a key.
\<close>

locale keyed_table =
  fixes ins :: "'t \<Rightarrow> 'v \<Rightarrow> 't" and lookup :: "'t \<Rightarrow> 'k \<Rightarrow> 'v option" and key :: "'v \<Rightarrow> 'k"
  assumes lookup_ins: "lookup (ins t v) k = (if k = key v then Some v else lookup t k)"
begin

lemma lookup_fold:
  "lookup (foldl ins t vs) k = (case filter (\<lambda>v. key v = k) vs of [] \<Rightarrow> lookup t k | ws \<Rightarrow> Some (last ws))"
  by (induction vs rule: rev_induct) (auto simp: lookup_ins split: list.splits)

lemma lookup_fold_in:
  assumes "v \<in> set vs" and "\<And>u. u \<in> set vs \<Longrightarrow> key u = key v \<Longrightarrow> u = v"
  shows "lookup (foldl ins t vs) (key v) = Some v"
proof -
  let ?ws = "filter (\<lambda>u. key u = key v) vs"
  have "?ws \<noteq> []" using assms(1) by (auto simp: filter_empty_conv)
  moreover have "last ?ws = v" using assms(2) last_in_set [OF \<open>?ws \<noteq> []\<close>] by auto
  ultimately show ?thesis by (auto simp: lookup_fold split: list.splits)
qed

lemma lookup_fold_out: "k \<notin> key ` set vs \<Longrightarrow> lookup (foldl ins t vs) k = lookup t k"
  by (induction vs rule: rev_induct) (auto simp: lookup_ins)

theorem fold_order_irrelevant:
  assumes "set vs = set us" and "inj_on key (set vs)"
  shows "lookup (foldl ins t vs) = lookup (foldl ins t us)"
proof
  fix k
  show "lookup (foldl ins t vs) k = lookup (foldl ins t us) k"
  proof (cases "k \<in> key ` set vs")
    case True
    then obtain v where v: "v \<in> set vs" "k = key v" by auto
    then have "lookup (foldl ins t xs) k = Some v" if "set xs = set vs" for xs
      using lookup_fold_in [of v xs t] inj_onD [OF assms(2)] that by blast
    then show ?thesis using assms(1) by simp
  next
    case False
    then show ?thesis using assms(1) by (simp add: lookup_fold_out)
  qed
qed

end

end
