(* ===== verification/Go_Regexp.thy ===== *)
theory Go_Regexp
  imports Prelude
begin

text \<open>
  The fragment of Go's \<^verbatim>\<open>regexp\<close> syntax that the repository's patterns use: literals, starred
  and plussed character classes (greedy and lazy), sequence, alternation, optional groups and
  named groups. \<open>rmatch\<close> is the backtracking matcher in continuation style: it tries the
  alternatives in the leftmost-first priority order of Go and returns the captures of the
  first one whose continuation succeeds. The lemmas characterise both stars declaratively.
\<close>

type_synonym captures = "(string \<times> string) list"

datatype regexp =
    RLit string
  | RStar bool "char \<Rightarrow> bool"   \<comment> \<open>class star; the flag is True for the greedy form\<close>
  | RPlus bool "char \<Rightarrow> bool"
  | RSeq regexp regexp
  | RAlt regexp regexp
  | ROpt regexp                 \<comment> \<open>the greedy question mark\<close>
  | RGrp string regexp
  | RCls "char \<Rightarrow> bool"        \<comment> \<open>one character of a class\<close>

fun or_else :: "'a option \<Rightarrow> 'a option \<Rightarrow> 'a option" where
  "or_else (Some x) y = Some x"
| "or_else None y = y"

fun lazy_star :: "(char \<Rightarrow> bool) \<Rightarrow> string \<Rightarrow> (string \<Rightarrow> 'a option) \<Rightarrow> 'a option" where
  "lazy_star P [] k = k []"
| "lazy_star P (c # cs) k = or_else (k (c # cs)) (if P c then lazy_star P cs k else None)"

fun greedy_star :: "(char \<Rightarrow> bool) \<Rightarrow> string \<Rightarrow> (string \<Rightarrow> 'a option) \<Rightarrow> 'a option" where
  "greedy_star P [] k = k []"
| "greedy_star P (c # cs) k = or_else (if P c then greedy_star P cs k else None) (k (c # cs))"

definition class_star :: "bool \<Rightarrow> (char \<Rightarrow> bool) \<Rightarrow> string \<Rightarrow> (string \<Rightarrow> 'a option) \<Rightarrow> 'a option" where
  "class_star g P s k = (if g then greedy_star P s k else lazy_star P s k)"

definition class_plus :: "bool \<Rightarrow> (char \<Rightarrow> bool) \<Rightarrow> string \<Rightarrow> (string \<Rightarrow> 'a option) \<Rightarrow> 'a option" where
  "class_plus g P s k =
     (case s of [] \<Rightarrow> None | c # cs \<Rightarrow> if P c then class_star g P cs k else None)"

primrec rmatch ::
  "regexp \<Rightarrow> string \<Rightarrow> captures \<Rightarrow> (string \<Rightarrow> captures \<Rightarrow> captures option) \<Rightarrow> captures option" where
  "rmatch (RLit l) s c k = (if HasPrefix s l then k (TrimPrefix s l) c else None)"
| "rmatch (RStar g P) s c k = class_star g P s (\<lambda>s'. k s' c)"
| "rmatch (RPlus g P) s c k = class_plus g P s (\<lambda>s'. k s' c)"
| "rmatch (RSeq a b) s c k = rmatch a s c (\<lambda>s' c'. rmatch b s' c' k)"
| "rmatch (RAlt a b) s c k = or_else (rmatch a s c k) (rmatch b s c k)"
| "rmatch (ROpt r) s c k = or_else (rmatch r s c k) (k s c)"
| "rmatch (RGrp n r) s c k =
     rmatch r s c (\<lambda>s' c'. k s' ((n, take (length s - length s') s) # c'))"
| "rmatch (RCls P) s c k = (case s of [] \<Rightarrow> None | x # s' \<Rightarrow> if P x then k s' c else None)"

text \<open>\<^verbatim>\<open>FindStringSubmatch\<close> of a pattern anchored at both ends: \<open>None\<close> when it does not match.\<close>

definition FindSubmatch :: "regexp \<Rightarrow> string \<Rightarrow> captures option" where
  "FindSubmatch r s = rmatch r s [] (\<lambda>s' c. if s' = [] then Some c else None)"

definition MatchString :: "regexp \<Rightarrow> string \<Rightarrow> bool" where
  "MatchString r s = (FindSubmatch r s \<noteq> None)"

text \<open>A group that took no part in the match is the empty string.\<close>

definition capture :: "captures \<Rightarrow> string \<Rightarrow> string" where
  "capture c n = (case map_of c n of None \<Rightarrow> [] | Some s \<Rightarrow> s)"

section \<open>Character classes\<close>

text \<open>The dot does not match a line feed; \<open>\s\<close> is the ASCII white space without vertical tab.\<close>

definition any_char :: "char \<Rightarrow> bool" where "any_char c = (c \<noteq> CHR 0x0A)"

definition re_space :: "char \<Rightarrow> bool" where
  "re_space c = (c \<in> set [CHR 0x09, CHR 0x0A, CHR 0x0C, CHR 0x0D, CHR '' ''])"

definition none_of :: "string \<Rightarrow> char \<Rightarrow> bool" where "none_of cs c = (c \<notin> set cs)"

section \<open>Laws of the matcher\<close>

lemma or_else_simps [simp]:
  "or_else x None = x"
  "or_else x y = None \<longleftrightarrow> x = None \<and> y = None"
  by (cases x; simp)+

lemma or_else_assoc: "or_else (or_else x y) z = or_else x (or_else y z)"
  by (cases x) auto

text \<open>
  The lazy star takes the shortest run of class characters whose continuation succeeds,
  the greedy star the longest; both fail exactly when no run works.
\<close>

lemma lazy_star_Some:
  assumes "list_all P u" and "k v = Some x"
    and "\<And>u1 u2. u = u1 @ u2 \<Longrightarrow> u2 \<noteq> [] \<Longrightarrow> k (u2 @ v) = None"
  shows "lazy_star P (u @ v) k = Some x"
  using assms
proof (induction u)
  case Nil
  then show ?case by (cases v) auto
next
  case (Cons c u)
  have "k (c # u @ v) = None" using Cons.prems(3) [of "[]" "c # u"] by simp
  moreover have "lazy_star P (u @ v) k = Some x"
  proof (rule Cons.IH)
    show "k (u2 @ v) = None" if "u = u1 @ u2" "u2 \<noteq> []" for u1 u2
      using Cons.prems(3) [of "c # u1" u2] that by simp
  qed (use Cons.prems in auto)
  ultimately show ?case using Cons.prems(1) by simp
qed

lemma lazy_star_None:
  "lazy_star P s k = None \<longleftrightarrow> (\<forall>u v. s = u @ v \<longrightarrow> list_all P u \<longrightarrow> k v = None)"
proof (induction s)
  case Nil
  then show ?case by simp
next
  case (Cons c s)
  show ?case
  proof
    assume l: "lazy_star P (c # s) k = None"
    show "\<forall>u v. c # s = u @ v \<longrightarrow> list_all P u \<longrightarrow> k v = None"
    proof (intro allI impI)
      fix u v assume "c # s = u @ v" "list_all P u"
      then show "k v = None" using l Cons.IH by (cases u) auto
    qed
  next
    assume r: "\<forall>u v. c # s = u @ v \<longrightarrow> list_all P u \<longrightarrow> k v = None"
    then have "k (c # s) = None" by (auto dest: spec [of _ "[]"])
    moreover have "lazy_star P s k = None" if "P c"
      unfolding Cons.IH using r that by (auto dest: spec [of _ "c # u" for u])
    ultimately show "lazy_star P (c # s) k = None" by simp
  qed
qed

lemma greedy_star_max:
  assumes "list_all P u" and "v = [] \<or> \<not> P (hd v)" and "k v = Some x"
  shows "greedy_star P (u @ v) k = Some x"
  using assms
proof (induction u)
  case Nil
  then show ?case by (cases v) auto
next
  case (Cons c u)
  then show ?case by simp
qed

lemma greedy_star_None:
  "greedy_star P s k = None \<longleftrightarrow> (\<forall>u v. s = u @ v \<longrightarrow> list_all P u \<longrightarrow> k v = None)"
proof (induction s)
  case Nil
  then show ?case by simp
next
  case (Cons c s)
  show ?case
  proof
    assume l: "greedy_star P (c # s) k = None"
    show "\<forall>u v. c # s = u @ v \<longrightarrow> list_all P u \<longrightarrow> k v = None"
    proof (intro allI impI)
      fix u v assume "c # s = u @ v" "list_all P u"
      then show "k v = None" using l Cons.IH by (cases u) auto
    qed
  next
    assume r: "\<forall>u v. c # s = u @ v \<longrightarrow> list_all P u \<longrightarrow> k v = None"
    then have "k (c # s) = None" by (auto dest: spec [of _ "[]"])
    moreover have "greedy_star P s k = None" if "P c"
      unfolding Cons.IH using r that by (auto dest: spec [of _ "c # u" for u])
    ultimately show "greedy_star P (c # s) k = None" by simp
  qed
qed

text \<open>The greedy and the lazy star succeed on the same inputs: they differ in what they capture.\<close>

lemma stars_agree: "(greedy_star P s k = None) = (lazy_star P s k = None)"
  by (simp only: greedy_star_None lazy_star_None)

lemma rmatch_lit_append [simp]: "rmatch (RLit l) (l @ s) c k = k s c"
  by simp

lemma lazy_plus_Some:
  assumes "u \<noteq> []" and "list_all P u" and "k v = Some x"
    and "\<And>u1 u2. u = u1 @ u2 \<Longrightarrow> u1 \<noteq> [] \<Longrightarrow> u2 \<noteq> [] \<Longrightarrow> k (u2 @ v) = None"
  shows "class_plus False P (u @ v) k = Some x"
proof -
  obtain c w where u: "u = c # w" using assms(1) by (cases u) auto
  have "lazy_star P (w @ v) k = Some x"
  proof (rule lazy_star_Some)
    show "k (u2 @ v) = None" if "w = u1 @ u2" "u2 \<noteq> []" for u1 u2
      using assms(4) [of "c # u1" u2] that u by simp
  qed (use assms u in auto)
  with u assms(2) show ?thesis by (simp add: class_plus_def class_star_def)
qed

lemma greedy_plus_max:
  assumes "u \<noteq> []" and "list_all P u" and "v = [] \<or> \<not> P (hd v)" and "k v = Some x"
  shows "class_plus True P (u @ v) k = Some x"
  using assms greedy_star_max [of P "tl u" v k x]
  by (cases u) (auto simp: class_plus_def class_star_def)

section \<open>What a match means\<close>

text \<open>\<open>parses r u m\<close>: the pattern matches exactly \<open>u\<close>, in some way, with the captures \<open>m\<close>. The
  matcher finds such a match if there is one.\<close>

primrec parses :: "regexp \<Rightarrow> string \<Rightarrow> captures \<Rightarrow> bool" where
  "parses (RLit l) u m \<longleftrightarrow> u = l \<and> m = []"
| "parses (RCls P) u m \<longleftrightarrow> (\<exists>x. u = [x] \<and> P x) \<and> m = []"
| "parses (RStar g P) u m \<longleftrightarrow> list_all P u \<and> m = []"
| "parses (RPlus g P) u m \<longleftrightarrow> u \<noteq> [] \<and> list_all P u \<and> m = []"
| "parses (RSeq a b) u m \<longleftrightarrow>
     (\<exists>u1 u2 m1 m2. u = u1 @ u2 \<and> m = m2 @ m1 \<and> parses a u1 m1 \<and> parses b u2 m2)"
| "parses (RAlt a b) u m \<longleftrightarrow> parses a u m \<or> parses b u m"
| "parses (ROpt r) u m \<longleftrightarrow> parses r u m \<or> u = [] \<and> m = []"
| "parses (RGrp n r) u m \<longleftrightarrow> (\<exists>m'. m = (n, u) # m' \<and> parses r u m')"

lemma or_else_Some: "or_else a b = Some x \<Longrightarrow> a = Some x \<or> b = Some x"
  by (cases a) auto

lemma class_star_Some:
  "class_star g P s k = Some x \<Longrightarrow> \<exists>u v. s = u @ v \<and> list_all P u \<and> k v = Some x"
proof (induction s)
  case Nil
  then show ?case by (auto simp: class_star_def split: if_splits)
next
  case (Cons c s)
  from Cons.prems consider "k (c # s) = Some x" | "P c" "class_star g P s k = Some x"
    by (auto simp: class_star_def split: if_splits dest!: or_else_Some)
  then show ?case
  proof cases
    case 1
    then show ?thesis by (intro exI [of _ "[]"] exI [of _ "c # s"]) simp
  next
    case 2
    with Cons.IH obtain u v where "s = u @ v" "list_all P u" "k v = Some x" by blast
    with 2(1) show ?thesis by (intro exI [of _ "c # u"] exI [of _ v]) simp
  qed
qed

lemma class_star_None:
  "class_star g P s k = None \<longleftrightarrow> (\<forall>u v. s = u @ v \<longrightarrow> list_all P u \<longrightarrow> k v = None)"
  by (simp add: class_star_def greedy_star_None lazy_star_None)

lemma class_plus_Some:
  "class_plus g P s k = Some x \<Longrightarrow> \<exists>u v. s = u @ v \<and> u \<noteq> [] \<and> list_all P u \<and> k v = Some x"
proof (cases s)
  case Nil
  assume "class_plus g P s k = Some x"
  with Nil show ?thesis by (simp add: class_plus_def)
next
  case (Cons c t)
  assume "class_plus g P s k = Some x"
  with Cons have "P c" "class_star g P t k = Some x" by (simp_all add: class_plus_def split: if_splits)
  with class_star_Some [of g P t k x] obtain u v where "t = u @ v" "list_all P u" "k v = Some x" by blast
  with Cons \<open>P c\<close> show ?thesis by (intro exI [of _ "c # u"] exI [of _ v]) simp
qed

lemma class_plus_None:
  "class_plus g P (u @ v) k = None \<Longrightarrow> u \<noteq> [] \<Longrightarrow> list_all P u \<Longrightarrow> k v = None"
  by (cases u) (auto simp: class_plus_def class_star_None)

lemma rmatch_sound:
  "rmatch r s c k = Some x \<Longrightarrow> \<exists>u v m. s = u @ v \<and> parses r u m \<and> k v (m @ c) = Some x"
proof (induction r arbitrary: s c k)
  case (RLit l)
  then show ?case by (auto simp: HasPrefix_iff split: if_splits)
next
  case (RStar g P)
  from class_star_Some [OF RStar [unfolded rmatch.simps]] show ?case by auto
next
  case (RPlus g P)
  from class_plus_Some [OF RPlus [unfolded rmatch.simps]] show ?case by auto
next
  case (RSeq a b)
  from RSeq.IH(1) [OF RSeq.prems [unfolded rmatch.simps]] obtain u v m
    where 1: "s = u @ v" "parses a u m" "rmatch b v (m @ c) k = Some x" by blast
  from RSeq.IH(2) [OF 1(3)] obtain u' v' m'
    where 2: "v = u' @ v'" "parses b u' m'" "k v' (m' @ m @ c) = Some x" by blast
  from 1 2 show ?case
    by (intro exI [of _ "u @ u'"] exI [of _ v'] exI [of _ "m' @ m"]) auto
next
  case (RAlt a b)
  then show ?case by (fastforce dest!: or_else_Some)
next
  case (ROpt r)
  from ROpt.prems [unfolded rmatch.simps] consider "rmatch r s c k = Some x" | "k s c = Some x"
    by (blast dest: or_else_Some)
  then show ?case
  proof cases
    case 1
    with ROpt.IH show ?thesis by fastforce
  next
    case 2
    then show ?thesis by (intro exI [of _ "[]"] exI [of _ s]) simp
  qed
next
  case (RGrp n r)
  from RGrp.IH [OF RGrp.prems [unfolded rmatch.simps]] show ?case by fastforce
next
  case (RCls P)
  then obtain a t where "s = [a] @ t" "P a" "k t c = Some x" by (cases s) (auto split: if_splits)
  then show ?case by (intro exI [of _ "[a]"] exI [of _ t]) simp
qed

lemma rmatch_complete:
  "rmatch r s c k = None \<Longrightarrow> (\<And>s' c c'. k s' c = None \<longleftrightarrow> k s' c' = None) \<Longrightarrow>
     s = u @ v \<Longrightarrow> parses r u m \<Longrightarrow> k v c' = None"
proof (induction r arbitrary: s c k u v m c')
  case (RLit l)
  then show ?case by auto
next
  case (RStar g P)
  then have "k v c = None" by (auto simp: class_star_None)
  then show ?case using RStar.prems(2) by blast
next
  case (RPlus g P)
  then have "k v c = None" using class_plus_None [of g P u v "\<lambda>s'. k s' c"] by simp
  then show ?case using RPlus.prems(2) by blast
next
  case (RSeq a b)
  then obtain u1 u2 m1 m2 where p: "u = u1 @ u2" "parses a u1 m1" "parses b u2 m2" by auto
  let ?k = "\<lambda>s' c'. rmatch b s' c' k"
  have swap: "rmatch b s' d' k = None" if "rmatch b s' d k = None" for s' d d'
  proof (rule ccontr)
    assume "rmatch b s' d' k \<noteq> None"
    then obtain x where "rmatch b s' d' k = Some x" by auto
    from rmatch_sound [OF this] obtain u v m
      where "s' = u @ v" "parses b u m" "k v (m @ d') = Some x" by blast
    with RSeq.IH(2) [OF that RSeq.prems(2), of u v m "m @ d'"] show False by simp
  qed
  have "?k (u2 @ v) c' = None"
  proof (rule RSeq.IH(1) [where k = ?k])
    show "rmatch a s c ?k = None" using RSeq.prems(1) by simp
    show "?k s' c = None \<longleftrightarrow> ?k s' d = None" for s' c d using swap by blast
  qed (use RSeq.prems p in auto)
  from RSeq.IH(2) [OF this RSeq.prems(2) refl p(3)] show ?case .
next
  case (RAlt a b)
  then show ?case by (auto simp del: rmatch.simps simp: rmatch.simps(5))
next
  case (ROpt r)
  have n: "rmatch r s c k = None" "k s c = None" using ROpt.prems(1) by simp_all
  consider "parses r u m" | "u = []" using ROpt.prems(4) by auto
  then show ?case
  proof cases
    case 1
    then show ?thesis by (rule ROpt.IH [OF n(1) ROpt.prems(2,3)])
  next
    case 2
    then have "k v c = None" using n(2) ROpt.prems(3) by simp
    then show ?thesis using ROpt.prems(2) by blast
  qed
next
  case (RGrp n r)
  then obtain m' where p: "parses r u m'" by auto
  let ?k = "\<lambda>s' c'. k s' ((n, take (length s - length s') s) # c')"
  have "?k v c' = None"
  proof (rule RGrp.IH [where k = ?k])
    show "rmatch r s c ?k = None" using RGrp.prems(1) by simp
    show "?k s' d = None \<longleftrightarrow> ?k s' d' = None" for s' d d' by (rule RGrp.prems(2))
  qed (use RGrp.prems p in auto)
  then show ?case using RGrp.prems(2) by blast
next
  case (RCls P)
  then have "k v c = None" by (auto split: if_splits)
  then show ?case using RCls.prems(2) by blast
qed

lemma FindSubmatch_parses: "FindSubmatch r s = Some m \<Longrightarrow> parses r s m"
  unfolding FindSubmatch_def by (auto dest!: rmatch_sound split: if_splits)

lemma FindSubmatch_None: "FindSubmatch r s = None \<longleftrightarrow> (\<nexists>m. parses r s m)"
proof
  assume n: "FindSubmatch r s = None"
  show "\<nexists>m. parses r s m"
  proof
    assume "\<exists>m. parses r s m"
    then obtain m where "parses r s m" ..
    have "(if [] = ([] :: string) then Some [] else None) = (None :: captures option)"
      by (rule rmatch_complete [OF n [unfolded FindSubmatch_def] _ _ \<open>parses r s m\<close>]) auto
    then show False by simp
  qed
next
  assume "\<nexists>m. parses r s m"
  then show "FindSubmatch r s = None"
    using FindSubmatch_parses by (cases "FindSubmatch r s") auto
qed

lemma MatchString_iff: "MatchString r s \<longleftrightarrow> (\<exists>m. parses r s m)"
  by (simp add: MatchString_def FindSubmatch_None)

text \<open>What a named group can capture, and the groups that take part in every match.\<close>

primrec grp :: "string \<Rightarrow> regexp \<Rightarrow> string \<Rightarrow> bool" where
  "grp n (RLit l) x \<longleftrightarrow> False"
| "grp n (RCls P) x \<longleftrightarrow> False"
| "grp n (RStar g P) x \<longleftrightarrow> False"
| "grp n (RPlus g P) x \<longleftrightarrow> False"
| "grp n (RSeq a b) x \<longleftrightarrow> grp n a x \<or> grp n b x"
| "grp n (RAlt a b) x \<longleftrightarrow> grp n a x \<or> grp n b x"
| "grp n (ROpt r) x \<longleftrightarrow> grp n r x"
| "grp n (RGrp n' r) x \<longleftrightarrow> n = n' \<and> (\<exists>m. parses r x m) \<or> grp n r x"

primrec always :: "string \<Rightarrow> regexp \<Rightarrow> bool" where
  "always n (RLit l) \<longleftrightarrow> False"
| "always n (RCls P) \<longleftrightarrow> False"
| "always n (RStar g P) \<longleftrightarrow> False"
| "always n (RPlus g P) \<longleftrightarrow> False"
| "always n (RSeq a b) \<longleftrightarrow> always n a \<or> always n b"
| "always n (RAlt a b) \<longleftrightarrow> always n a \<and> always n b"
| "always n (ROpt r) \<longleftrightarrow> False"
| "always n (RGrp n' r) \<longleftrightarrow> n = n' \<or> always n r"

lemma parses_grp: "parses r u m \<Longrightarrow> (n, x) \<in> set m \<Longrightarrow> grp n r x"
  by (induction r arbitrary: u m) (auto, blast+)

lemma parses_always: "parses r u m \<Longrightarrow> always n r \<Longrightarrow> n \<in> fst ` set m"
  by (induction r arbitrary: u m) (auto simp: image_Un)

lemma capture_grp:
  assumes "parses r u m" and "always n r"
  shows "grp n r (capture m n)"
proof -
  obtain x where "map_of m n = Some x"
    using parses_always [OF assms] by (metis map_of_eq_None_iff not_None_eq)
  with parses_grp [OF assms(1)] show ?thesis by (auto simp: capture_def dest: map_of_SomeD)
qed

lemma capture_grp_or:
  assumes "parses r u m"
  shows "capture m n = [] \<or> grp n r (capture m n)"
  using parses_grp [OF assms] by (cases "map_of m n") (auto simp: capture_def dest: map_of_SomeD)

lemma parses_seq: "parses a u1 m1 \<Longrightarrow> parses b u2 m2 \<Longrightarrow> parses (RSeq a b) (u1 @ u2) (m2 @ m1)"
  by auto

end
