(* ===== verification/Go_Filepath.thy ===== *)
theory Go_Filepath
  imports Prelude
begin

text \<open>
  Go's \<^verbatim>\<open>path/filepath\<close> on a Unix host, where the separator is a slash, \<^verbatim>\<open>ToSlash\<close> is the
  identity and volume names are empty: \<open>Clean\<close>, \<open>Join\<close>, \<open>Dir\<close>, \<open>Base\<close>, \<open>IsAbs\<close>, \<open>Rel\<close>. A path
  is cleaned by folding its elements into a stack (\<open>clean_step\<close>); the lemmas show that the
  result is normal (no empty, dot or inner dot-dot element), that \<open>Clean\<close> is idempotent, that
  it never makes a path longer, and that walking up with \<open>Dir\<close> reaches a fixed point.
\<close>

section \<open>Definitions\<close>

definition IsAbs :: "string \<Rightarrow> bool" where
  "IsAbs s = (case s of [] \<Rightarrow> False | c # _ \<Rightarrow> c = CHR ''/'')"

definition clean_step :: "bool \<Rightarrow> string list \<Rightarrow> string \<Rightarrow> string list" where
  "clean_step rooted st e =
     (if e = [] \<or> e = ''.'' then st
      else if e = ''..'' then
        (case st of [] \<Rightarrow> if rooted then [] else [''..'']
         | x # xs \<Rightarrow> if x = ''..'' then ''..'' # st else xs)
      else e # st)"

definition clean_elems :: "bool \<Rightarrow> string list \<Rightarrow> string list" where
  "clean_elems rooted es = rev (foldl (clean_step rooted) [] es)"

definition path_elems :: "string \<Rightarrow> string list" where
  "path_elems s = clean_elems (IsAbs s) (StrSplit s CHR ''/'')"

definition render :: "bool \<Rightarrow> string list \<Rightarrow> string" where
  "render rooted es =
     (if rooted then CHR ''/'' # StrJoin es ''/''
      else if es = [] then ''.'' else StrJoin es ''/'')"

definition Clean :: "string \<Rightarrow> string" where
  "Clean s = render (IsAbs s) (path_elems s)"

text \<open>\<open>Join\<close> drops leading empty elements, joins with a slash and cleans.\<close>

definition Join :: "string list \<Rightarrow> string" where
  "Join es = (case dropWhile (\<lambda>e. e = []) es of [] \<Rightarrow> [] | ds \<Rightarrow> Clean (StrJoin ds ''/''))"

definition upto_slash :: "string \<Rightarrow> string" where
  "upto_slash s = rev (dropWhile (\<lambda>c. c \<noteq> CHR ''/'') (rev s))"

definition Dir :: "string \<Rightarrow> string" where
  "Dir s = Clean (upto_slash s)"

definition Base :: "string \<Rightarrow> string" where
  "Base s =
     (if s = [] then ''.''
      else let t = TrimRightIf (\<lambda>c. c = CHR ''/'') s;
               b = rev (takeWhile (\<lambda>c. c \<noteq> CHR ''/'') (rev t))
           in if b = [] then ''/'' else b)"

fun drop_common :: "string list \<Rightarrow> string list \<Rightarrow> string list \<times> string list" where
  "drop_common (x # xs) (y # ys) =
     (if x = y then drop_common xs ys else (x # xs, y # ys))"
| "drop_common xs ys = (xs, ys)"

text \<open>\<open>Rel\<close>: \<open>None\<close> is the error, returned when one path is absolute and the other is not, or
  when the rest of the base starts with a parent element.\<close>

definition Rel :: "string \<Rightarrow> string \<Rightarrow> string option" where
  "Rel base targ =
     (if Clean base = Clean targ then Some ''.''
      else if IsAbs (Clean base) \<noteq> IsAbs (Clean targ) then None
      else let bs = path_elems base;
               ts = (if Clean targ = ''.'' then [''.''] else path_elems targ);
               (br, tr) = drop_common bs ts
           in if br \<noteq> [] \<and> hd br = ''..'' then None
              else Some (StrJoin (replicate (length br) ''..'' @ tr) ''/''))"

section \<open>Normal element lists\<close>

definition plain_elem :: "string \<Rightarrow> bool" where
  "plain_elem e = (e \<noteq> [] \<and> e \<noteq> ''.'' \<and> CHR ''/'' \<notin> set e)"

definition normal_elems :: "bool \<Rightarrow> string list \<Rightarrow> bool" where
  "normal_elems rooted es \<longleftrightarrow>
     list_all plain_elem es \<and>
     (\<exists>n as. es = replicate n ''..'' @ as \<and> ''..'' \<notin> set as \<and> (rooted \<longrightarrow> n = 0))"

lemma normal_elemsE:
  assumes "normal_elems rooted es"
  obtains n as where "es = replicate n ''..'' @ as" and "''..'' \<notin> set as"
    and "rooted \<longrightarrow> n = 0" and "list_all plain_elem es"
  using assms unfolding normal_elems_def by blast

lemma normal_elems_Nil [simp]: "normal_elems rooted []"
  by (auto simp: normal_elems_def)

lemma rev_normal_step:
  assumes "normal_elems rooted (rev st)" and "CHR ''/'' \<notin> set e"
  shows "normal_elems rooted (rev (clean_step rooted st e))"
proof -
  from assms(1) obtain n as where es: "rev st = replicate n ''..'' @ as" and nd: "''..'' \<notin> set as"
    and r: "rooted \<longrightarrow> n = 0" and pl: "list_all plain_elem (rev st)"
    by (rule normal_elemsE)
  consider "e = [] \<or> e = ''.''" | "e = ''..''" | "e \<noteq> []" "e \<noteq> ''.''" "e \<noteq> ''..''"
    by blast
  then show ?thesis
  proof cases
    case 1
    with assms(1) show ?thesis by (simp add: clean_step_def)
  next
    case 3
    with es nd r pl assms(2) show ?thesis
      unfolding normal_elems_def
      by (auto simp: clean_step_def plain_elem_def intro!: exI [of _ n] exI [of _ "as @ [e]"])
  next
    case 2
    show ?thesis
    proof (cases st)
      case Nil
      with 2 show ?thesis unfolding normal_elems_def
        by (auto simp: clean_step_def plain_elem_def intro!: exI [of _ "1::nat"])
    next
      case (Cons x xs)
      show ?thesis
      proof (cases "as = []")
        case True
        with es Cons have "x # xs = replicate n ''..''"
          by (metis append.right_neutral rev_replicate rev_rev_ident)
        then have x: "x = ''..''" and n: "n \<noteq> 0" by (cases n; simp)+
        from es True have st: "rev st @ [''..''] = replicate (Suc n) ''..''"
          by (simp add: replicate_append_same)
        have "clean_step rooted st e = ''..'' # st"
          using 2 Cons x by (simp add: clean_step_def)
        moreover have "normal_elems rooted (rev st @ [''..''])"
          unfolding normal_elems_def
        proof (intro conjI exI)
          show "list_all plain_elem (rev st @ [''..''])" using pl by (simp add: plain_elem_def)
          show "rev st @ [''..''] = replicate (Suc n) ''..'' @ []" using st by simp
        qed (use n r in auto)
        ultimately show ?thesis by simp
      next
        case False
        then obtain bs b where bs: "as = bs @ [b]" by (metis rev_exhaust)
        with es Cons have xs: "rev xs = replicate n ''..'' @ bs" and x: "x = b"
          by (metis append_assoc append_eq_append_conv2 last_snoc butlast_snoc rev.simps(2))+
        from bs nd x have "x \<noteq> ''..''" and "''..'' \<notin> set bs" by auto
        moreover have "list_all plain_elem (rev xs)" using pl Cons by simp
        ultimately show ?thesis
          using 2 Cons xs r unfolding normal_elems_def by (auto simp: clean_step_def)
      qed
    qed
  qed
qed

lemma normal_foldl_clean:
  "normal_elems rooted (rev st) \<Longrightarrow> (\<And>e. e \<in> set es \<Longrightarrow> CHR ''/'' \<notin> set e) \<Longrightarrow>
   normal_elems rooted (rev (foldl (clean_step rooted) st es))"
proof (induction es arbitrary: st)
  case Nil
  then show ?case by simp
next
  case (Cons e es)
  then show ?case using rev_normal_step [of rooted st e] by simp
qed

lemma normal_clean_elems:
  "(\<And>e. e \<in> set es \<Longrightarrow> CHR ''/'' \<notin> set e) \<Longrightarrow> normal_elems rooted (clean_elems rooted es)"
  by (simp add: clean_elems_def normal_foldl_clean)

lemma normal_path_elems: "normal_elems (IsAbs s) (path_elems s)"
  unfolding path_elems_def by (rule normal_clean_elems) (rule StrSplit_no_sep)

lemma foldl_clean_dotdots:
  "\<not> rooted \<Longrightarrow> foldl (clean_step rooted) (replicate k ''..'') (replicate n ''..'') =
     replicate (n + k) ''..''"
proof (induction n arbitrary: k)
  case 0
  then show ?case by simp
next
  case (Suc n)
  have "clean_step rooted (replicate k ''..'') ''..'' = replicate (Suc k) ''..''"
    using Suc.prems by (cases k) (simp_all add: clean_step_def)
  with Suc show ?case by (metis add_Suc add_Suc_right foldl_Cons replicate_Suc)
qed

lemma foldl_clean_names:
  "''..'' \<notin> set as \<Longrightarrow> list_all plain_elem as \<Longrightarrow>
   foldl (clean_step rooted) st as = rev as @ st"
  by (induction as arbitrary: st) (auto simp: clean_step_def plain_elem_def)

lemma clean_elems_normal [path_simps]:
  assumes "normal_elems rooted es"
  shows "clean_elems rooted es = es"
proof -
  from assms obtain n as where es: "es = replicate n ''..'' @ as" and nd: "''..'' \<notin> set as"
    and r: "rooted \<longrightarrow> n = 0" and pl: "list_all plain_elem es"
    by (rule normal_elemsE)
  have "foldl (clean_step rooted) [] (replicate n ''..'') = replicate n ''..''"
    using foldl_clean_dotdots [of rooted 0 n] r by (cases rooted) auto
  moreover have "list_all plain_elem as" using pl es by simp
  ultimately show ?thesis
    using es nd by (simp add: clean_elems_def foldl_clean_names)
qed

section \<open>Clean\<close>

lemma IsAbs_simps [simp]:
  "IsAbs (CHR ''/'' # s)" "\<not> IsAbs []"
  by (simp_all add: IsAbs_def)

lemma IsAbs_iff: "IsAbs s \<longleftrightarrow> HasPrefix s ''/''"
  by (cases s) (auto simp: IsAbs_def HasPrefix_iff)

lemma plain_elemD: "plain_elem e \<Longrightarrow> e \<noteq> [] \<and> \<not> IsAbs e"
  by (cases e) (auto simp: plain_elem_def IsAbs_def)

lemma StrJoin_Nil_iff_plain:
  "list_all plain_elem es \<Longrightarrow> StrJoin es sep = [] \<longleftrightarrow> es = []"
  by (cases es) (auto simp: StrJoin_Cons plain_elem_def)

lemma IsAbs_StrJoin_plain:
  "list_all plain_elem es \<Longrightarrow> \<not> IsAbs (StrJoin es ''/'')"
proof (cases es)
  case (Cons e es')
  assume "list_all plain_elem es"
  with Cons obtain c cs where "e = c # cs" "c \<noteq> CHR ''/''"
    by (cases e) (auto simp: plain_elem_def)
  with Cons show ?thesis by (auto simp: StrJoin_Cons IsAbs_def)
qed simp

lemma IsAbs_render [simp]:
  "list_all plain_elem es \<Longrightarrow> IsAbs (render rooted es) = rooted"
  by (auto simp: render_def IsAbs_StrJoin_plain) (simp add: IsAbs_def)

lemma plain_path_elems: "list_all plain_elem (path_elems s)"
  using normal_path_elems [of s] by (simp add: normal_elems_def)

lemma IsAbs_Clean [simp]: "IsAbs (Clean s) = IsAbs s"
  by (simp add: Clean_def plain_path_elems)

lemma clean_elems_skip [simp]:
  "clean_elems rooted ([] # es) = clean_elems rooted es"
  "clean_elems rooted (''.'' # es) = clean_elems rooted es"
  by (simp_all add: clean_elems_def clean_step_def)

lemma path_elems_render:
  assumes "normal_elems rooted es"
  shows "path_elems (render rooted es) = es"
proof -
  have pl: "list_all plain_elem es" and ns: "\<And>w. w \<in> set es \<Longrightarrow> CHR ''/'' \<notin> set w"
    using assms by (auto simp: normal_elems_def list_all_iff plain_elem_def)
  have split: "es \<noteq> [] \<Longrightarrow> StrSplit (StrJoin es ''/'') CHR ''/'' = es"
    using ns by (intro StrSplit_StrJoin) auto
  show ?thesis
  proof (cases "es = []")
    case True
    then show ?thesis by (simp add: path_elems_def render_def clean_elems_def clean_step_def)
  next
    case False
    have "StrSplit (render rooted es) CHR ''/'' = (if rooted then [] # es else es)"
      using split False by (simp add: render_def)
    then have "path_elems (render rooted es) = clean_elems rooted es"
      using pl by (cases rooted) (simp_all add: path_elems_def)
    with assms show ?thesis by (simp add: clean_elems_normal)
  qed
qed

lemma path_elems_Clean [simp]: "path_elems (Clean s) = path_elems s"
  unfolding Clean_def by (rule path_elems_render) (rule normal_path_elems)

lemma Clean_idem [simp, path_simps]: "Clean (Clean s) = Clean s"
  by (subst Clean_def) (simp add: Clean_def [symmetric])

lemma Clean_not_Nil [simp]: "Clean s \<noteq> []"
  using plain_path_elems [of s]
  by (auto simp: Clean_def render_def StrJoin_Nil_iff_plain)

lemma Clean_eq_iff: "Clean s = Clean t \<longleftrightarrow> IsAbs s = IsAbs t \<and> path_elems s = path_elems t"
proof
  assume eq: "Clean s = Clean t"
  have "IsAbs (Clean s) = IsAbs (Clean t)" "path_elems (Clean s) = path_elems (Clean t)"
    by (simp_all only: eq)
  then show "IsAbs s = IsAbs t \<and> path_elems s = path_elems t" by simp
qed (simp add: Clean_def)

lemma Clean_simple:
  assumes "plain_elem s" "s \<noteq> ''..''"
  shows "Clean s = s"
proof -
  from assms have "CHR ''/'' \<notin> set s" by (simp add: plain_elem_def)
  from assms have "\<not> IsAbs s" by (auto dest: plain_elemD)
  with \<open>CHR ''/'' \<notin> set s\<close> have "path_elems s = [s]"
    using assms by (simp add: path_elems_def StrSplit_single clean_elems_def clean_step_def plain_elem_def)
  with \<open>\<not> IsAbs s\<close> show ?thesis by (simp add: Clean_def render_def)
qed

section \<open>Lengths, and walking up with Dir\<close>

definition elems_weight :: "string list \<Rightarrow> nat" where
  "elems_weight es = sum_list (map (\<lambda>e. if e = [] then 0 else Suc (length e)) es)"

lemma elems_weight_simps [simp]:
  "elems_weight [] = 0"
  "elems_weight (e # es) = (if e = [] then 0 else Suc (length e)) + elems_weight es"
  "elems_weight (es @ fs) = elems_weight es + elems_weight fs"
  by (simp_all add: elems_weight_def)

lemma elems_weight_rev [simp]: "elems_weight (rev es) = elems_weight es"
  by (induction es) auto

lemma clean_step_weight:
  "elems_weight (clean_step rooted st e) \<le> elems_weight st + (if e = [] then 0 else Suc (length e))"
  by (auto simp: clean_step_def split: list.split)

lemma foldl_clean_weight:
  "elems_weight (foldl (clean_step rooted) st es) \<le> elems_weight st + elems_weight es"
proof (induction es arbitrary: st)
  case Nil
  then show ?case by simp
next
  case (Cons e es)
  show ?case
    using Cons.IH [of "clean_step rooted st e"] clean_step_weight [of rooted st e] by simp
qed

lemma clean_elems_weight: "elems_weight (clean_elems rooted es) \<le> elems_weight es"
  using foldl_clean_weight [of rooted "[]" es] by (simp add: clean_elems_def)

lemma length_StrJoin_slash:
  "es \<noteq> [] \<Longrightarrow> list_all plain_elem es \<Longrightarrow> Suc (length (StrJoin es ''/'')) = elems_weight es"
  by (induction es) (auto simp: StrJoin_Cons plain_elem_def)

lemma StrSplit_total_length:
  "sum_list (map (\<lambda>e. Suc (length e)) (StrSplit s c)) = Suc (length s)"
proof (induction s)
  case Nil
  then show ?case by simp
next
  case (Cons x s)
  then show ?case by (cases "StrSplit s c") auto
qed

lemma weight_StrSplit: "elems_weight (StrSplit s CHR ''/'') \<le> Suc (length s)"
proof -
  have "elems_weight es \<le> sum_list (map (\<lambda>e. Suc (length e)) es)" for es
    by (induction es) auto
  then show ?thesis using StrSplit_total_length [of s "CHR ''/''"] by metis
qed

lemma weight_StrSplit_slash_end:
  "elems_weight (StrSplit (s @ ''/'') CHR ''/'') \<le> Suc (length s)"
  using weight_StrSplit [of s] by (simp add: StrSplit_append_sep)

lemma weight_path_elems:
  "elems_weight (path_elems s) \<le> (if IsAbs s then length s else Suc (length s))"
proof (cases "IsAbs s")
  case True
  then obtain t where "s = CHR ''/'' # t" by (cases s) (auto simp: IsAbs_def)
  then show ?thesis
    using clean_elems_weight [of True "StrSplit t CHR ''/''"] weight_StrSplit [of t]
    by (simp add: path_elems_def)
next
  case False
  then show ?thesis
    using clean_elems_weight [of False "StrSplit s CHR ''/''"] weight_StrSplit [of s]
    by (simp add: path_elems_def)
qed

lemma weight_path_elems_slash_end:
  "elems_weight (path_elems (s @ ''/'')) \<le> (if IsAbs s then length s else Suc (length s))"
proof (cases "IsAbs s")
  case True
  then obtain t where t: "s = CHR ''/'' # t" by (cases s) (auto simp: IsAbs_def)
  then show ?thesis
    using clean_elems_weight [of True "StrSplit (t @ ''/'') CHR ''/''"]
      weight_StrSplit_slash_end [of t]
    by (simp add: path_elems_def)
next
  case False
  then show ?thesis
    using clean_elems_weight [of "IsAbs (s @ ''/'')" "StrSplit (s @ ''/'') CHR ''/''"]
      weight_StrSplit_slash_end [of s]
    by (simp add: path_elems_def)
qed

lemma length_render:
  "list_all plain_elem es \<Longrightarrow> es \<noteq> [] \<Longrightarrow>
   length (render rooted es) = (if rooted then elems_weight es else elems_weight es - 1)"
  using length_StrJoin_slash [of es] by (auto simp: render_def)

text \<open>Cleaning never makes a path longer, except that the empty path becomes a dot.\<close>

lemma length_Clean: "s \<noteq> [] \<Longrightarrow> length (Clean s) \<le> length s"
proof (cases "path_elems s = []")
  case True
  assume "s \<noteq> []"
  with True show ?thesis by (cases s) (auto simp: Clean_def render_def)
next
  case False
  then show ?thesis
    using weight_path_elems [of s] plain_path_elems [of s]
    by (auto simp: Clean_def length_render split: if_splits)
qed

lemma length_Clean_slash_end:
  assumes "s \<noteq> []"
  shows "length (Clean (s @ ''/'')) < length (s @ ''/'') "
proof (cases "path_elems (s @ ''/'') = []")
  case True
  with assms show ?thesis by (cases s) (auto simp: Clean_def render_def)
next
  case False
  have abs: "IsAbs (s @ ''/'') = IsAbs s" using assms by (cases s) (auto simp: IsAbs_def)
  show ?thesis
    using False weight_path_elems_slash_end [of s] plain_path_elems [of "s @ ''/''"]
    by (auto simp: Clean_def length_render abs split: if_splits)
qed

text \<open>The upward walk: a measure that \<open>Dir\<close> decreases until its fixed point.\<close>

definition up_measure :: "string \<Rightarrow> nat" where
  "up_measure p = (if p = ''.'' \<or> p = ''/'' then 0 else Suc (length p))"

lemma upto_slash_cases:
  obtains "upto_slash p = []" "CHR ''/'' \<notin> set p"
  | d b where "p = d @ ''/'' @ b" "upto_slash p = d @ ''/''" "CHR ''/'' \<notin> set b"
proof -
  let ?r = "rev p"
  have r: "?r = takeWhile (\<lambda>c. c \<noteq> CHR ''/'') ?r @ dropWhile (\<lambda>c. c \<noteq> CHR ''/'') ?r" by simp
  show thesis
  proof (cases "dropWhile (\<lambda>c. c \<noteq> CHR ''/'') ?r")
    case Nil
    then have "CHR ''/'' \<notin> set p" by (auto simp: dropWhile_eq_Nil_conv)
    with Nil show thesis by (intro that(1)) (simp_all add: upto_slash_def)
  next
    case (Cons c cs)
    then have c: "c = CHR ''/''" using hd_dropWhile [of "\<lambda>c. c \<noteq> CHR ''/''" ?r] by simp
    let ?b = "rev (takeWhile (\<lambda>c. c \<noteq> CHR ''/'') ?r)"
    have "rev ?r = rev (dropWhile (\<lambda>c. c \<noteq> CHR ''/'') ?r) @ ?b" by (metis r rev_append)
    then have "p = rev cs @ ''/'' @ ?b" using Cons c by simp
    moreover have "upto_slash p = rev cs @ ''/''" using Cons c by (simp add: upto_slash_def)
    moreover have "CHR ''/'' \<notin> set ?b" by (auto dest: set_takeWhileD)
    ultimately show thesis by (rule that(2))
  qed
qed

lemma Clean_Nil [simp]: "Clean [] = ''.''"
  by (simp add: Clean_def path_elems_def render_def clean_elems_def clean_step_def)

lemma Clean_slash [simp]: "Clean ''/'' = ''/''"
  by (simp add: Clean_def path_elems_def render_def clean_elems_def clean_step_def)

lemma Dir_up_measure: "Dir p = p \<or> up_measure (Dir p) < up_measure p"
proof (cases p rule: upto_slash_cases)
  case 1
  then show ?thesis by (auto simp: Dir_def up_measure_def)
next
  case (2 d b)
  show ?thesis
  proof (cases "d = []")
    case True
    with 2 have "Dir p = ''/''" by (simp add: Dir_def)
    with 2 True show ?thesis by (cases b) (auto simp: up_measure_def)
  next
    case False
    have "length (Dir p) < length p"
      using length_Clean_slash_end [OF False] 2 by (simp add: Dir_def)
    moreover have "p \<noteq> ''.''" "p \<noteq> ''/''" using 2 False by (auto simp: append_eq_Cons_conv)
    ultimately show ?thesis by (auto simp: up_measure_def)
  qed
qed

lemma Dir_length_le: "p \<noteq> [] \<Longrightarrow> length (Dir p) \<le> length p"
proof (cases p rule: upto_slash_cases)
  case 1
  assume "p \<noteq> []"
  with 1 show ?thesis by (cases p) (auto simp: Dir_def)
next
  case (2 d b)
  then show ?thesis using length_Clean [of "d @ ''/''"] by (simp add: Dir_def)
qed

section \<open>Join\<close>

lemma Join_two:
  "d \<noteq> [] \<Longrightarrow> Join [d, n] = Clean (d @ ''/'' @ n)"
  by (simp add: Join_def)

lemma foldl_clean_elems_restart:
  "normal_elems rooted es \<Longrightarrow> foldl (clean_step rooted) [] es = rev es"
  using clean_elems_normal [of rooted es] by (simp add: clean_elems_def rev_swap)

lemma path_elems_slash:
  assumes "d \<noteq> []"
  shows "path_elems (d @ CHR ''/'' # n) =
     rev (foldl (clean_step (IsAbs d)) (rev (path_elems d)) (StrSplit n CHR ''/''))"
proof -
  have "IsAbs (d @ CHR ''/'' # n) = IsAbs d" using assms by (cases d) (auto simp: IsAbs_def)
  then show ?thesis
    by (simp add: path_elems_def clean_elems_def StrSplit_append_sep)
qed

text \<open>Joining a plain name appends one element.\<close>

lemma path_elems_Join_plain:
  assumes "d \<noteq> []" "plain_elem n" "n \<noteq> ''..''"
  shows "path_elems (Join [d, n]) = path_elems d @ [n]"
  using assms
  by (simp add: Join_two path_elems_slash StrSplit_single plain_elem_def clean_step_def)

lemma IsAbs_Join [simp]: "d \<noteq> [] \<Longrightarrow> IsAbs (Join [d, n]) = IsAbs d"
  by (cases d) (auto simp: Join_two IsAbs_def [of "_ # _"])

lemma IsAbs_Dir: "IsAbs p \<Longrightarrow> IsAbs (Dir p)"
proof (cases p rule: upto_slash_cases)
  case 1
  assume "IsAbs p"
  with 1 show ?thesis by (cases p) (auto simp: IsAbs_def)
next
  case (2 d b)
  assume "IsAbs p"
  with 2 show ?thesis by (cases d) (auto simp: Dir_def IsAbs_def [of "_ # _"])
qed

text \<open>\<open>under d p\<close>: the cleaned path \<open>p\<close> lies in the tree of directory \<open>d\<close>.\<close>

definition under :: "string \<Rightarrow> string \<Rightarrow> bool" where
  "under d p = (IsAbs d = IsAbs p \<and> prefix (path_elems d) (path_elems p))"

lemma under_refl [simp]: "under d d"
  by (simp add: under_def)

lemma under_trans: "under d p \<Longrightarrow> under p q \<Longrightarrow> under d q"
  by (auto simp: under_def)

lemma foldl_clean_no_dotdot:
  "''..'' \<notin> set es \<Longrightarrow> \<exists>ys. foldl (clean_step rooted) st es = ys @ st"
proof (induction es arbitrary: st)
  case Nil
  then show ?case by simp
next
  case (Cons e es)
  show ?case
    using Cons.IH [of "clean_step rooted st e"] Cons.prems
    by (auto simp: clean_step_def split: if_splits)
qed

text \<open>A relative path without parent elements stays below the directory it is joined to.\<close>

lemma under_Join:
  assumes "d \<noteq> []" and "''..'' \<notin> set (StrSplit n CHR ''/'')"
  shows "under d (Join [d, n])"
proof -
  from foldl_clean_no_dotdot [OF assms(2)] obtain ys where
    "foldl (clean_step (IsAbs d)) (rev (path_elems d)) (StrSplit n CHR ''/'') = ys @ rev (path_elems d)"
    by blast
  then have "path_elems (Join [d, n]) = path_elems d @ rev ys"
    using assms(1) by (simp add: Join_two path_elems_slash)
  with assms(1) show ?thesis by (simp add: under_def)
qed

end
