(* ===== verification/Refs.thy ===== *)
theory Refs
  imports Prelude "HOL-Library.Word"
begin

text \<open>
  The shared vocabulary of the program: the reference-name and configuration macros of
  config/config.go, the classification of revisions of common/refs.go, code reviews of
  config/code-review.go, and the size parser of the log rotation setting.
\<close>

section \<open>Macros (config/config.go)\<close>

definition RefsHeads :: string where "RefsHeads = ''refs/heads/''"
definition RefsTags :: string where "RefsTags = ''refs/tags/''"
definition RefsPub :: string where "RefsPub = ''refs/published/''"
definition RefsPrefix :: string where "RefsPrefix = ''refs/''"
definition RefsRemotes :: string where "RefsRemotes = ''refs/remotes/''"

definition DotRepo :: string where "DotRepo = ''.repo''"
definition ManifestsDotGit :: string where "ManifestsDotGit = ''manifests.git''"
definition Manifests :: string where "Manifests = ''manifests''"
definition DefaultXML :: string where "DefaultXML = ''default.xml''"
definition ManifestXML :: string where "ManifestXML = ''manifest.xml''"
definition LocalManifestXML :: string where "LocalManifestXML = ''local_manifest.xml''"
definition LocalManifests :: string where "LocalManifests = ''local_manifests''"
definition ProjectObjects :: string where "ProjectObjects = ''project-objects''"
definition ProjectsDir :: string where "ProjectsDir = ''projects''"

definition CfgRepoArchive :: string where "CfgRepoArchive = ''repo.archive''"
definition CfgRepoDepth :: string where "CfgRepoDepth = ''repo.depth''"
definition CfgRepoDissociate :: string where "CfgRepoDissociate = ''repo.dissociate''"
definition CfgRepoMirror :: string where "CfgRepoMirror = ''repo.mirror''"
definition CfgRepoReference :: string where "CfgRepoReference = ''repo.reference''"
definition CfgRepoSubmodules :: string where "CfgRepoSubmodules = ''repo.submodules''"
definition CfgManifestGroups :: string where "CfgManifestGroups = ''manifest.groups''"
definition CfgManifestName :: string where "CfgManifestName = ''manifest.name''"
definition CfgRemoteOriginURL :: string where "CfgRemoteOriginURL = ''remote.origin.url''"

lemmas refs_defs = RefsHeads_def RefsTags_def RefsPub_def RefsPrefix_def RefsRemotes_def

lemmas cfg_key_defs =
  CfgRepoArchive_def CfgRepoDepth_def CfgRepoDissociate_def CfgRepoMirror_def
  CfgRepoReference_def CfgRepoSubmodules_def CfgManifestGroups_def CfgManifestName_def
  CfgRemoteOriginURL_def

section \<open>Kinds of revision (common/refs.go)\<close>

definition isLowerHex :: "char \<Rightarrow> bool" where
  "isLowerHex c = (isDigit c \<or> c \<in> set ''abcdef'')"

text \<open>\<open>CommitIDPattern\<close> is 40 lower-case hexadecimal digits, optionally 24 more.\<close>

definition IsSha :: "string \<Rightarrow> bool" where
  "IsSha revision =
     ((length revision = 40 \<or> length revision = 64) \<and> list_all isLowerHex revision)"

definition IsTag :: "string \<Rightarrow> bool" where
  "IsTag revision = HasPrefix revision RefsTags"

definition IsHead :: "string \<Rightarrow> bool" where
  "IsHead revision = HasPrefix revision RefsHeads"

definition IsRef :: "string \<Rightarrow> bool" where
  "IsRef revision = HasPrefix revision ''refs/''"

definition IsImmutable :: "string \<Rightarrow> bool" where
  "IsImmutable revision =
     (if IsSha revision \<or> IsTag revision then True
      else if IsHead revision then False
      else if HasPrefix revision ''refs/'' then True
      else False)"

definition IsASCII :: "string \<Rightarrow> bool" where
  "IsASCII s = list_all (\<lambda>c. (of_char c :: nat) \<le> 127) s"

text \<open>A commit id is never a reference name: it has no slash.\<close>

lemma IsSha_no_slash: "IsSha r \<Longrightarrow> CHR ''/'' \<notin> set r"
  by (auto simp: IsSha_def list_all_iff isLowerHex_def isDigit_def)

lemma IsSha_not_IsRef: "IsSha r \<Longrightarrow> \<not> IsRef r"
  using IsSha_no_slash [of r] by (auto simp: IsRef_def HasPrefix_iff)

lemma IsHead_IsRef: "IsHead r \<Longrightarrow> IsRef r"
  by (auto simp: IsHead_def IsRef_def HasPrefix_iff RefsHeads_def)

lemma IsTag_IsRef: "IsTag r \<Longrightarrow> IsRef r"
  by (auto simp: IsTag_def IsRef_def HasPrefix_iff RefsTags_def)

lemma IsHead_not_IsTag: "IsHead r \<Longrightarrow> \<not> IsTag r"
  by (auto simp: IsHead_def IsTag_def HasPrefix_iff RefsHeads_def RefsTags_def)

text \<open>What the code calls immutable, in one formula: a commit id, or a reference that is not
  a branch.\<close>

lemma IsImmutable_iff: "IsImmutable r \<longleftrightarrow> IsSha r \<or> (IsRef r \<and> \<not> IsHead r)"
  using IsHead_not_IsTag [of r] IsTag_IsRef [of r] IsSha_not_IsRef [of r] IsHead_IsRef [of r]
  by (auto simp: IsImmutable_def IsRef_def)

section \<open>Code reviews (config/code-review.go)\<close>

record CodeReview =
  cr_ID :: string
  cr_Ref :: string

definition CodeReview_Empty :: "CodeReview \<Rightarrow> bool" where
  "CodeReview_Empty v = (cr_ID v = [] \<or> cr_Ref v = [])"

section \<open>Log rotation size (config/config.go)\<close>

text \<open>
  \<open>GetLogRotateSize\<close> over the value of the \<^verbatim>\<open>logrotate\<close> setting: a decimal number with an
  optional k, m or g scale and an optional trailing b, in any case. The scaling is a left
  shift of a 64-bit integer, so it wraps.
\<close>

definition GetLogRotateSize :: "string \<Rightarrow> 64 word" where
  "GetLogRotateSize setting =
     (let logrotate = ToLower setting in
      if logrotate = [] then 0
      else let logrotate = (if last logrotate = CHR ''b'' then butlast logrotate else logrotate) in
      if logrotate = [] then 0
      else let scale = last logrotate;
               logrotate = (if scale \<in> {CHR ''k'', CHR ''m'', CHR ''g''}
                            then butlast logrotate else logrotate)
      in case Atoi logrotate of
           None \<Rightarrow> 0
         | Some sz \<Rightarrow>
             (let n = word_of_int sz in
              if scale = CHR ''k'' then push_bit 10 n
              else if scale = CHR ''m'' then push_bit 20 n
              else if scale = CHR ''g'' then push_bit 30 n
              else n))"

definition scale_bits :: "char \<Rightarrow> nat" where
  "scale_bits c = (if c = CHR ''k'' then 10 else if c = CHR ''m'' then 20
                   else if c = CHR ''g'' then 30 else 0)"

lemma lower_char_digit [simp]: "isDigit c \<Longrightarrow> lower_char c = c"
  by (auto simp: lower_char_def isDigit_def Let_def)

lemma ToLower_digits [simp]: "list_all isDigit ds \<Longrightarrow> ToLower ds = ds"
  by (induction ds) (auto simp: ToLower_def)

lemma digits_of_all: "list_all isDigit (digits_of n)"
  by (auto simp: list_all_iff digits_of_isDigit)

lemma Atoi_digits_of: "int n \<le> maxInt \<Longrightarrow> Atoi (digits_of n) = Some (int n)"
  using Atoi_Itoa [of "int n"] by (simp add: Itoa_def minInt_def)

lemma sint_word_of_int_small:
  "- (2 ^ 63) \<le> i \<Longrightarrow> i < 2 ^ 63 \<Longrightarrow> sint (word_of_int i :: 64 word) = i"
  by (simp add: int_word_sint)

lemma GetLogRotateSize_scaled:
  assumes "int n \<le> maxInt" and "c \<in> {CHR ''k'', CHR ''m'', CHR ''g''}"
  shows "GetLogRotateSize (digits_of n @ [c]) = word_of_int (int n * 2 ^ scale_bits c)"
proof -
  have "ToLower (digits_of n @ [c]) = digits_of n @ [c]"
    using assms(2) digits_of_all [of n] ToLower_digits [of "digits_of n"]
    by (auto simp: ToLower_def lower_char_def)
  with assms show ?thesis
    by (auto simp: GetLogRotateSize_def Let_def Atoi_digits_of scale_bits_def
        push_bit_eq_mult)
qed

text \<open>
  Property C25. The size of the log is computed in 64 bits. A number with a scale is read as the
  scaled number as long as that fits into a signed 64-bit integer; beyond that the result is the
  remainder in the signed range, so a setting as \<open>8589934592g\<close> is read as a negative size.
\<close>

theorem GetLogRotateSize_bounds:
  assumes "int n \<le> maxInt" and "c \<in> {CHR ''k'', CHR ''m'', CHR ''g''}"
  shows "(int n * 2 ^ scale_bits c < 2 ^ 63 \<longrightarrow> sint (GetLogRotateSize (digits_of n @ [c])) = int n * 2 ^ scale_bits c) \<and>
    sint (GetLogRotateSize (digits_of n @ [c])) = (int n * 2 ^ scale_bits c + 2 ^ 63) mod 2 ^ 64 - 2 ^ 63"
proof (intro conjI impI)
  show "sint (GetLogRotateSize (digits_of n @ [c])) = int n * 2 ^ scale_bits c" if "int n * 2 ^ scale_bits c < 2 ^ 63"
  proof -
    have "- (2 ^ 63) \<le> (0 :: int)" and "0 \<le> int n * 2 ^ scale_bits c" by simp_all
    then have "- (2 ^ 63) \<le> int n * 2 ^ scale_bits c" by (rule order_trans)
    with that show ?thesis unfolding GetLogRotateSize_scaled [OF assms] by (intro sint_word_of_int_small)
  qed
  show "sint (GetLogRotateSize (digits_of n @ [c])) = (int n * 2 ^ scale_bits c + 2 ^ 63) mod 2 ^ 64 - 2 ^ 63"
    unfolding GetLogRotateSize_scaled [OF assms] int_word_sint by simp
qed

theorem GetLogRotateSize_bounds_witness:
  "sint (GetLogRotateSize (digits_of 20 @ ''m'')) = 20971520 \<and> sint (GetLogRotateSize (digits_of 8589934592 @ ''g'')) = - (2 ^ 63)"
  using GetLogRotateSize_bounds [of 20 "CHR ''m''"] GetLogRotateSize_bounds [of 8589934592 "CHR ''g''"]
  by (simp add: maxInt_def scale_bits_def)

end
