(* ===== verification/Git_URL.thy ===== *)
theory Git_URL
  imports Go_Regexp Go_Filepath Refs
begin

text \<open>
  Git addresses: config/git-url.go (the five address patterns, \<open>ParseGitURL\<close>, the printers
  \<open>String\<close>, \<open>UserHost\<close> and \<open>GetRootURL\<close>) and common/url.go (\<open>URLJoin\<close>, which resolves a
  manifest's \<^verbatim>\<open>fetch\<close> attribute and a project name against the manifest URL).
\<close>

section \<open>Data and patterns\<close>

record GitURL =
  Proto :: string
  User :: string
  Host :: string
  Port :: int
  Repo :: string

abbreviation re_user :: regexp where
  "re_user \<equiv> ROpt (RSeq (RGrp ''user'' (RStar False any_char)) (RLit ''@''))"

abbreviation re_port :: regexp where
  "re_port \<equiv> ROpt (RSeq (RLit '':'') (RGrp ''port'' (RPlus True isDigit)))"

abbreviation re_dotgit :: regexp where
  "re_dotgit \<equiv> ROpt (RLit ''.git'')"

abbreviation re_slash :: regexp where
  "re_slash \<equiv> ROpt (RLit ''/'')"

abbreviation re_host :: regexp where
  "re_host \<equiv> RGrp ''host'' (RPlus False (none_of ''/''))"

abbreviation re_repo :: regexp where
  "re_repo \<equiv> RGrp ''repo'' (RStar False any_char)"

definition GitHTTPProtocolPattern :: regexp where
  "GitHTTPProtocolPattern =
     RSeq (RGrp ''proto'' (RAlt (RLit ''http'') (RLit ''https''))) (RSeq (RLit ''://'')
     (RSeq re_user (RSeq re_host (RSeq re_port
       (ROpt (RSeq (RLit ''/'') (RSeq re_repo (RSeq re_dotgit re_slash))))))))"

definition GitSSHProtocolPattern :: regexp where
  "GitSSHProtocolPattern =
     RSeq (RGrp ''proto'' (RLit ''ssh'')) (RSeq (RLit ''://'')
     (RSeq re_user (RSeq re_host (RSeq re_port (RSeq
       (ROpt (RSeq (RLit ''/'') (RSeq (RGrp ''repo'' (RPlus False any_char)) re_dotgit)))
       re_slash)))))"

definition GitSCPProtocolPattern :: regexp where
  "GitSCPProtocolPattern =
     RSeq re_user (RSeq (RGrp ''host'' (RPlus False (none_of ''/:'')))
       (RSeq (RLit '':'') (RSeq re_repo (RSeq re_dotgit re_slash))))"

definition GitDaemonProtocolPattern :: regexp where
  "GitDaemonProtocolPattern =
     RSeq (RGrp ''proto'' (RLit ''git'')) (RSeq (RLit ''://'')
     (RSeq re_host (RSeq re_port
       (ROpt (RSeq (RLit ''/'') (RSeq re_repo (RSeq re_dotgit re_slash)))))))"

definition GitFileProtocolPattern :: regexp where
  "GitFileProtocolPattern =
     RSeq (ROpt (RSeq (RGrp ''proto'' (RLit ''file'')) (RLit ''://'')))
       (ROpt (RSeq (RLit ''/'') (RSeq re_repo re_slash)))"

section \<open>Printing\<close>

definition UserHost :: "GitURL \<Rightarrow> string" where
  "UserHost v = (if User v = [] then Host v else User v @ ''@'' @ Host v)"

text \<open>The review-host table of the package's \<open>init\<close> function.\<close>

definition mapReviewHosts :: "string \<rightharpoonup> string" where
  "mapReviewHosts = [''gitlab.alibaba-inc.com'' \<mapsto> ''https://code.aone.alibaba-inc.com'']"

definition GetRootURL :: "GitURL \<Rightarrow> string" where
  "GetRootURL v =
     (case mapReviewHosts (Host v) of Some u \<Rightarrow> u
      | None \<Rightarrow>
        if Proto v = ''http'' \<or> Proto v = ''https'' then
          Proto v @ ''://'' @ Host v @
          (if Port v > 0 \<and> Port v \<noteq> 80 \<and> Port v \<noteq> 443 then '':'' @ Itoa (Port v) else [])
        else if Proto v = ''ssh'' then
          Proto v @ ''://'' @ (if User v \<noteq> [] then User v @ ''@'' else []) @ Host v @
          (if Port v > 0 \<and> Port v \<noteq> 22 then '':'' @ Itoa (Port v) else [])
        else if Proto v = ''git'' then Host v
        else if Proto v = ''file'' \<or> Proto v = ''local'' then []
        else Host v)"

definition GitURL_String :: "GitURL \<Rightarrow> string" where
  "GitURL_String v =
     (if Proto v \<in> {''http'', ''https'', ''ssh'', ''git''} then
        Proto v @ ''://'' @ (if User v \<noteq> [] then User v @ ''@'' else []) @ Host v @
        (if Port v > 0 \<and> Port v \<noteq> 80 \<and> Port v \<noteq> 443 \<and> Port v \<noteq> 22
         then '':'' @ Itoa (Port v) else []) @ ''/''
      else if Proto v = ''file'' then Proto v @ '':///''
      else []) @
     (if HasPrefix (Repo v) ''/'' \<and> Proto v \<noteq> ''local'' then drop 1 (Repo v) else Repo v)"

definition IsSSH :: "GitURL \<Rightarrow> bool" where "IsSSH v = (Proto v = ''ssh'')"
definition IsHTTP :: "GitURL \<Rightarrow> bool" where "IsHTTP v = (Proto v = ''http'' \<or> Proto v = ''https'')"
definition IsLocal :: "GitURL \<Rightarrow> bool" where "IsLocal v = (Proto v = ''local'')"

section \<open>Parsing\<close>

text \<open>
  Each pattern has every group at most once, so reading the groups by name is reading the
  submatches by index; a port that does not fit an \<^verbatim>\<open>int\<close> (or is absent) leaves 0.
\<close>

definition getMatchedGitURL :: "regexp \<Rightarrow> string \<Rightarrow> GitURL option" where
  "getMatchedGitURL re d =
     (case FindSubmatch re d of None \<Rightarrow> None
      | Some m \<Rightarrow> Some \<lparr>Proto = capture m ''proto'', User = capture m ''user'',
                        Host = capture m ''host'',
                        Port = (case Atoi (capture m ''port'') of None \<Rightarrow> 0 | Some p \<Rightarrow> p),
                        Repo = capture m ''repo''\<rparr>)"

definition ParseGitURL :: "string \<Rightarrow> GitURL option" where
  "ParseGitURL address =
     (case getMatchedGitURL GitHTTPProtocolPattern address of Some u \<Rightarrow> Some u | None \<Rightarrow>
     (case getMatchedGitURL GitSSHProtocolPattern address of Some u \<Rightarrow> Some u | None \<Rightarrow>
     (case getMatchedGitURL GitDaemonProtocolPattern address of Some u \<Rightarrow> Some u | None \<Rightarrow>
     (case getMatchedGitURL GitFileProtocolPattern address of
        Some u \<Rightarrow> Some (if Proto u = [] then u\<lparr>Proto := ''file''\<rparr> else u)
      | None \<Rightarrow>
        if StrContains address ''://'' then None
        else (case getMatchedGitURL GitSCPProtocolPattern address of
          Some u \<Rightarrow> Some (if Proto u = [] then u\<lparr>Proto := ''ssh''\<rparr> else u)
        | None \<Rightarrow>
          if IsAbs address
          then Some \<lparr>Proto = ''local'', User = [], Host = [], Port = 0, Repo = address\<rparr>
          else None)))))"

section \<open>Joining (common/url.go)\<close>

definition joinTwoURL :: "string \<Rightarrow> string \<Rightarrow> string result" where
  "joinTwoURL l r =
     (let lURL = ParseGitURL l; rURL = ParseGitURL r in
      if rURL \<noteq> None then Inr r
      else case lURL of None \<Rightarrow> Inl (Error (''fail to parse URL: '' @ l))
      | Some u \<Rightarrow>
        if Repo u = [] then Inr (GitURL_String (u\<lparr>Repo := r\<rparr>))
        else let lPath = (if IsAbs (Repo u) then Repo u else ''/'' @ Repo u);
                 lPath = Clean (Join [lPath, r]);
                 lPath = (if \<not> IsLocal u \<and> lPath \<noteq> [] \<and> hd lPath = CHR ''/''
                          then tl lPath else lPath)
             in Inr (GitURL_String (u\<lparr>Repo := lPath\<rparr>)))"

definition dropLastPart :: "string \<Rightarrow> string" where
  "dropLastPart u =
     (let u = (if u \<noteq> [] \<and> last u = CHR ''/'' then butlast u else u) in
      if CHR ''/'' \<in> set u \<and> length (upto_slash u) > 1 then butlast (upto_slash u) else u)"

definition URLJoin :: "string \<Rightarrow> string list \<Rightarrow> string result" where
  "URLJoin u paths = foldM_result joinTwoURL (dropLastPart u) paths"

section \<open>Stages of the address patterns\<close>

abbreviation at_end :: "string \<Rightarrow> captures \<Rightarrow> captures option" where
  "at_end \<equiv> \<lambda>s c. if s = [] then Some c else None"

definition plain_repo :: "string \<Rightarrow> bool" where
  "plain_repo r = (list_all any_char r \<and> CHR ''@'' \<notin> set r \<and> r \<noteq> [] \<and>
     \<not> HasPrefix r ''/'' \<and> \<not> HasSuffix r ''/'' \<and> \<not> HasSuffix r ''.git'')"

definition plain_host :: "string \<Rightarrow> bool" where
  "plain_host h = (h \<noteq> [] \<and> list_all (none_of ''/:@'') h)"

definition plain_user :: "string \<Rightarrow> bool" where
  "plain_user w = (list_all any_char w \<and> CHR ''@'' \<notin> set w)"

lemma repo_tail_match:
  "rmatch (RSeq re_dotgit re_slash) s c at_end =
     (if s \<in> {[], ''.git'', ''/'', ''.git/''} then Some c else None)"
proof (cases "HasPrefix s ''.git''")
  case True
  then obtain t where "s = ''.git'' @ t" by (auto simp: HasPrefix_iff)
  then show ?thesis by (cases t) (auto simp: HasPrefix_def TrimPrefix_def)
next
  case False
  then show ?thesis by (cases s) (auto simp: HasPrefix_def TrimPrefix_def)
qed

lemma plain_repo_suffix:
  assumes "plain_repo r" and "r = u1 @ u2" and "u2 \<noteq> []"
  shows "u2 \<notin> {[], ''.git'', ''/'', ''.git/''}"
  using assms by (auto simp: plain_repo_def HasSuffix_iff)

lemma repo_lazy_match:
  assumes "plain_repo r"
  shows "lazy_star any_char r
     (\<lambda>s'. rmatch (RSeq re_dotgit re_slash) s' ((n, take (length r - length s') r) # c) at_end)
     = Some ((n, r) # c)"
proof -
  have "lazy_star any_char (r @ [])
     (\<lambda>s'. rmatch (RSeq re_dotgit re_slash) s' ((n, take (length r - length s') r) # c) at_end)
     = Some ((n, r) # c)"
  proof (rule lazy_star_Some)
    show "list_all any_char r" using assms by (simp add: plain_repo_def)
    fix u1 u2 assume "r = u1 @ u2" "u2 \<noteq> []"
    then show "rmatch (RSeq re_dotgit re_slash) (u2 @ [])
        ((n, take (length r - length (u2 @ [])) r) # c) at_end = None"
      using plain_repo_suffix [OF assms] by (subst repo_tail_match) auto
  qed (simp add: repo_tail_match del: rmatch.simps)
  then show ?thesis by simp
qed

lemma opt_slash_lit:
  "rmatch (ROpt (RSeq (RLit ''/'') r)) (CHR ''/'' # s) c k =
     or_else (rmatch r s c k) (k (CHR ''/'' # s) c)"
  by (simp add: HasPrefix_def TrimPrefix_def)

text \<open>The optional repository part of the http pattern.\<close>

lemma http_repo_part:
  assumes "plain_repo r"
  shows "rmatch (ROpt (RSeq (RLit ''/'') (RSeq re_repo (RSeq re_dotgit re_slash))))
     (CHR ''/'' # r) c at_end = Some ((''repo'', r) # c)"
proof -
  have "rmatch (RSeq re_repo (RSeq re_dotgit re_slash)) r c at_end = Some ((''repo'', r) # c)"
    using repo_lazy_match [OF assms, of "''repo''" c]
    by (simp only: rmatch.simps class_star_def if_False)
  then show ?thesis by (simp only: opt_slash_lit or_else.simps)
qed

lemma repo_part_skip:
  "s \<noteq> [] \<Longrightarrow> hd s \<noteq> CHR ''/'' \<Longrightarrow> rmatch (ROpt (RSeq (RLit ''/'') r)) s c k = k s c"
  by (cases s) (auto simp: HasPrefix_def)

lemma port_skip: "s = [] \<or> hd s \<noteq> CHR '':'' \<Longrightarrow> rmatch re_port s c k = k s c"
  by (cases s) (auto simp: HasPrefix_def)

lemma port_take:
  assumes "ds \<noteq> []" "list_all isDigit ds" "rest = [] \<or> \<not> isDigit (hd rest)"
    and "k rest ((''port'', ds) # c) = Some x"
  shows "rmatch re_port (CHR '':'' # ds @ rest) c k = Some x"
proof -
  have "class_plus True isDigit (ds @ rest)
     (\<lambda>s'. k s' ((''port'', take (length (ds @ rest) - length s') (ds @ rest)) # c)) = Some x"
    by (rule greedy_plus_max) (use assms in auto)
  then show ?thesis by (simp add: HasPrefix_def TrimPrefix_def)
qed

lemma user_skip:
  assumes "CHR ''@'' \<notin> set s"
  shows "rmatch re_user s c k = k s c"
proof -
  have "lazy_star any_char s
     (\<lambda>s'. if HasPrefix s' ''@''
           then k (TrimPrefix s' ''@'') ((''user'', take (length s - length s') s) # c) else None) = None"
    unfolding lazy_star_None using assms by (auto simp: HasPrefix_iff)
  then show ?thesis by (simp add: class_star_def)
qed

lemma user_take:
  assumes "plain_user w" and "k rest ((''user'', w) # c) = Some x"
  shows "rmatch re_user (w @ CHR ''@'' # rest) c k = Some x"
proof -
  let ?s = "w @ CHR ''@'' # rest"
  have "lazy_star any_char (w @ (CHR ''@'' # rest))
     (\<lambda>s'. if HasPrefix s' ''@''
           then k (TrimPrefix s' ''@'') ((''user'', take (length ?s - length s') ?s) # c) else None)
     = Some x"
  proof (rule lazy_star_Some)
    fix u1 u2 assume "w = u1 @ u2" "u2 \<noteq> []"
    with assms(1) have "hd u2 \<noteq> CHR ''@''" by (cases u2) (auto simp: plain_user_def)
    with \<open>u2 \<noteq> []\<close> show "(if HasPrefix (u2 @ CHR ''@'' # rest) ''@'' then k (TrimPrefix (u2 @ CHR ''@'' # rest) ''@'')
       ((''user'', take (length ?s - length (u2 @ CHR ''@'' # rest)) ?s) # c) else None) = None"
      by (cases u2) (auto simp: HasPrefix_def)
  qed (use assms in \<open>auto simp: plain_user_def HasPrefix_def TrimPrefix_def\<close>)
  then show ?thesis by (simp only: rmatch.simps class_star_def if_False or_else.simps)
qed

text \<open>The host takes everything up to what follows it, when the continuation refuses to start
  inside the host.\<close>

lemma host_take:
  assumes "plain_host h" and "k rest ((''host'', h) # c) = Some x"
    and "\<And>s c. s \<noteq> [] \<Longrightarrow> hd s \<noteq> CHR ''/'' \<Longrightarrow> hd s \<noteq> CHR '':'' \<Longrightarrow> k s c = None"
  shows "rmatch re_host (h @ rest) c k = Some x"
proof -
  let ?s = "h @ rest"
  have "class_plus False (none_of ''/'') (h @ rest)
     (\<lambda>s'. k s' ((''host'', take (length ?s - length s') ?s) # c)) = Some x"
  proof (rule lazy_plus_Some)
    show "h \<noteq> []" "list_all (none_of ''/'') h"
      using assms(1) by (auto simp: plain_host_def list_all_iff none_of_def)
    fix u1 u2 assume "h = u1 @ u2" "u2 \<noteq> []"
    with assms(1) have "hd (u2 @ rest) \<noteq> CHR ''/''" "hd (u2 @ rest) \<noteq> CHR '':''"
      by (cases u2; auto simp: plain_host_def none_of_def)+
    with \<open>u2 \<noteq> []\<close> assms(3) show "k (u2 @ rest)
       ((''host'', take (length ?s - length (u2 @ rest)) ?s) # c) = None" by simp
  qed (use assms in simp)
  then show ?thesis by simp
qed

section \<open>Round trip of the parser and the printer\<close>

text \<open>A printed port survives unless it is one of the default ports, which are not printed.\<close>

definition shown_port :: "int \<Rightarrow> bool" where
  "shown_port p = (p > 0 \<and> p \<noteq> 80 \<and> p \<noteq> 443 \<and> p \<noteq> 22)"

definition port_part :: "int \<Rightarrow> string" where
  "port_part p = (if shown_port p then '':'' @ Itoa p else [])"

definition user_part :: "string \<Rightarrow> string" where
  "user_part w = (if w \<noteq> [] then w @ ''@'' else [])"

definition plain_url :: "GitURL \<Rightarrow> bool" where
  "plain_url u = (Proto u \<in> {''http'', ''https'', ''ssh''} \<and> plain_user (User u) \<and>
     plain_host (Host u) \<and> plain_repo (Repo u) \<and> Port u \<le> maxInt)"

definition port_caps :: "int \<Rightarrow> captures" where
  "port_caps p = (if shown_port p then [(''port'', Itoa p)] else [])"

definition user_caps :: "string \<Rightarrow> captures" where
  "user_caps w = (if w \<noteq> [] then [(''user'', w)] else [])"

lemma plain_url_String:
  "plain_url u \<Longrightarrow> GitURL_String u =
     Proto u @ ''://'' @ user_part (User u) @ Host u @ port_part (Port u) @ CHR ''/'' # Repo u"
  by (auto simp: plain_url_def plain_repo_def GitURL_String_def port_part_def user_part_def
      shown_port_def)

lemma Itoa_digits: "0 < p \<Longrightarrow> Itoa p \<noteq> [] \<and> list_all isDigit (Itoa p)"
  by (simp add: Itoa_def digits_of_all)

lemma not_isDigit_punct [simp]: "\<not> isDigit CHR ''/''" "\<not> isDigit CHR ''@''"
  by (simp_all add: isDigit_def)

lemma port_stage:
  assumes "k (CHR ''/'' # r) (port_caps p @ c) = Some x"
  shows "rmatch re_port (port_part p @ CHR ''/'' # r) c k = Some x"
proof (cases "shown_port p")
  case True
  then have "0 < p" by (simp add: shown_port_def)
  then have "rmatch re_port (CHR '':'' # Itoa p @ CHR ''/'' # r) c k = Some x"
    using assms True Itoa_digits [of p] by (intro port_take) (auto simp: port_caps_def)
  with True show ?thesis by (simp add: port_part_def)
next
  case False
  then show ?thesis
    using assms port_skip [of "CHR ''/'' # r" c k] by (simp add: port_part_def port_caps_def)
qed

lemma no_at_part:
  "plain_host h \<Longrightarrow> plain_repo r \<Longrightarrow> CHR ''@'' \<notin> set (h @ port_part p @ CHR ''/'' # r)"
proof -
  assume "plain_host h" "plain_repo r"
  moreover have "CHR ''@'' \<notin> set (port_part p)"
    using Itoa_digits [of p] not_isDigit_punct(2)
    by (auto simp: port_part_def shown_port_def list_all_iff simp del: not_isDigit_punct)
  ultimately show ?thesis
    by (auto simp: plain_host_def plain_repo_def list_all_iff none_of_def)
qed

lemma user_stage:
  assumes "plain_user w" and "CHR ''@'' \<notin> set rest" and "k rest (user_caps w @ c) = Some x"
  shows "rmatch re_user (user_part w @ rest) c k = Some x"
  using assms user_take [of w k rest c x] user_skip [of rest c k]
  by (auto simp: user_part_def user_caps_def simp del: rmatch.simps)

definition url_caps :: "GitURL \<Rightarrow> captures" where
  "url_caps u = (''repo'', Repo u) # port_caps (Port u) @
     (''host'', Host u) # user_caps (User u) @ [(''proto'', Proto u)]"

lemma authority_stage:
  assumes "plain_user w" "plain_host h" "plain_repo r"
    and "k (CHR ''/'' # r) (port_caps p @ (''host'', h) # user_caps w @ c) = Some x"
    and "\<And>s c. s \<noteq> [] \<Longrightarrow> hd s \<noteq> CHR ''/'' \<Longrightarrow> hd s \<noteq> CHR '':'' \<Longrightarrow> k s c = None"
  shows "rmatch (RSeq re_user (RSeq re_host re_port))
     (user_part w @ h @ port_part p @ CHR ''/'' # r) c k = Some x"
proof -
  have "rmatch re_host (h @ port_part p @ CHR ''/'' # r) (user_caps w @ c)
      (\<lambda>s' c'. rmatch re_port s' c' k) = Some x"
  proof (rule host_take [OF assms(2)])
    show "rmatch re_port (port_part p @ CHR ''/'' # r) ((''host'', h) # user_caps w @ c) k = Some x"
      by (rule port_stage) (use assms(4) in simp)
    show "rmatch re_port s c k = None"
      if "s \<noteq> []" "hd s \<noteq> CHR ''/''" "hd s \<noteq> CHR '':''" for s c
      using that assms(5) by (simp only: port_skip simp_thms)
  qed
  then have "rmatch re_user (user_part w @ h @ port_part p @ CHR ''/'' # r) c
      (\<lambda>s' c'. rmatch (RSeq re_host re_port) s' c' k) = Some x"
    using assms(1) no_at_part [OF assms(2,3)]
    by (intro user_stage) (simp_all only: rmatch.simps(4) simp_thms)
  then show ?thesis by (simp only: rmatch.simps(4))
qed

lemma rmatch_assoc3:
  "rmatch (RSeq (RSeq a (RSeq b d)) e) s c k = rmatch (RSeq a (RSeq b (RSeq d e))) s c k"
  by simp

lemma capture_url_caps:
  assumes "Port u \<le> maxInt"
  shows "capture (url_caps u) ''proto'' = Proto u" "capture (url_caps u) ''user'' = User u"
    "capture (url_caps u) ''host'' = Host u" "capture (url_caps u) ''repo'' = Repo u"
    "(case Atoi (capture (url_caps u) ''port'') of None \<Rightarrow> 0 | Some p \<Rightarrow> p) =
       (if shown_port (Port u) then Port u else 0)"
proof -
  show "(case Atoi (capture (url_caps u) ''port'') of None \<Rightarrow> 0 | Some p \<Rightarrow> p) =
       (if shown_port (Port u) then Port u else 0)"
    using assms
    by (auto simp: capture_def url_caps_def port_caps_def user_caps_def shown_port_def
        Atoi_Itoa minInt_def) (auto simp: Atoi_def)
qed (auto simp: capture_def url_caps_def port_caps_def user_caps_def)

lemma http_rest_refuses:
  "s \<noteq> [] \<Longrightarrow> hd s \<noteq> CHR ''/'' \<Longrightarrow>
   rmatch (ROpt (RSeq (RLit ''/'') r)) s c at_end = None"
  by (simp only: repo_part_skip simp_thms if_False)

lemma http_authority:
  assumes "plain_url u"
  shows "rmatch (RSeq (RSeq re_user (RSeq re_host re_port))
       (ROpt (RSeq (RLit ''/'') (RSeq re_repo (RSeq re_dotgit re_slash)))))
     (user_part (User u) @ Host u @ port_part (Port u) @ CHR ''/'' # Repo u)
     [(''proto'', Proto u)] at_end = Some (url_caps u)"
proof -
  have "rmatch (RSeq re_user (RSeq re_host re_port))
     (user_part (User u) @ Host u @ port_part (Port u) @ CHR ''/'' # Repo u) [(''proto'', Proto u)]
     (\<lambda>s' c'. rmatch (ROpt (RSeq (RLit ''/'') (RSeq re_repo (RSeq re_dotgit re_slash)))) s' c' at_end)
     = Some (url_caps u)"
  proof (rule authority_stage)
    show "rmatch (ROpt (RSeq (RLit ''/'') (RSeq re_repo (RSeq re_dotgit re_slash))))
        (CHR ''/'' # Repo u) (port_caps (Port u) @ (''host'', Host u) # user_caps (User u) @
         [(''proto'', Proto u)]) at_end = Some (url_caps u)"
      using http_repo_part [of "Repo u"] assms unfolding url_caps_def plain_url_def by blast
    show "rmatch (ROpt (RSeq (RLit ''/'') (RSeq re_repo (RSeq re_dotgit re_slash)))) s c at_end = None"
      if "s \<noteq> []" "hd s \<noteq> CHR ''/''" "hd s \<noteq> CHR '':''" for s c
      using that(1,2) by (rule http_rest_refuses)
  qed (use assms in \<open>auto simp: plain_url_def\<close>)
  then show ?thesis by (simp only: rmatch.simps(4))
qed

lemma ssh_repo_part:
  assumes "plain_repo r"
  shows "rmatch (RSeq (ROpt (RSeq (RLit ''/'') (RSeq (RGrp ''repo'' (RPlus False any_char)) re_dotgit)))
     re_slash) (CHR ''/'' # r) c at_end = Some ((''repo'', r) # c)"
proof -
  have "class_plus False any_char (r @ [])
     (\<lambda>s'. rmatch (RSeq re_dotgit re_slash) s' ((''repo'', take (length r - length s') r) # c) at_end)
     = Some ((''repo'', r) # c)"
  proof (rule lazy_plus_Some)
    fix u1 u2 assume "r = u1 @ u2" "u2 \<noteq> []"
    then show "rmatch (RSeq re_dotgit re_slash) (u2 @ [])
        ((''repo'', take (length r - length (u2 @ [])) r) # c) at_end = None"
      using plain_repo_suffix [OF assms] by (subst repo_tail_match) auto
  qed (use assms in \<open>auto simp: plain_repo_def repo_tail_match simp del: rmatch.simps\<close>)
  then have "rmatch (RSeq (RGrp ''repo'' (RPlus False any_char)) (RSeq re_dotgit re_slash)) r c at_end
     = Some ((''repo'', r) # c)"
    by (simp only: rmatch.simps append_Nil2)
  then have "rmatch (RSeq (RGrp ''repo'' (RPlus False any_char)) re_dotgit) r c
      (\<lambda>s' c'. rmatch re_slash s' c' at_end) = Some ((''repo'', r) # c)"
    by (simp only: rmatch.simps(4))
  then show ?thesis
    by (simp only: rmatch.simps(4) [of "ROpt _"] opt_slash_lit or_else.simps)
qed

lemma slash_refuses:
  "s \<noteq> [] \<Longrightarrow> hd s \<noteq> CHR ''/'' \<Longrightarrow> rmatch re_slash s c at_end = None"
  by (cases s) (auto simp: HasPrefix_def)

lemma ssh_authority:
  assumes "plain_url u"
  shows "rmatch (RSeq (RSeq re_user (RSeq re_host re_port))
       (RSeq (ROpt (RSeq (RLit ''/'') (RSeq (RGrp ''repo'' (RPlus False any_char)) re_dotgit))) re_slash))
     (user_part (User u) @ Host u @ port_part (Port u) @ CHR ''/'' # Repo u)
     [(''proto'', Proto u)] at_end = Some (url_caps u)" (is "rmatch (RSeq ?auth ?rest) ?s ?c at_end = _")
proof -
  have "rmatch ?auth ?s ?c (\<lambda>s' c'. rmatch ?rest s' c' at_end) = Some (url_caps u)"
  proof (rule authority_stage)
    show "rmatch ?rest (CHR ''/'' # Repo u) (port_caps (Port u) @ (''host'', Host u) #
        user_caps (User u) @ ?c) at_end = Some (url_caps u)"
      using ssh_repo_part [of "Repo u"] assms unfolding url_caps_def plain_url_def by blast
    show "rmatch ?rest s c at_end = None"
      if "s \<noteq> []" "hd s \<noteq> CHR ''/''" "hd s \<noteq> CHR '':''" for s c
      using that
      by (simp only: rmatch.simps(4) [of "ROpt _"] repo_part_skip slash_refuses simp_thms)
  qed (use assms in \<open>auto simp: plain_url_def\<close>)
  then show ?thesis by (simp only: rmatch.simps(4))
qed

lemma lit_proto:
  "rmatch (RSeq (RGrp n (RLit p)) (RSeq (RLit ''://'') r)) (p @ ''://'' @ s) c k =
     rmatch r s ((n, p) # c) k"
  by (simp add: HasPrefix_def TrimPrefix_def)

lemma http_proto:
  assumes "p \<in> {''http'', ''https''}"
  shows "rmatch (RSeq (RGrp ''proto'' (RAlt (RLit ''http'') (RLit ''https''))) (RSeq (RLit ''://'') r))
     (p @ ''://'' @ s) [] k =
     or_else (rmatch r s [(''proto'', p)] k) None"
  using assms by (auto simp: HasPrefix_def TrimPrefix_def)

lemma http_match:
  assumes "plain_url u" "Proto u \<noteq> ''ssh''"
  shows "FindSubmatch GitHTTPProtocolPattern (GitURL_String u) = Some (url_caps u)"
proof -
  have "FindSubmatch GitHTTPProtocolPattern (GitURL_String u) =
     or_else (rmatch (RSeq re_user (RSeq re_host (RSeq re_port
       (ROpt (RSeq (RLit ''/'') (RSeq re_repo (RSeq re_dotgit re_slash)))))))
     (user_part (User u) @ Host u @ port_part (Port u) @ CHR ''/'' # Repo u)
     [(''proto'', Proto u)] at_end) None"
    unfolding FindSubmatch_def GitHTTPProtocolPattern_def plain_url_String [OF assms(1)]
    using assms by (intro http_proto) (auto simp: plain_url_def)
  also have "\<dots> = or_else (Some (url_caps u)) None"
    using http_authority [OF assms(1)] by (simp only: rmatch_assoc3)
  finally show ?thesis by (simp only: or_else.simps)
qed

lemma ssh_match:
  assumes "plain_url u" "Proto u = ''ssh''"
  shows "FindSubmatch GitSSHProtocolPattern (GitURL_String u) = Some (url_caps u)"
proof -
  have "FindSubmatch GitSSHProtocolPattern (GitURL_String u) =
     rmatch (RSeq re_user (RSeq re_host (RSeq re_port (RSeq
       (ROpt (RSeq (RLit ''/'') (RSeq (RGrp ''repo'' (RPlus False any_char)) re_dotgit))) re_slash))))
     (user_part (User u) @ Host u @ port_part (Port u) @ CHR ''/'' # Repo u)
     [(''proto'', Proto u)] at_end"
    unfolding FindSubmatch_def GitSSHProtocolPattern_def plain_url_String [OF assms(1)] assms(2)
    by (rule lit_proto)
  also have "\<dots> = Some (url_caps u)"
    using ssh_authority [OF assms(1)] by (simp only: rmatch_assoc3)
  finally show ?thesis .
qed

lemma http_refuses_ssh: "FindSubmatch GitHTTPProtocolPattern (''ssh://'' @ s) = None"
  by (simp add: FindSubmatch_def GitHTTPProtocolPattern_def HasPrefix_def)

lemma getMatched_caps:
  assumes "FindSubmatch re s = Some (url_caps u)" "plain_url u"
  shows "getMatchedGitURL re s = Some (u\<lparr>Port := if shown_port (Port u) then Port u else 0\<rparr>)"
  using assms capture_url_caps [of u]
  by (simp add: getMatchedGitURL_def plain_url_def)

lemma Parse_String:
  assumes "plain_url u"
  shows "ParseGitURL (GitURL_String u) =
     Some (u\<lparr>Port := if shown_port (Port u) then Port u else 0\<rparr>)"
proof (cases "Proto u = ''ssh''")
  case True
  then have "getMatchedGitURL GitHTTPProtocolPattern (GitURL_String u) = None"
    using http_refuses_ssh plain_url_String [OF assms] by (simp add: getMatchedGitURL_def)
  then show ?thesis
    using getMatched_caps [OF ssh_match [OF assms True] assms] by (simp add: ParseGitURL_def)
next
  case False
  then show ?thesis
    using getMatched_caps [OF http_match [OF assms] assms] by (simp add: ParseGitURL_def)
qed

section \<open>Joining stays on the server\<close>

definition authority :: "GitURL \<Rightarrow> string" where
  "authority u = Proto u @ ''://'' @ user_part (User u) @ Host u @ port_part (Port u) @ ''/''"

lemma String_network:
  "Proto u \<in> {''http'', ''https'', ''ssh''} \<Longrightarrow> \<not> HasPrefix (Repo u) ''/'' \<Longrightarrow>
   GitURL_String u = authority u @ Repo u"
  by (auto simp: GitURL_String_def authority_def user_part_def port_part_def shown_port_def)

lemma authority_port_normal [simp]:
  "authority (u\<lparr>Port := if shown_port (Port u) then Port u else 0\<rparr>) = authority u"
  by (auto simp: authority_def port_part_def shown_port_def)

lemma authority_Repo [simp]: "authority (u\<lparr>Repo := r\<rparr>) = authority u"
  by (simp add: authority_def)

lemma normal_rooted_no_dotdot: "normal_elems True es \<Longrightarrow> ''..'' \<notin> set es"
  by (erule normal_elemsE) simp

lemma Clean_rooted_form:
  "IsAbs p \<Longrightarrow> Clean p = CHR ''/'' # StrJoin (path_elems p) ''/''"
  by (simp add: Clean_def render_def)

lemma joinTwoURL_network:
  assumes "plain_url u" and "ParseGitURL r = None"
  shows "joinTwoURL (GitURL_String u) r =
     Inr (authority u @ StrJoin (path_elems (''/'' @ Repo u @ ''/'' @ r)) ''/'')"
proof -
  let ?p = "''/'' @ Repo u @ ''/'' @ r"
  let ?v = "u\<lparr>Port := if shown_port (Port u) then Port u else 0\<rparr>"
  have repo: "Repo u \<noteq> []" "\<not> IsAbs (Repo u)"
    using assms(1) by (auto simp: plain_url_def plain_repo_def IsAbs_iff)
  have proto: "Proto u \<in> {''http'', ''https'', ''ssh''}" and nl: "\<not> IsLocal ?v"
    using assms(1) by (auto simp: plain_url_def IsLocal_def)
  have "Join [''/'' @ Repo u, r] = Clean ?p" by (simp add: Join_def)
  then have cl: "Clean (Join [''/'' @ Repo u, r]) = CHR ''/'' # StrJoin (path_elems ?p) ''/''"
    using Clean_rooted_form [of ?p] by (simp only: Clean_idem) simp
  have "\<not> HasPrefix (StrJoin (path_elems ?p) ''/'') ''/''"
    using IsAbs_StrJoin_plain [OF plain_path_elems [of ?p]] by (simp add: IsAbs_iff)
  then have "GitURL_String (?v\<lparr>Repo := StrJoin (path_elems ?p) ''/''\<rparr>) =
      authority u @ StrJoin (path_elems ?p) ''/''"
    using String_network [of "?v\<lparr>Repo := StrJoin (path_elems ?p) ''/''\<rparr>"] proto by simp
  then show ?thesis
    using Parse_String [OF assms(1)] assms(2) repo nl cl
    by (simp add: joinTwoURL_def Let_def)
qed

text \<open>
  Property C33. For an http, https or ssh manifest URL, joining any relative path (a \<^verbatim>\<open>fetch\<close>
  attribute or a project name, with any number of parent elements) keeps protocol, user, host
  and port of the URL and yields a normalised repository path below the server's root: no
  empty, dot or dot-dot element is left.
\<close>

theorem joinTwoURL_stays_on_server:
  assumes "plain_url u" and "ParseGitURL r = None"
  shows "\<exists>es. joinTwoURL (GitURL_String u) r = Inr (authority u @ StrJoin es ''/'') \<and>
     normal_elems True es \<and> ''..'' \<notin> set es"
  using joinTwoURL_network [OF assms] normal_path_elems [of "''/'' @ Repo u @ ''/'' @ r"]
  by (metis IsAbs_simps(1) append_Cons normal_rooted_no_dotdot)

theorem joinTwoURL_stays_on_server_witness:
  "\<exists>es. joinTwoURL (GitURL_String \<lparr>Proto = ''https'', User = [], Host = ''h'', Port = 8080, Repo = ''a/b''\<rparr>)
      ''../../../c'' = Inr (authority \<lparr>Proto = ''https'', User = [], Host = ''h'', Port = 8080, Repo = ''a/b''\<rparr>
        @ StrJoin es ''/'') \<and> normal_elems True es \<and> ''..'' \<notin> set es"
proof (rule joinTwoURL_stays_on_server)
  show "plain_url \<lparr>Proto = ''https'', User = [], Host = ''h'', Port = 8080, Repo = ''a/b''\<rparr>"
    by code_simp
  show "ParseGitURL ''../../../c'' = None" by code_simp
qed

text \<open>
  Property C32. Parsing inverts printing: an http, https or ssh address whose user, host and
  repository are plain (no separator characters inside them, no \<^verbatim>\<open>.git\<close> or slash at the end)
  is read back from its printed form with every field unchanged, except that a default port
  (22, 80, 443), which the printer leaves out, is read back as 0.
\<close>

theorem ParseGitURL_String_roundtrip:
  assumes "plain_url u"
  shows "ParseGitURL (GitURL_String u) =
     Some (u\<lparr>Port := if shown_port (Port u) then Port u else 0\<rparr>)"
  by (rule Parse_String [OF assms])

theorem ParseGitURL_String_roundtrip_witness:
  "ParseGitURL (GitURL_String \<lparr>Proto = ''ssh'', User = ''git'', Host = ''h.org'', Port = 29418, Repo = ''a/b''\<rparr>) =
     Some \<lparr>Proto = ''ssh'', User = ''git'', Host = ''h.org'', Port = 29418, Repo = ''a/b''\<rparr>"
proof -
  have "plain_url \<lparr>Proto = ''ssh'', User = ''git'', Host = ''h.org'', Port = 29418, Repo = ''a/b''\<rparr>"
    by code_simp
  from ParseGitURL_String_roundtrip [OF this] show ?thesis by (simp add: shown_port_def)
qed

section \<open>The local protocol\<close>

lemma lazy_star_SomeD:
  "lazy_star P s k = Some x \<Longrightarrow> \<exists>u v. s = u @ v \<and> k v = Some x"
proof (induction s)
  case Nil
  then show ?case by simp
next
  case (Cons c s)
  then show ?case
    by (cases "k (c # s)") (auto split: if_splits, metis append_Cons)
qed

lemma lazy_star_NoneD: "lazy_star P s k = None \<Longrightarrow> list_all P s \<Longrightarrow> k [] = None"
  by (simp add: lazy_star_None)

lemma or_else_SomeD: "or_else a b = Some x \<Longrightarrow> a = Some x \<or> b = Some x"
  by (cases a) auto

lemma slash_SomeD: "rmatch re_slash v c at_end = Some x \<Longrightarrow> x = c"
  by (simp only: rmatch.simps) (drule or_else_SomeD, auto split: if_splits)

lemma file_pattern_abs:
  assumes "list_all any_char s"
  obtains r where "FindSubmatch GitFileProtocolPattern (CHR ''/'' # s) = Some [(''repo'', r)]"
proof -
  let ?k = "\<lambda>s'. rmatch re_slash s' [(''repo'', take (length s - length s') s)] at_end"
  have "lazy_star any_char s ?k \<noteq> None"
  proof
    assume "lazy_star any_char s ?k = None"
    then have "?k [] = None" using assms by (rule lazy_star_NoneD)
    then show False by simp
  qed
  then obtain x where x: "lazy_star any_char s ?k = Some x" by blast
  from lazy_star_SomeD [OF this] obtain v where "?k v = Some x" by blast
  then have "x = [(''repo'', take (length s - length v) s)]" by (rule slash_SomeD)
  moreover have "FindSubmatch GitFileProtocolPattern (CHR ''/'' # s) =
      rmatch (ROpt (RSeq (RLit ''/'') (RSeq re_repo re_slash))) (CHR ''/'' # s) [] at_end"
    unfolding FindSubmatch_def GitFileProtocolPattern_def by (simp add: HasPrefix_def)
  moreover have "rmatch (RSeq re_repo re_slash) s [] at_end = Some x"
    using x by (simp only: rmatch.simps class_star_def if_False)
  ultimately show thesis
    using that by (simp only: opt_slash_lit or_else.simps)
qed

text \<open>
  An absolute path is always read as a \<^verbatim>\<open>file\<close> address, because the protocol prefix
  of the file pattern is optional; the later branch that classifies absolute paths as
  \<^verbatim>\<open>local\<close> is therefore never taken for a path without a line feed.
\<close>

theorem absolute_path_is_file_not_local:
  assumes "list_all any_char s"
  shows "\<exists>u. ParseGitURL (CHR ''/'' # s) = Some u \<and> Proto u = ''file'' \<and> \<not> IsLocal u"
proof -
  obtain r where r: "FindSubmatch GitFileProtocolPattern (CHR ''/'' # s) = Some [(''repo'', r)]"
    using file_pattern_abs [OF assms] .
  have "FindSubmatch GitHTTPProtocolPattern (CHR ''/'' # s) = None"
    "FindSubmatch GitSSHProtocolPattern (CHR ''/'' # s) = None"
    "FindSubmatch GitDaemonProtocolPattern (CHR ''/'' # s) = None"
    by (simp_all add: FindSubmatch_def GitHTTPProtocolPattern_def GitSSHProtocolPattern_def
        GitDaemonProtocolPattern_def HasPrefix_def)
  with r show ?thesis
    by (simp add: ParseGitURL_def getMatchedGitURL_def capture_def IsLocal_def)
qed

theorem absolute_path_is_file_not_local_witness:
  "\<exists>u. ParseGitURL ''/srv/git/repo'' = Some u \<and> Proto u = ''file'' \<and> \<not> IsLocal u"
  by (rule absolute_path_is_file_not_local) (simp add: any_char_def)

end
