(* ===== verification/Utf8.thy ===== *)
theory Utf8
  imports Prelude
begin

text \<open>
  Package unicode/utf8 as the sources use it: iteration over the runes of a byte string (a
  \<open>for range\<close> loop), counting them and writing them back. A decoded rune is represented by the
  bytes \<^verbatim>\<open>WriteRune\<close> writes for it, so an invalid byte is the encoding of U+FFFD, and a byte
  converted to a rune (\<^verbatim>\<open>string(byte)\<close> or \<^verbatim>\<open>%c\<close>) is the encoding of the Latin-1 character.
\<close>

section \<open>Decoding\<close>

definition byte :: "char \<Rightarrow> nat" where
  "byte c = of_char c"

definition inRange :: "nat \<Rightarrow> nat \<Rightarrow> char \<Rightarrow> bool" where
  "inRange lo hi c \<longleftrightarrow> lo \<le> byte c \<and> byte c \<le> hi"

text \<open>The range of the second byte, and the number of further bytes, by the first one (the
  table of the decoder).\<close>

definition lead :: "char \<Rightarrow> (nat \<times> nat \<times> nat) option" where
  "lead c =
     (let b = byte c in
      if 0xC2 \<le> b \<and> b \<le> 0xDF then Some (0x80, 0xBF, 1)
      else if b = 0xE0 then Some (0xA0, 0xBF, 2)
      else if b = 0xED then Some (0x80, 0x9F, 2)
      else if 0xE1 \<le> b \<and> b \<le> 0xEF then Some (0x80, 0xBF, 2)
      else if b = 0xF0 then Some (0x90, 0xBF, 3)
      else if 0xF1 \<le> b \<and> b \<le> 0xF3 then Some (0x80, 0xBF, 3)
      else if b = 0xF4 then Some (0x80, 0x8F, 3)
      else None)"

definition rune_width :: "char \<Rightarrow> string \<Rightarrow> nat option" where
  "rune_width c rest =
     (if byte c < 0x80 then Some 1
      else case lead c of None \<Rightarrow> None
      | Some (lo, hi, n) \<Rightarrow>
          if n \<le> length rest \<and> inRange lo hi (hd rest) \<and>
             list_all (inRange 0x80 0xBF) (take (n - 1) (tl rest))
          then Some (n + 1) else None)"

definition runeError :: string where
  "runeError = [CHR 0xEF, CHR 0xBF, CHR 0xBD]"

function runes :: "string \<Rightarrow> string list" where
  "runes [] = []"
| "runes (c # cs) =
     (case rune_width c cs of
        None \<Rightarrow> runeError # runes cs
      | Some n \<Rightarrow> take n (c # cs) # runes (drop (n - 1) cs))"
  by pat_completeness auto
termination by (relation "measure length") auto

definition RuneCount :: "string \<Rightarrow> nat" where
  "RuneCount s = length (runes s)"

definition rune_of_byte :: "char \<Rightarrow> string" where
  "rune_of_byte c =
     (if byte c < 0x80 then [c]
      else [char_of (0xC0 + byte c div 64), char_of (0x80 + byte c mod 64)])"

text \<open>unicode.IsSpace on an encoded rune.\<close>

definition isSpaceRune :: "string \<Rightarrow> bool" where
  "isSpaceRune r \<longleftrightarrow>
     (case r of
        [c] \<Rightarrow> isSpace c
      | [a, b] \<Rightarrow> byte a = 0xC2 \<and> (byte b = 0x85 \<or> byte b = 0xA0)
      | [a, b, c] \<Rightarrow>
          (byte a = 0xE1 \<and> byte b = 0x9A \<and> byte c = 0x80) \<or>
          (byte a = 0xE2 \<and> byte b = 0x80 \<and>
             (inRange 0x80 0x8A c \<or> byte c = 0xA8 \<or> byte c = 0xA9 \<or> byte c = 0xAF)) \<or>
          (byte a = 0xE2 \<and> byte b = 0x81 \<and> byte c = 0x9F) \<or>
          (byte a = 0xE3 \<and> byte b = 0x80 \<and> byte c = 0x80)
      | _ \<Rightarrow> False)"

section \<open>Lemmas\<close>

definition ascii :: "string \<Rightarrow> bool" where
  "ascii s \<longleftrightarrow> list_all (\<lambda>c. byte c < 0x80) s"

lemma ascii_simps [simp]:
  "ascii []" "ascii (c # s) \<longleftrightarrow> byte c < 0x80 \<and> ascii s"
  "ascii (s @ t) \<longleftrightarrow> ascii s \<and> ascii t"
  by (auto simp: ascii_def)

lemma runes_ascii: "ascii s \<Longrightarrow> runes s = map (\<lambda>c. [c]) s"
  by (induction s) (simp_all add: rune_width_def)

lemma RuneCount_ascii: "ascii s \<Longrightarrow> RuneCount s = length s"
  by (simp add: RuneCount_def runes_ascii)

lemma RuneCount_le: "RuneCount s \<le> length s"
proof (induction s rule: runes.induct)
  case 1
  then show ?case by (simp add: RuneCount_def)
next
  case (2 c cs)
  show ?case
  proof (cases "rune_width c cs")
    case None
    with 2 show ?thesis by (simp add: RuneCount_def)
  next
    case (Some n)
    with 2(2) have "length (runes (drop (n - 1) cs)) \<le> length cs"
      by (fastforce simp: RuneCount_def)
    with Some show ?thesis by (simp add: RuneCount_def)
  qed
qed

end
