(* ===== verification/Shell.thy ===== *)
theory Shell
  imports Go_Regexp Utf8
begin

text \<open>
  Text helpers of package helper: \<open>ReplaceMacros\<close> (helper/macros.go), shell commands
  (helper/shell.go) and login names (helper/email.go). A buffer that is written to is a
  string accumulated by the loop; slicing beyond a slice and indexing an empty string are panics.
\<close>

section \<open>Macro replacement (helper/macros.go)\<close>

text \<open>The value of one field \<open>{key:mod:width}\<close>. \<open>Inr None\<close>: the field is copied as it is.\<close>

definition IndexByte :: "string \<Rightarrow> char \<Rightarrow> nat option" where
  "IndexByte s c = IndexAny s [c]"

definition parseField :: "string \<Rightarrow> (string \<times> string \<times> int) option" where
  "parseField field =
     (case IndexByte field CHR '':'' of
        Some (Suc n) \<Rightarrow>
          (let key = take (Suc n) field; rest = drop (n + 2) field in
           case IndexByte rest CHR '':'' of
             Some (Suc m) \<Rightarrow>
               (case Atoi (drop (m + 2) rest) of None \<Rightarrow> None
                | Some w \<Rightarrow> Some (key, take (Suc m) rest, w))
           | _ \<Rightarrow> Some (key, [], 0))
      | _ \<Rightarrow> Some (field, [], 0))"

definition fieldValue :: "(string \<rightharpoonup> string) \<Rightarrow> string \<Rightarrow> string option result" where
  "fieldValue macros field =
     (case parseField field of None \<Rightarrow> Inr None
      | Some (key, mode, w) \<Rightarrow>
        (case macros key of None \<Rightarrow> Inr None
         | Some value \<Rightarrow>
           if mode = [] then Inr (Some value)
           else if mode = ''left'' then
             (if w \<le> int (length value) then
                if w < 0 then Inl (Panic ''slice bounds out of range'')
                else Inr (Some (take (nat w) value))
              else Inr (Some (replicate (nat w - length value) CHR ''0'' @ value)))
           else if mode = ''right'' then
             (if w \<le> int (length value) then
                if w < 0 then Inl (Panic ''slice bounds out of range'')
                else Inr (Some (drop (length value - nat w) value))
              else Inr (Some (replicate (nat w - length value) CHR ''0'' @ value)))
           else Inr None))"

function replaceLoop :: "(string \<rightharpoonup> string) \<Rightarrow> string \<Rightarrow> string \<Rightarrow> string result" where
  "replaceLoop macros ret p =
     (case IndexAny p ''{<'' of None \<Rightarrow> Inr (ret @ p)
      | Some left \<Rightarrow>
        (case IndexAny p ''}>'' of None \<Rightarrow> Inr (ret @ p)
         | Some right \<Rightarrow>
           if right < left then replaceLoop macros (ret @ take (right + 1) p) (drop (right + 1) p)
           else bind_result (fieldValue macros (drop (left + 1) (take right p)))
             (\<lambda>v. case v of
                None \<Rightarrow> replaceLoop macros (ret @ take (right + 1) p) (drop (right + 1) p)
              | Some value \<Rightarrow> replaceLoop macros (ret @ take left p @ value) (drop (right + 1) p))))"
  by pat_completeness auto
termination
  by (relation "measure (\<lambda>(_, _, p). length p)") (auto dest: IndexAny_Some)

declare replaceLoop.simps [simp del]

definition ReplaceMacros :: "string \<Rightarrow> (string \<rightharpoonup> string) \<Rightarrow> string result" where
  "ReplaceMacros s macros = replaceLoop macros [] s"

section \<open>Shell commands (helper/shell.go)\<close>

record ShellCmd =
  Cmd :: string
  Args :: "string list"

definition normalArgChar :: "char \<Rightarrow> bool" where
  "normalArgChar c \<longleftrightarrow> isDigit c \<or> (CHR ''a'' \<le> c \<and> c \<le> CHR ''z'') \<or> (CHR ''A'' \<le> c \<and> c \<le> CHR ''Z'') \<or>
     c \<in> set '':/%,.@+=_-''"

definition NormalArgsPattern :: regexp where
  "NormalArgsPattern = RPlus True normalArgChar"

text \<open>The loop over the runes, with the flag \<open>hasBackSlash\<close>.\<close>

fun quoteRunes :: "bool \<Rightarrow> string list \<Rightarrow> string" where
  "quoteRunes _ [] = []"
| "quoteRunes True (c # cs) = c @ quoteRunes False cs"
| "quoteRunes False (c # cs) =
     (if c = [CHR 0x5C] then c @ quoteRunes True cs
      else if c = [CHR 0x22] then [CHR 0x5C, CHR 0x22] @ quoteRunes False cs
      else c @ quoteRunes False cs)"

definition quoteString :: "string \<Rightarrow> string result" where
  "quoteString s =
     (if s = [] then Inl (Panic ''index out of range'')
      else if (hd s = CHR 0x22 \<or> hd s = CHR 0x27) \<and> hd s = last s then Inr s
      else if MatchString NormalArgsPattern s then Inr s
      else Inr ([CHR 0x22] @ quoteRunes False (runes s) @ [CHR 0x22]))"

definition QuoteCommand :: "ShellCmd \<Rightarrow> string result" where
  "QuoteCommand v =
     bind_result (quoteString (Cmd v)) (\<lambda>c.
       foldM_result (\<lambda>acc arg. bind_result (quoteString arg) (\<lambda>q. Inr (acc @ '' '' @ q))) c (Args v))"

definition NewShellCmdFromArgs :: "string list \<Rightarrow> ShellCmd result" where
  "NewShellCmdFromArgs args =
     (case args of [] \<Rightarrow> Inl (Panic ''index out of range'')
      | c # as \<Rightarrow> Inr \<lparr>Cmd = c, Args = as\<rparr>)"

text \<open>The tokenizer: the open quote (\<open>None\<close> when outside), whether the last rune was a blank that
  ended a token, the token so far and the tokens.\<close>

fun tokenize :: "string option \<Rightarrow> bool \<Rightarrow> string \<Rightarrow> string list \<Rightarrow> string list \<Rightarrow> string list" where
  "tokenize q sp token args [] = (if token \<noteq> [] then args @ [token] else args)"
| "tokenize None sp token args (c # cs) =
     (if c = [CHR 0x27] \<or> c = [CHR 0x22] then tokenize (Some c) False token args cs
      else if isSpaceRune c then
        if sp then tokenize None True token args cs
        else tokenize None True [] (args @ [token]) cs
      else tokenize None False (token @ c) args cs)"
| "tokenize (Some q) sp token args (c # cs) =
     (if c = q then tokenize None False token args cs
      else tokenize (Some q) sp (token @ c) args cs)"

definition NewShellCmd :: "string \<Rightarrow> bool \<Rightarrow> ShellCmd" where
  "NewShellCmd cmd withArgs =
     (let cmd' = TrimSpace cmd in
      if \<not> withArgs then \<lparr>Cmd = cmd', Args = []\<rparr>
      else case tokenize None False [] [] (runes cmd') of
        [] \<Rightarrow> \<lparr>Cmd = [], Args = []\<rparr>
      | c # as \<Rightarrow> \<lparr>Cmd = c, Args = as\<rparr>)"

section \<open>Login names (helper/email.go)\<close>

abbreviation login_char :: "char \<Rightarrow> bool" where
  "login_char c \<equiv> c \<noteq> CHR ''@'' \<and> \<not> re_space c"

definition UserEmailPattern :: regexp where
  "UserEmailPattern =
     RSeq (RGrp ''1'' (RStar False any_char)) (RSeq (RStar True re_space) (RSeq (RLit ''<'')
     (RSeq (RGrp ''2'' (RPlus True login_char)) (RSeq (RLit ''@'')
     (RSeq (RGrp ''3'' (RStar True (\<lambda>c. \<not> re_space c))) (RLit ''>''))))))"

definition EmailPattern :: regexp where
  "EmailPattern =
     RSeq (ROpt (RLit ''<'')) (RSeq (RGrp ''1'' (RPlus True login_char)) (RSeq (RLit ''@'')
     (RSeq (RGrp ''2'' (RPlus True (\<lambda>c. \<not> re_space c))) (ROpt (RLit ''>'')))))"

definition GetLoginFromEmail :: "string \<Rightarrow> string" where
  "GetLoginFromEmail email =
     (case FindSubmatch UserEmailPattern email of Some m \<Rightarrow> capture m ''2''
      | None \<Rightarrow>
        (case FindSubmatch EmailPattern email of None \<Rightarrow> [] | Some m \<Rightarrow> capture m ''1''))"

section \<open>Replacement\<close>

definition prepend :: "string \<Rightarrow> string result \<Rightarrow> string result" where
  "prepend u r = bind_result r (\<lambda>v. Inr (u @ v))"

lemma prepend_simps [simp]:
  "prepend u (Inr v) = Inr (u @ v)" "prepend u (Inl e) = Inl e" "prepend [] r = r"
  "prepend u (prepend v r) = prepend (u @ v) r"
  by (cases r; simp add: prepend_def)+

text \<open>The buffer only grows: it can be taken out of the loop.\<close>

lemma replaceLoop_acc: "replaceLoop macros ret p = prepend ret (ReplaceMacros p macros)"
proof (induction p arbitrary: ret rule: measure_induct_rule [of length])
  case (less p)
  show ?case
  proof (cases "IndexAny p ''{<'' = None \<or> IndexAny p ''}>'' = None")
    case True
    then show ?thesis by (auto simp: ReplaceMacros_def replaceLoop.simps [of _ _ p] split: option.splits)
  next
    case False
    then obtain l r where lr: "IndexAny p ''{<'' = Some l" "IndexAny p ''}>'' = Some r" by auto
    then have "length (drop (Suc r) p) < length p" using IndexAny_Some by fastforce
    note IH = less.IH [OF this]
    show ?thesis
      by (cases "fieldValue macros (drop (l + 1) (take r p))")
        (simp_all add: ReplaceMacros_def [of p] replaceLoop.simps [of _ _ p] lr IH split: option.splits)
  qed
qed

lemma ReplaceMacros_step:
  assumes "IndexAny p ''{<'' = Some l" and "IndexAny p ''}>'' = Some r"
  shows "ReplaceMacros p macros =
     (if r < l then prepend (take (Suc r) p) (ReplaceMacros (drop (Suc r) p) macros)
      else bind_result (fieldValue macros (drop (Suc l) (take r p)))
        (\<lambda>v. case v of None \<Rightarrow> prepend (take (Suc r) p) (ReplaceMacros (drop (Suc r) p) macros)
           | Some value \<Rightarrow> prepend (take l p @ value) (ReplaceMacros (drop (Suc r) p) macros)))"
proof -
  have "ReplaceMacros p macros =
     (if r < l then replaceLoop macros (take (Suc r) p) (drop (Suc r) p)
      else bind_result (fieldValue macros (drop (Suc l) (take r p)))
        (\<lambda>v. case v of None \<Rightarrow> replaceLoop macros (take (Suc r) p) (drop (Suc r) p)
           | Some value \<Rightarrow> replaceLoop macros (take l p @ value) (drop (Suc r) p)))"
    by (simp add: ReplaceMacros_def [of p] replaceLoop.simps [of _ "[]" p] assms)
  then show ?thesis unfolding replaceLoop_acc .
qed

lemma ReplaceMacros_copy:
  "IndexAny p ''{<'' = None \<or> IndexAny p ''}>'' = None \<Longrightarrow> ReplaceMacros p macros = Inr p"
  by (auto simp: ReplaceMacros_def replaceLoop.simps [of _ _ p] split: option.splits)

lemma ReplaceMacros_none: "ReplaceMacros p Map.empty = Inr p"
proof (induction p rule: measure_induct_rule [of length])
  case (less p)
  show ?case
  proof (cases "IndexAny p ''{<'' = None \<or> IndexAny p ''}>'' = None")
    case True
    then show ?thesis by (rule ReplaceMacros_copy)
  next
    case False
    then obtain l r where lr: "IndexAny p ''{<'' = Some l" "IndexAny p ''}>'' = Some r" by auto
    then have "length (drop (Suc r) p) < length p" using IndexAny_Some by fastforce
    note IH = less.IH [OF this]
    have "fieldValue Map.empty f = Inr None" for f
      by (simp add: fieldValue_def split: option.splits)
    then show ?thesis unfolding ReplaceMacros_step [OF lr] by (simp add: IH)
  qed
qed

lemma fieldValue_width:
  "fieldValue macros field = Inr (Some v) \<Longrightarrow> parseField field = Some (key, mode, w) \<Longrightarrow>
     mode \<noteq> [] \<Longrightarrow> int (length v) = w"
  by (auto simp: fieldValue_def split: option.splits if_splits)

lemma fieldValue_total:
  "parseField field = Some (key, mode, w) \<Longrightarrow> macros key = Some value \<Longrightarrow>
     mode \<in> {''left'', ''right''} \<Longrightarrow> 0 \<le> w \<Longrightarrow> \<exists>v. fieldValue macros field = Inr (Some v)"
  by (auto simp: fieldValue_def)

lemma ReplaceMacros_field:
  assumes "set pre \<inter> set ''{<}>'' = {}" and "set field \<inter> set ''{<}>'' = {}"
    and "fieldValue macros field = Inr (Some value)"
  shows "ReplaceMacros (pre @ ''{'' @ field @ ''}'' @ post) macros =
    prepend (pre @ value) (ReplaceMacros post macros)"
proof -
  let ?p = "pre @ ''{'' @ field @ ''}'' @ post"
  have "IndexAny ?p ''{<'' = Some (length pre)"
    using assms(1) by (subst IndexAny_append) auto
  moreover have "IndexAny ?p ''}>'' = Some (length pre + 1 + length field)"
  proof -
    have "set (pre @ ''{'' @ field) \<inter> set ''}>'' = {}" using assms(1,2) by auto
    from IndexAny_append [OF this, of "''}'' @ post"] show ?thesis by simp
  qed
  moreover have "drop (Suc (length pre)) (take (length pre + 1 + length field) ?p) = field" by simp
  moreover have "drop (Suc (length pre + 1 + length field)) ?p = post" "take (length pre) ?p = pre" by simp_all
  ultimately show ?thesis
    using ReplaceMacros_step [of ?p "length pre" "length pre + 1 + length field" macros] assms(3)
    by (simp del: take_append drop_append)
qed

lemma parseField_plain: "CHR '':'' \<notin> set key \<Longrightarrow> parseField key = Some (key, [], 0)"
  using IndexAny_None [of key "'':''"] by (simp add: parseField_def IndexByte_def)

lemma parseField_mod:
  assumes "CHR '':'' \<notin> set key" "CHR '':'' \<notin> set mode" "key \<noteq> []" "mode \<noteq> []" "minInt \<le> w" "w \<le> maxInt"
  shows "parseField (key @ '':'' @ mode @ '':'' @ Itoa w) = Some (key, mode, w)"
proof -
  have i: "IndexByte (u @ CHR '':'' # t) CHR '':'' = Some (length u)" if "CHR '':'' \<notin> set u" for u t
    using that by (simp add: IndexByte_def IndexAny_append)
  obtain n m where n: "length key = Suc n" and m: "length mode = Suc m"
    using assms(3,4) by (cases key; cases mode) auto
  have "drop (n + 2) (key @ CHR '':'' # t) = t" "take (Suc n) (key @ t) = key"
    "drop (m + 2) (mode @ CHR '':'' # t) = t" "take (Suc m) (mode @ t) = mode" for t
    using n m by simp_all
  then show ?thesis using assms
    by (simp add: parseField_def i n m Atoi_Itoa del: drop_append take_append)
qed

text \<open>
  A field \<open>{key}\<close> or \<open>{key:mod:width}\<close> of a known key is replaced by the macro's
  value, by exactly \<open>width\<close> bytes when a modifier asks for it, the text before it is kept
  and the rest is processed in turn; with no macro defined the text is copied unchanged.
\<close>

theorem ReplaceMacros_replaces:
  assumes "set pre \<inter> set ''{<}>'' = {}" and "set key \<inter> set '':{<}>'' = {}" and "key \<noteq> []"
    and "macros key = Some value" and "mode \<in> {''left'', ''right''}" and "0 \<le> w" and "w \<le> maxInt"
  shows "ReplaceMacros (pre @ ''{'' @ key @ ''}'' @ post) macros =
      bind_result (ReplaceMacros post macros) (\<lambda>r. Inr ((pre @ value) @ r)) \<and>
    (\<exists>v. int (length v) = w \<and>
      ReplaceMacros (pre @ ''{'' @ (key @ '':'' @ mode @ '':'' @ Itoa w) @ ''}'' @ post) macros =
      bind_result (ReplaceMacros post macros) (\<lambda>r. Inr ((pre @ v) @ r))) \<and>
    ReplaceMacros s Map.empty = Inr s"
proof (intro conjI)
  have "fieldValue macros key = Inr (Some value)"
    using assms(2,4) parseField_plain [of key] by (simp add: fieldValue_def)
  then show "ReplaceMacros (pre @ ''{'' @ key @ ''}'' @ post) macros =
      bind_result (ReplaceMacros post macros) (\<lambda>r. Inr ((pre @ value) @ r))"
    using ReplaceMacros_field [OF assms(1), of key macros "value" post] assms(2) by (auto simp: prepend_def)
  let ?f = "key @ '':'' @ mode @ '':'' @ Itoa w"
  have f: "parseField ?f = Some (key, mode, w)"
    using parseField_mod [of key mode w] assms by (auto simp: minInt_def)
  then obtain v where v: "fieldValue macros ?f = Inr (Some v)"
    using fieldValue_total [OF f, of macros, OF assms(4-6)] by blast
  have "set (Itoa w) \<inter> set ''{<}>'' = {}"
    using assms(6) digits_of_isDigit by (fastforce simp: Itoa_def isDigit_def)
  then have "set ?f \<inter> set ''{<}>'' = {}" using assms(2,5) by auto
  then show "\<exists>v. int (length v) = w \<and> ReplaceMacros (pre @ ''{'' @ ?f @ ''}'' @ post) macros =
      bind_result (ReplaceMacros post macros) (\<lambda>r. Inr ((pre @ v) @ r))"
    using ReplaceMacros_field [OF assms(1) _ v] fieldValue_width [OF v f] assms(5)
    by (intro exI [of _ v]) (auto simp: prepend_def)
  show "ReplaceMacros s Map.empty = Inr s" by (rule ReplaceMacros_none)
qed

theorem ReplaceMacros_replaces_witness:
  "ReplaceMacros ''refs/{cr}/head'' [''cr'' \<mapsto> ''12''] =
     bind_result (ReplaceMacros ''/head'' [''cr'' \<mapsto> ''12'']) (\<lambda>r. Inr ((''refs/'' @ ''12'') @ r)) \<and>
   (\<exists>v. int (length v) = 4 \<and> ReplaceMacros ''refs/{cr:right:4}/head'' [''cr'' \<mapsto> ''12''] =
     bind_result (ReplaceMacros ''/head'' [''cr'' \<mapsto> ''12'']) (\<lambda>r. Inr ((''refs/'' @ v) @ r)))"
proof -
  have "Itoa 4 = ''4''" by code_simp
  then show ?thesis
    using ReplaceMacros_replaces [of "''refs/''" "''cr''" "[''cr'' \<mapsto> ''12'']" "''12''" "''right''" 4 "''/head''"]
    by (simp add: maxInt_def)
qed

section \<open>Quoting and tokenizing\<close>

abbreviation singles :: "string \<Rightarrow> string list" where
  "singles \<equiv> map (\<lambda>c. [c])"

lemma NormalArgsPattern_iff: "MatchString NormalArgsPattern s \<longleftrightarrow> s \<noteq> [] \<and> list_all normalArgChar s"
proof -
  have "(\<exists>y. greedy_star P s (\<lambda>s'. if s' = [] then Some c else None) = Some y) \<longleftrightarrow> list_all P s"
    for P s and c :: captures
    unfolding not_None_eq [symmetric] by (auto simp: greedy_star_None)
  then show ?thesis
    by (cases s) (simp_all add: MatchString_def FindSubmatch_def NormalArgsPattern_def class_plus_def class_star_def)
qed

text \<open>
  The words that are read as one word: not empty and not already between two quotes of one kind;
  a word with double quotes holds them in pairs and no blank, single quote or backslash, since the
  tokenizer takes the escaped quotes for the ends of quoted parts.
\<close>

definition readable :: "string \<Rightarrow> bool" where
  "readable a \<longleftrightarrow> a \<noteq> [] \<and> ascii a \<and> \<not> (hd a \<in> {CHR 0x22, CHR 0x27} \<and> hd a = last a) \<and>
     (CHR 0x22 \<in> set a \<longrightarrow> even (count_list a CHR 0x22) \<and> set a \<inter> {CHR 0x27, CHR 0x5C} = {} \<and> \<not> list_ex isSpace a)"

text \<open>What is read: the tokenizer drops each double quote and keeps the backslash that escapes it.\<close>

definition reread :: "string \<Rightarrow> string" where
  "reread a = map (\<lambda>c. if c = CHR 0x22 then CHR 0x5C else c) a"

definition quoted :: "string \<Rightarrow> string" where
  "quoted a = (if list_all normalArgChar a then a else [CHR 0x22] @ quoteRunes False (singles a) @ [CHR 0x22])"

lemma reread_id [simp]: "CHR 0x22 \<notin> set a \<Longrightarrow> reread a = a"
  by (induction a) (auto simp: reread_def)

lemma reread_Nil_iff [simp]: "reread a = [] \<longleftrightarrow> a = []"
  by (simp add: reread_def)

lemma reread_iff: "reread a = a \<longleftrightarrow> CHR 0x22 \<notin> set a"
  by (induction a) (auto simp: reread_def)

lemma map_reread_iff: "map reread as = as \<longleftrightarrow> (\<forall>a \<in> set as. CHR 0x22 \<notin> set a)"
  by (induction as) (auto simp: reread_iff)

lemma quoteRunes_plain: "CHR 0x22 \<notin> set a \<Longrightarrow> quoteRunes b (singles a) = a"
  by (induction a arbitrary: b; case_tac b) auto

lemma quoteRunes_ascii: "ascii a \<Longrightarrow> ascii (quoteRunes b (singles a))"
proof (induction a arbitrary: b)
  case (Cons c a)
  have "byte CHR 0x22 < 0x80" "byte CHR 0x5C < 0x80" by code_simp+
  with Cons show ?case by (cases b) auto
qed simp

lemma quoteString_readable: "readable a \<Longrightarrow> quoteString a = Inr (quoted a)"
  by (auto simp: quoteString_def readable_def quoted_def NormalArgsPattern_iff runes_ascii)

lemma normalArgChar_not:
  "normalArgChar c \<Longrightarrow> \<not> isSpace c" "normalArgChar c \<Longrightarrow> c \<noteq> CHR 0x22 \<and> c \<noteq> CHR 0x27"
  by (auto simp: normalArgChar_def isSpace_def isDigit_def less_eq_char_def)

lemma tokenize_normal:
  "list_all normalArgChar a \<Longrightarrow> a \<noteq> [] \<Longrightarrow>
     tokenize None sp token args (singles a @ rest) = tokenize None False (token @ a) args rest"
proof (induction a arbitrary: sp token)
  case Nil
  then show ?case by simp
next
  case (Cons c a)
  have c: "\<not> isSpaceRune [c]" "c \<noteq> CHR 0x22" "c \<noteq> CHR 0x27"
    using Cons.prems(1) normalArgChar_not [of c] by (auto simp: isSpaceRune_def)
  with Cons show ?case by (cases "a = []") simp_all
qed

lemma tokenize_inside:
  "CHR 0x22 \<notin> set a \<Longrightarrow>
     tokenize (Some [CHR 0x22]) sp token args (singles a @ [CHR 0x22] # rest) = tokenize None False (token @ a) args rest"
  by (induction a arbitrary: token) auto

text \<open>Inside and outside of a quoted part: an escaped quote changes from one to the other.\<close>

abbreviation in_quotes :: "bool \<Rightarrow> string option" where
  "in_quotes q \<equiv> if q then Some [CHR 0x22] else None"

lemma tokenize_escaped:
  "set a \<inter> {CHR 0x27, CHR 0x5C} = {} \<Longrightarrow> \<not> list_ex isSpace a \<Longrightarrow>
     tokenize (in_quotes q) False token args (singles (quoteRunes False (singles a)) @ rest) =
       tokenize (in_quotes (q = even (count_list a CHR 0x22))) False (token @ reread a) args rest"
proof (induction a arbitrary: q token)
  case (Cons c a)
  have bs: "isSpaceRune [CHR 0x5C] = False" by code_simp
  have c: "c \<noteq> CHR 0x27" "c \<noteq> CHR 0x5C" and a: "set a \<inter> {CHR 0x27, CHR 0x5C} = {}" "\<not> list_ex isSpace a"
    using Cons.prems by auto
  show ?case
  proof (cases "c = CHR 0x22")
    case True
    with Cons.IH [OF a, of "\<not> q" "token @ [CHR 0x5C]"] bs show ?thesis
      by (cases q) (simp_all add: reread_def)
  next
    case False
    have "isSpaceRune [c] = False" using Cons.prems by (simp add: isSpaceRune_def)
    with False c Cons.IH [OF a, of q "token @ [c]"] show ?thesis
      by (cases q) (simp_all add: reread_def)
  qed
qed (simp add: reread_def)

lemma tokenize_quoted:
  assumes "readable a"
  shows "tokenize None sp token args (singles (quoted a) @ rest) = tokenize None False (token @ reread a) args rest"
proof (cases "list_all normalArgChar a")
  case True
  then have "CHR 0x22 \<notin> set a" using normalArgChar_not(2) by (auto simp: list_all_iff)
  with True assms show ?thesis by (simp add: quoted_def readable_def tokenize_normal)
next
  case False
  show ?thesis
  proof (cases "CHR 0x22 \<in> set a")
    case True
    then show ?thesis
      using assms False tokenize_escaped [of a True token args "[CHR 0x22] # rest"]
      by (simp add: quoted_def readable_def)
  next
    case no: False
    then show ?thesis using False by (simp add: quoted_def quoteRunes_plain tokenize_inside)
  qed
qed

abbreviation spaced :: "string list \<Rightarrow> string" where
  "spaced as \<equiv> concat (map (\<lambda>a. CHR '' '' # quoted a) as)"

lemma tokenize_args:
  "list_all readable as \<Longrightarrow> token \<noteq> [] \<Longrightarrow>
     tokenize None False token args (singles (spaced as)) = args @ [token] @ map reread as"
proof (induction as arbitrary: token args)
  case Nil
  then show ?case by simp
next
  case (Cons a as)
  have "isSpaceRune '' ''" by code_simp
  with Cons.prems Cons.IH [of "reread a" "args @ [token]"] show ?case
    by (simp add: tokenize_quoted readable_def [of a])
qed

lemma QuoteCommand_readable:
  assumes "readable (Cmd v)" and "list_all readable (Args v)"
  shows "QuoteCommand v = Inr (quoted (Cmd v) @ spaced (Args v))"
proof -
  have "list_all readable as \<Longrightarrow>
      foldM_result (\<lambda>acc arg. bind_result (quoteString arg) (\<lambda>q. Inr (acc @ '' '' @ q))) c as = Inr (c @ spaced as)"
    for as c by (induction as arbitrary: c) (simp_all add: quoteString_readable)
  with assms show ?thesis by (simp add: QuoteCommand_def quoteString_readable)
qed

lemma TrimSpace_id:
  "s \<noteq> [] \<Longrightarrow> \<not> isSpace (hd s) \<Longrightarrow> \<not> isSpace (last s) \<Longrightarrow> TrimSpace s = s"
  by (simp add: TrimSpace_def TrimRightIf_def dropWhile_eq_self_iff [THEN iffD2] hd_rev)

lemma quoted_ends:
  assumes "readable a"
  shows "quoted a \<noteq> [] \<and> \<not> isSpace (hd (quoted a)) \<and> \<not> isSpace (last (quoted a)) \<and> ascii (quoted a)"
proof -
  have "\<not> isSpace (hd a)" "\<not> isSpace (last a)" if "list_all normalArgChar a"
    using that assms normalArgChar_not(1) by (auto simp: readable_def list_all_iff)
  moreover have "\<not> isSpace CHR 0x22" "byte CHR 0x22 < 0x80" by code_simp+
  ultimately show ?thesis using assms quoteRunes_ascii [of a False] by (auto simp: quoted_def readable_def)
qed

lemma spaced_ascii: "list_all readable as \<Longrightarrow> ascii (spaced as)"
proof (induction as)
  case Nil
  then show ?case by simp
next
  case (Cons a as)
  moreover have "byte CHR '' '' < 0x80" by code_simp
  ultimately show ?case using quoted_ends by simp
qed

lemma spaced_last: "list_all readable as \<Longrightarrow> as \<noteq> [] \<Longrightarrow> spaced as \<noteq> [] \<and> \<not> isSpace (last (spaced as))"
proof (induction as)
  case Nil
  then show ?case by simp
next
  case (Cons a as)
  then show ?case using quoted_ends [of a] by (cases "as = []") (auto simp: last_append)
qed

text \<open>
  Property C37. What a printed command line is read as, for \<open>readable\<close> words: words without
  double quotes that are not between two single quotes, blanks, backslashes and single quotes
  inside them included, and words with double quotes in pairs and no blank, single quote or
  backslash. \<open>QuoteCommand\<close> followed by \<open>NewShellCmd\<close> keeps the words apart and
  gives each of them back, but for its double quotes: each comes back as the backslash that escaped
  it, so the command itself is read back exactly when no word holds a double quote.
\<close>

theorem NewShellCmd_QuoteCommand:
  assumes "readable (Cmd v)" and "list_all readable (Args v)"
  shows "\<exists>s. QuoteCommand v = Inr s \<and>
     NewShellCmd s True = \<lparr>Cmd = reread (Cmd v), Args = map reread (Args v)\<rparr> \<and>
     (NewShellCmd s True = v \<longleftrightarrow> (\<forall>a \<in> set (Cmd v # Args v). CHR 0x22 \<notin> set a))"
proof -
  let ?s = "quoted (Cmd v) @ spaced (Args v)"
  have a: "ascii ?s" using assms quoted_ends spaced_ascii by simp
  have "TrimSpace ?s = ?s"
    using quoted_ends [OF assms(1)] spaced_last [OF assms(2)]
    by (intro TrimSpace_id) (cases "Args v = []"; auto simp: last_append)+
  moreover have "tokenize None False [] [] (runes ?s) = reread (Cmd v) # map reread (Args v)"
    using assms tokenize_args [OF assms(2), of "reread (Cmd v)" "[]"]
    by (simp add: runes_ascii [OF a] tokenize_quoted readable_def [of "Cmd v"])
  ultimately have "NewShellCmd ?s True = \<lparr>Cmd = reread (Cmd v), Args = map reread (Args v)\<rparr>"
    by (simp add: NewShellCmd_def)
  then show ?thesis using QuoteCommand_readable [OF assms]
    by (cases v) (auto simp: reread_iff map_reread_iff)
qed

theorem NewShellCmd_QuoteCommand_witness:
  "\<exists>s. QuoteCommand \<lparr>Cmd = ''git'', Args = [''commit'', ''-m'', ''two words'', [CHR ''a'', CHR 0x5C], [CHR ''b'', CHR 0x22, CHR 0x22]]\<rparr> = Inr s \<and>
     NewShellCmd s True = \<lparr>Cmd = ''git'', Args = [''commit'', ''-m'', ''two words'', [CHR ''a'', CHR 0x5C], [CHR ''b'', CHR 0x5C, CHR 0x5C]]\<rparr>"
proof -
  let ?v = "\<lparr>Cmd = ''git'', Args = [''commit'', ''-m'', ''two words'', [CHR ''a'', CHR 0x5C], [CHR ''b'', CHR 0x22, CHR 0x22]]\<rparr>"
  have "readable (Cmd ?v)" "list_all readable (Args ?v)" by code_simp+
  from NewShellCmd_QuoteCommand [OF this] show ?thesis by (auto simp: reread_def)
qed

text \<open>A single double quote opens a part that ends no more: the next word is swallowed.\<close>

lemma NewShellCmd_swallows:
  "bind_result (QuoteCommand \<lparr>Cmd = ''c'', Args = [[CHR ''a'', CHR 0x22, CHR ''b''], ''d'']\<rparr>) (\<lambda>s. Inr (NewShellCmd s True)) =
     Inr \<lparr>Cmd = ''c'', Args = [[CHR ''a'', CHR 0x5C, CHR ''b'', CHR '' '', CHR ''d'']]\<rparr>"
  by code_simp

section \<open>Logins\<close>

lemma one_char_prefix [simp]:
  "HasPrefix (c # s) [d] \<longleftrightarrow> c = d" "TrimPrefix (c # s) [c] = s" "\<not> HasPrefix [] [d]"
  by (auto simp: HasPrefix_def TrimPrefix_def)

lemma greedy_star_last:
  assumes "list_all P (u @ [x])" and "k [] = None" and "k [x] = Some r"
  shows "greedy_star P (u @ [x]) k = Some r"
  using assms by (induction u) auto

lemma greedy_star_all:
  "list_all P u \<Longrightarrow> k [] = Some r \<Longrightarrow> greedy_star P u k = Some r"
  using greedy_star_max [of P u "[]" k r] by simp

text \<open>After a name that does not end in white space, the blanks and the opening bracket.\<close>

lemma blanks_then_bracket:
  assumes "list_all re_space sp" and "k v = Some r"
  shows "greedy_star re_space (sp @ CHR ''<'' # v) (\<lambda>s. if HasPrefix s ''<'' then k (TrimPrefix s ''<'') else None) = Some r"
proof (rule greedy_star_max [OF assms(1)])
  show "CHR ''<'' # v = [] \<or> \<not> re_space (hd (CHR ''<'' # v))" by (simp add: re_space_def)
  show "(if HasPrefix (CHR ''<'' # v) ''<'' then k (TrimPrefix (CHR ''<'' # v) ''<'') else None) = Some r"
    using assms(2) by (simp add: HasPrefix_def TrimPrefix_def)
qed

lemma no_bracket_yet:
  assumes "u \<noteq> []" and "CHR ''<'' \<notin> set u" and "\<not> re_space (last u)"
  shows "greedy_star re_space (u @ v) (\<lambda>s. if HasPrefix s ''<'' then k s else None) = None"
proof -
  have "\<not> HasPrefix w ''<''" if "u @ v = b @ w" "list_all re_space b" for b w
  proof -
    have "length b < length u"
    proof (rule ccontr)
      assume "\<not> length b < length u"
      then have "prefix u b" using that(1) by (metis not_less prefix_def prefix_length_prefix)
      then have "last u \<in> set b" using assms(1) by (auto simp: prefix_def)
      with that(2) assms(3) show False by (auto simp: list_all_iff)
    qed
    moreover from this have "w = drop (length b) u @ v"
      using that(1) by (auto simp: append_eq_append_conv_if)
    ultimately have "w \<noteq> [] \<and> hd w \<in> set u"
      by (simp add: hd_drop_conv_nth)
    with assms(2) show ?thesis by (cases w) (auto simp: HasPrefix_def)
  qed
  then show ?thesis by (auto simp: greedy_star_None)
qed

lemma bracketed_mail:
  assumes "login \<noteq> []" "list_all login_char login" "list_all (\<lambda>c. \<not> re_space c) host"
  shows "rmatch (RSeq (RGrp ''2'' (RPlus True login_char)) (RSeq (RLit ''@'')
     (RSeq (RGrp ''3'' (RStar True (\<lambda>c. \<not> re_space c))) (RLit ''>'')))) (login @ ''@'' @ host @ ''>'') c
     (\<lambda>s' c. if s' = [] then Some c else None) = Some ((''3'', host) # (''2'', login) # c)"
proof -
  let ?k = "\<lambda>s'. if HasPrefix s' ''>'' then if TrimPrefix s' ''>'' = [] then
      Some ((''3'', take (length (host @ ''>'') - length s') (host @ ''>'')) # (''2'', login) # c) else None else None"
  have "greedy_star (\<lambda>c. \<not> re_space c) (host @ [CHR ''>'']) ?k = Some ((''3'', host) # (''2'', login) # c)"
    using assms(3) by (intro greedy_star_last) (simp_all add: re_space_def HasPrefix_def TrimPrefix_def)
  moreover have "\<not> login_char CHR ''@''" by simp
  ultimately show ?thesis
    by (auto intro!: greedy_plus_max assms simp: class_star_def cong: if_cong)
qed

lemma no_bracket_no_match:
  assumes "CHR ''<'' \<notin> set s"
  shows "FindSubmatch UserEmailPattern s = None"
proof -
  have "\<not> HasPrefix t ''<''" if "s = u @ v @ t" for u v t
    using that assms by (auto simp: HasPrefix_iff)
  then show ?thesis
    by (auto simp: FindSubmatch_def UserEmailPattern_def class_star_def lazy_star_None greedy_star_None)
qed

lemma plain_mail:
  assumes "login \<noteq> []" "list_all login_char login" "host \<noteq> []" "list_all (\<lambda>c. \<not> re_space c) host"
    and "CHR ''<'' \<notin> set login"
  shows "FindSubmatch EmailPattern (login @ ''@'' @ host) = Some [(''2'', host), (''1'', login)]"
proof -
  let ?k = "\<lambda>s'. or_else (if HasPrefix s' ''>'' then if TrimPrefix s' ''>'' = [] then
      Some [(''2'', take (length host - length s') host), (''1'', login)] else None else None)
      (if s' = [] then Some [(''2'', take (length host - length s') host), (''1'', login)] else None)"
  have "class_plus True (\<lambda>c. \<not> re_space c) (host @ []) ?k = Some [(''2'', host), (''1'', login)]"
    using assms by (intro greedy_plus_max) simp_all
  moreover have "\<not> HasPrefix (login @ CHR ''@'' # host) ''<''"
    using assms(1,5) by (cases login) auto
  ultimately show ?thesis
    by (auto intro!: greedy_plus_max assms(1,2) simp: FindSubmatch_def EmailPattern_def cong: if_cong)
qed

text \<open>
  The login of a mail address is what stands before its \<open>@\<close>, both in the form
  \<open>Name <login@host>\<close>, with any blanks before the bracket, and in the plain form \<open>login@host\<close>.
\<close>

theorem GetLoginFromEmail_login:
  assumes "CHR ''<'' \<notin> set name" and "list_all any_char name" and "name = [] \<or> \<not> re_space (last name)"
    and "list_all re_space sp" and "login \<noteq> []" and "list_all login_char login"
    and "host \<noteq> []" and "list_all (\<lambda>c. \<not> re_space c) host" and "CHR ''<'' \<notin> set (login @ host)"
  shows "GetLoginFromEmail (name @ sp @ ''<'' @ login @ ''@'' @ host @ ''>'') = login \<and>
     GetLoginFromEmail (login @ ''@'' @ host) = login"
proof
  let ?mail = "login @ ''@'' @ host @ ''>''"
  let ?bracket = "RSeq (RGrp ''2'' (RPlus True login_char)) (RSeq (RLit ''@'')
     (RSeq (RGrp ''3'' (RStar True (\<lambda>c. \<not> re_space c))) (RLit ''>'')))"
  let ?fin = "\<lambda>s' c. if s' = [] then Some c else None"
  let ?s = "name @ sp @ CHR ''<'' # ?mail"
  define k where "k = (\<lambda>s'. greedy_star re_space s' (\<lambda>t. if HasPrefix t ''<'' then
    rmatch ?bracket (TrimPrefix t ''<'') [(''1'', take (length ?s - length s') ?s)] ?fin else None))"
  have "k (sp @ CHR ''<'' # ?mail) = Some [(''3'', host), (''2'', login), (''1'', name)]"
    unfolding k_def by (rule blanks_then_bracket [OF assms(4)])
      (simp add: bracketed_mail [OF assms(5,6,8), simplified])
  moreover have "k (u2 @ sp @ CHR ''<'' # ?mail) = None" if "name = u1 @ u2" "u2 \<noteq> []" for u1 u2
    unfolding k_def using that assms(1,3) by (intro no_bracket_yet) auto
  ultimately have "lazy_star any_char ?s k = Some [(''3'', host), (''2'', login), (''1'', name)]"
    by (intro lazy_star_Some assms)
  moreover have "FindSubmatch UserEmailPattern ?s = lazy_star any_char ?s k"
    by (simp only: FindSubmatch_def UserEmailPattern_def k_def rmatch.simps class_star_def if_True if_False)
  ultimately have "FindSubmatch UserEmailPattern ?s = Some [(''3'', host), (''2'', login), (''1'', name)]"
    by simp
  then show "GetLoginFromEmail (name @ sp @ ''<'' @ ?mail) = login"
    by (simp add: GetLoginFromEmail_def capture_def)
  show "GetLoginFromEmail (login @ ''@'' @ host) = login"
    using no_bracket_no_match [of "login @ ''@'' @ host"] plain_mail [OF assms(5-8)] assms(9)
    by (simp add: GetLoginFromEmail_def capture_def)
qed

theorem GetLoginFromEmail_login_witness:
  "GetLoginFromEmail ''Jiang Xin  <jx@example.com>'' = ''jx'' \<and> GetLoginFromEmail ''jx@example.com'' = ''jx''"
proof -
  have "CHR ''<'' \<notin> set ''Jiang Xin''" "list_all any_char ''Jiang Xin''" "\<not> re_space (last ''Jiang Xin'')"
    "list_all re_space ''  ''" "list_all login_char ''jx''" "list_all (\<lambda>c. \<not> re_space c) ''example.com''"
    "CHR ''<'' \<notin> set (''jx'' @ ''example.com'')" by code_simp+
  then show ?thesis
    using GetLoginFromEmail_login [of "''Jiang Xin''" "''  ''" "''jx''" "''example.com''"] by simp
qed

end
