(* ===== verification/SSH_Info.thy ===== *)
theory SSH_Info
  imports Git_URL Shell
begin

text \<open>
  The ssh command line (helper/ssh.go) and the Smart Submit Handler information a review server
  publishes (helper/ssh-info.go): parsing, validation, the query over ssh or http, and the two
  caches in front of it. Environment, git configuration, processes, network, clock and the JSON
  codec are fields of the record \<open>ssh_env\<close>.
\<close>

section \<open>Data\<close>

record SSHInfo =
  PushURL :: string
  si_Host :: string
  si_Port :: int
  si_User :: string
  ProtoType :: string
  ProtoVersion :: int
  ReviewRefPattern :: string
  Expire :: int

definition SSHInfo0 :: SSHInfo where
  "SSHInfo0 = \<lparr>PushURL = [], si_Host = [], si_Port = 0, si_User = [], ProtoType = [], ProtoVersion = 0,
     ReviewRefPattern = [], Expire = 0\<rparr>"

datatype http_outcome = BadRequest string | NoResponse string | Response int string

record ssh_env =
  se_Getenv :: "string \<Rightarrow> string"
  se_GitConfig :: "string \<Rightarrow> string"
  se_RunOK :: "string list \<Rightarrow> bool"                 \<comment> \<open>Run within the time limit\<close>
  se_Output :: "string list \<Rightarrow> string + string"     \<comment> \<open>Output within the time limit\<close>
  se_HTTP :: "(int \<times> string) option \<Rightarrow> string \<Rightarrow> http_outcome"   \<comment> \<open>with the mocked reply\<close>
  se_Unmarshal :: "string \<Rightarrow> string + SSHInfo"
  se_Marshal :: "SSHInfo \<Rightarrow> string"
  se_MockResponse :: string
  se_MockStatus :: int
  se_Now :: int                                     \<comment> \<open>seconds since the epoch\<close>
  se_ZoneOffset :: int                              \<comment> \<open>seconds the local zone is ahead of UTC\<close>
  se_ParseTime :: "string \<Rightarrow> int option"             \<comment> \<open>reading the layout as UTC\<close>
  se_FormatTime :: "int \<Rightarrow> string"                   \<comment> \<open>printing the layout in UTC\<close>

definition ProtoTypeAGit :: string where "ProtoTypeAGit = ''agit''"
definition ProtoTypeGitea :: string where "ProtoTypeGitea = ''gitea''"
definition ProtoTypeGerrit :: string where "ProtoTypeGerrit = ''gerrit''"

section \<open>The ssh command (helper/ssh.go)\<close>

datatype SSHVariant =
  SSHVariantAuto | SSHVariantSimple | SSHVariantSSH | SSHVariantPlink | SSHVariantPutty | SSHVariantTortoisePlink

record SSHCmd =
  sc_ssh :: string
  sc_args :: "string list"
  sc_variant :: SSHVariant

definition NewSSHCmd :: "ssh_env \<Rightarrow> SSHCmd" where
  "NewSSHCmd env =
     (let c = se_Getenv env ''GIT_SSH_COMMAND'';
          cmd = (if c = [] then se_GitConfig env ''core.sshcommand'' else c);
          (ssh, args) = (if cmd \<noteq> [] then (let s = NewShellCmd cmd True in (Cmd s, Args s))
                         else (se_Getenv env ''GIT_SSH'', []))
      in \<lparr>sc_ssh = (if ssh = [] then ''ssh'' else ssh), sc_args = args, sc_variant = SSHVariantAuto\<rparr>)"

definition settingVariant :: "string \<Rightarrow> SSHVariant" where
  "settingVariant setting =
     (let s = ToLower setting in
      if s = ''auto'' then SSHVariantAuto
      else if s = ''plink'' then SSHVariantPlink
      else if s = ''putty'' then SSHVariantPutty
      else if s = ''tortoiseplink'' then SSHVariantTortoisePlink
      else if s = ''simple'' then SSHVariantSimple
      else SSHVariantSSH)"

definition programVariant :: "string \<Rightarrow> SSHVariant" where
  "programVariant ssh =
     (let s = ToLower (Base ssh) in
      if s = ''ssh'' \<or> s = ''ssh.exe'' then SSHVariantSSH
      else if s = ''plink'' \<or> s = ''plink.exe'' then SSHVariantPlink
      else if s = ''tortoiseplink'' \<or> s = ''tortoiseplink.exe'' then SSHVariantTortoisePlink
      else SSHVariantAuto)"

text \<open>The variant, remembered in the command object.\<close>

definition Variant :: "ssh_env \<Rightarrow> SSHCmd \<Rightarrow> SSHCmd \<times> SSHVariant" where
  "Variant env v =
     (if sc_variant v \<noteq> SSHVariantAuto then (v, sc_variant v)
      else
        let e = se_Getenv env ''GIT_SSH_VARIANT'';
            setting = (if e = [] then se_GitConfig env ''ssh.variant'' else e);
            w = (if setting \<noteq> [] then settingVariant setting else programVariant (sc_ssh v));
            w' = (if w = SSHVariantAuto
                  then if se_RunOK env [sc_ssh v, ''-G'', ''127.0.0.1''] then SSHVariantSSH else SSHVariantSimple
                  else w)
        in (v\<lparr>sc_variant := w'\<rparr>, w'))"

definition portArgs :: "SSHVariant \<Rightarrow> int \<Rightarrow> string list result" where
  "portArgs w port =
     (if port > 0 \<and> port \<noteq> 22 then
        (case w of SSHVariantSSH \<Rightarrow> Inr [''-p'', Itoa port]
         | SSHVariantPutty \<Rightarrow> Inr [''-P'', Itoa port]
         | SSHVariantPlink \<Rightarrow> Inr [''-P'', Itoa port]
         | SSHVariantTortoisePlink \<Rightarrow> Inr [''-P'', Itoa port]
         | SSHVariantSimple \<Rightarrow> Inl (Fatal (''ssh variant '' @ sq ''simple'' @ '' does not support setting port''))
         | SSHVariantAuto \<Rightarrow> Inr [])
      else Inr [])"

definition SSHCommand :: "ssh_env \<Rightarrow> SSHCmd \<Rightarrow> string \<Rightarrow> int \<Rightarrow> string list \<Rightarrow> (SSHCmd \<times> string list \<times> string list) result" where
  "SSHCommand env v host port envs =
     (let (v', w) = Variant env v;
          cmdArgs = [sc_ssh v] @ sc_args v @
            (if w = SSHVariantSSH then concat (map (\<lambda>e. [''-o'', ''SendEnv='' @ hd (StrSplit e CHR ''='')]) envs) else []) @
            (if w = SSHVariantTortoisePlink then [''-batch''] else [])
      in bind_result (portArgs w port)
           (\<lambda>ps. Inr (v', cmdArgs @ ps @ (if host \<noteq> [] then [host] else []), envs)))"

section \<open>Reading the information\<close>

definition isLetter :: "char \<Rightarrow> bool" where
  "isLetter c \<longleftrightarrow> (CHR ''a'' \<le> c \<and> c \<le> CHR ''z'') \<or> (CHR ''A'' \<le> c \<and> c \<le> CHR ''Z'')"

definition hostnamePattern :: regexp where
  "hostnamePattern =
     RSeq (RCls (\<lambda>c. isDigit c \<or> isLetter c)) (RStar True (\<lambda>c. isDigit c \<or> isLetter c \<or> c \<in> set ''.-''))"

definition usernamePattern :: regexp where
  "usernamePattern =
     RSeq (RCls (\<lambda>c. isDigit c \<or> isLetter c)) (RStar True (\<lambda>c. isDigit c \<or> isLetter c \<or> c \<in> set ''._-''))"

definition sshInfoPattern :: regexp where
  "sshInfoPattern = RSeq (RPlus True (\<lambda>c. \<not> re_space c)) (RSeq (RLit '' '') (RPlus True isDigit))"

definition GetReviewRefOptions :: "SSHInfo \<Rightarrow> string \<Rightarrow> string \<Rightarrow> (string \<times> string list) result" where
  "GetReviewRefOptions v cid patch =
     (if ReviewRefPattern v = [] then Inl (Error ''empty review_ref in ssh_info'')
      else
        let patch' = (if patch = [] \<or> patch = ''0'' then ''head'' else patch) in
        bind_result (ReplaceMacros (ReviewRefPattern v) [''id'' \<mapsto> cid, ''patch'' \<mapsto> patch'])
          (\<lambda>ref. Inr (ref, if ProtoType v = ProtoTypeAGit \<and> ProtoVersion v > 2 then [''review='' @ cid] else [])))"

definition Validate :: "SSHInfo \<Rightarrow> SSHInfo result" where
  "Validate v =
     (if si_Host v \<noteq> [] \<and> \<not> MatchString hostnamePattern (si_Host v)
      then Inl (Error (''ssh_info has invalid host name: '' @ si_Host v))
      else if si_User v \<noteq> [] \<and> \<not> MatchString usernamePattern (si_User v)
      then Inl (Error (''ssh_info has invalid user name: '' @ si_User v))
      else Inr v)"

definition sshInfoFromString :: "ssh_env \<Rightarrow> string \<Rightarrow> SSHInfo result" where
  "sshInfoFromString env data0 =
     (let d = TrimSpace data0 in
      if length d = 0 then Inl (Error ''empty ssh_info'')
      else if HasPrefix d ''<'' then Inl (Error ''ssh_info returns a normal HTML response'')
      else if d = ''NOT_AVAILABLE'' then Inr (SSHInfo0\<lparr>ProtoType := ProtoTypeGerrit\<rparr>)
      else bind_result
        (if \<not> CHR 0x0A \<in> set d \<and> MatchString sshInfoPattern d then
           (case CutFirst d '' '' of
              None \<Rightarrow> Inl (Error (''bad format: '' @ d))
            | Some (h, p) \<Rightarrow>
                (case Atoi p of
                   None \<Rightarrow> Inl (Error (''bad port number '' @ sq p @ '': strconv.Atoi: parsing '' @ dq p @ '': value out of range''))
                 | Some port \<Rightarrow> Inr (SSHInfo0\<lparr>si_Port := port, si_Host := h, ProtoType := ProtoTypeGerrit\<rparr>)))
         else (case se_Unmarshal env d of
             Inl e \<Rightarrow> Inl (Error (''invalid ssh_info response: '' @ e))
           | Inr i \<Rightarrow> Inr i))
        Validate)"

section \<open>The query\<close>

definition mocked :: "ssh_env \<Rightarrow> bool" where
  "mocked env \<longleftrightarrow> se_MockResponse env \<noteq> [] \<or> se_MockStatus env \<noteq> 0"

text \<open>At most 100 lines of the body are read.\<close>

fun firstLines :: "nat \<Rightarrow> string \<Rightarrow> string" where
  "firstLines 0 s = []"
| "firstLines (Suc n) s =
     (case CutFirst s [CHR 0x0A] of None \<Rightarrow> s | Some (l, r) \<Rightarrow> l @ [CHR 0x0A] @ firstLines n r)"

definition sshInfoFromAPI :: "ssh_env \<Rightarrow> GitURL \<Rightarrow> SSHInfo result" where
  "sshInfoFromAPI env url =
     (let infoURL = GetRootURL url @ ''/ssh_info'';
          mock = (if mocked env
                  then Some (if se_MockStatus env = 0 then 200 else se_MockStatus env, se_MockResponse env)
                  else None)
      in case se_HTTP env mock infoURL of
           BadRequest e \<Rightarrow> Inl (Error (''bad ssh_info access to '' @ sq infoURL @ '': '' @ e))
         | NoResponse e \<Rightarrow> Inl (Error (''bad ssh_info request to '' @ sq infoURL @ '': '' @ e))
         | Response status body \<Rightarrow>
             if status \<noteq> 200 \<and> status \<noteq> 201 then
               Inl (Error (Itoa status @ '': bad ssh_info response of '' @ sq infoURL))
             else case sshInfoFromString env (firstLines 100 body) of
                 Inl e \<Rightarrow> Inl (Error (''fail to run ssh_info API on '' @ GetRootURL url @ '': '' @ errText e))
               | Inr i \<Rightarrow> Inr i)"

text \<open>The answer of the ssh server, real or mocked.\<close>

definition commandAnswer :: "ssh_env \<Rightarrow> string list \<Rightarrow> SSHInfo result" where
  "commandAnswer env cmdArgs =
     (if mocked env then
        let st = (if se_MockStatus env < 400 then 0 else se_MockStatus env) in
        if st \<noteq> 0 then Inl (Error (''exit '' @ Itoa st)) else sshInfoFromString env (se_MockResponse env)
      else case se_Output env cmdArgs of
          Inl e \<Rightarrow> Inl (Error (''pipe ssh_info cmd failed: '' @ e))
        | Inr out \<Rightarrow> sshInfoFromString env out)"

text \<open>\<open>query\<close> is the recursive call of \<open>querySSHInfo\<close>; \<open>None\<close>: not returned within the fuel.\<close>

definition sshInfoFromCommand ::
  "ssh_env \<Rightarrow> (string \<Rightarrow> SSHInfo result option) \<Rightarrow> GitURL \<Rightarrow> SSHInfo result option" where
  "sshInfoFromCommand env query url =
     (if \<not> IsSSH url then Some (Inl (Error ''bad protocol, ssh_info only apply for SSH''))
      else case SSHCommand env (NewSSHCmd env) (UserHost url) (Port url) [] of
          Inl e \<Rightarrow> Some (Inl e)
        | Inr (_, cmdArgs, _) \<Rightarrow>
            (case commandAnswer env (cmdArgs @ [''ssh_info'']) of
               Inr i \<Rightarrow> Some (Inr i)
             | Inl _ \<Rightarrow>
                 if Port url = 29418
                 then Some (Inr (SSHInfo0\<lparr>si_Host := Host url, si_Port := Port url, ProtoType := ProtoTypeGerrit\<rparr>))
                 else query (Host url)))"

text \<open>An error that is returned, as opposed to the end of the process.\<close>

fun is_Error :: "'a result \<Rightarrow> bool" where
  "is_Error (Inl (Error _)) = True"
| "is_Error _ = False"

fun querySSHInfo :: "nat \<Rightarrow> ssh_env \<Rightarrow> string \<Rightarrow> SSHInfo result option" where
  "querySSHInfo 0 env address = None"
| "querySSHInfo (Suc n) env address =
     (let e = se_Getenv env ''REPO_HOST_PORT_INFO'' in
      if e \<noteq> [] then Some (sshInfoFromString env e)
      else
        let addr = TrimPrefix address ''persistent-'' in
        if addr = [] then Some (Inr SSHInfo0)
        else if HasPrefix addr ''sso:'' \<or> se_Getenv env ''REPO_IGNORE_SSH_INFO'' \<noteq> []
        then Some (Inr (SSHInfo0\<lparr>ProtoType := ProtoTypeGerrit\<rparr>))
        else case ParseGitURL addr of
            None \<Rightarrow>
              (case querySSHInfo n env (''https://'' @ addr) of None \<Rightarrow> None
               | Some r \<Rightarrow> if is_Error r then querySSHInfo n env (''http://'' @ addr) else Some r)
          | Some url \<Rightarrow>
              if IsSSH url then sshInfoFromCommand env (querySSHInfo n env) url
              else Some (sshInfoFromAPI env url))"

section \<open>The caches\<close>

definition urlToKey :: "string \<Rightarrow> string" where
  "urlToKey address =
     (case ParseGitURL address of None \<Rightarrow> []
      | Some u \<Rightarrow>
        if IsHTTP u then
          Proto u @ ''://'' @ Host u @
          (if Port u > 0 \<and> Port u \<noteq> 80 \<and> Port u \<noteq> 443 then '':'' @ Itoa (Port u) else [])
        else if IsSSH u then
          Proto u @ ''://'' @ Host u @
          (if Port u > 0 \<and> Port u \<noteq> 22 then '':'' @ Itoa (Port u) else [])
        else [])"

text \<open>The query object: \<open>cfg\<close> is \<open>None\<close> when there is no cache file. \<open>saved\<close> counts as the file's
  content after \<^verbatim>\<open>Save\<close>; \<open>internalCache\<close> is the package's map, here part of the state.\<close>

record SSHInfoQuery =
  CacheFile :: string
  cfg :: "(string \<rightharpoonup> string) option"
  internalCache :: "string \<rightharpoonup> SSHInfo result"
  saved :: "(string \<rightharpoonup> string) option"

definition cfgGet :: "(string \<rightharpoonup> string) \<Rightarrow> string \<Rightarrow> string" where
  "cfgGet c k = (case c k of None \<Rightarrow> [] | Some v \<Rightarrow> v)"

definition sshInfoKey :: "string \<Rightarrow> string" where "sshInfoKey key = ''manifest.remote.'' @ key @ ''.sshinfo''"
definition expireKey :: "string \<Rightarrow> string" where "expireKey key = ''manifest.remote.'' @ key @ ''.expire''"

definition sshInfoCacheDefaultExpire :: int where "sshInfoCacheDefaultExpire = 3600 * 12"

definition NewSSHInfoQuery :: "(string \<Rightarrow> (string \<rightharpoonup> string) option) \<Rightarrow> (string \<rightharpoonup> SSHInfo result) \<Rightarrow> string \<Rightarrow> SSHInfoQuery" where
  "NewSSHInfoQuery loadConfig ic cacheFile =
     \<lparr>CacheFile = cacheFile,
      cfg = (if cacheFile \<noteq> [] then (case loadConfig cacheFile of None \<Rightarrow> Some Map.empty | Some c \<Rightarrow> Some c) else None),
      internalCache = ic, saved = None\<rparr>"

text \<open>\<^verbatim>\<open>time.Parse\<close> reads the layout as UTC; \<^verbatim>\<open>time.Now().Format\<close> prints local time.\<close>

definition cacheLookup :: "ssh_env \<Rightarrow> (string \<rightharpoonup> string) \<Rightarrow> string \<Rightarrow> SSHInfo option" where
  "cacheLookup env c key =
     (let d = cfgGet c (sshInfoKey key); ex = cfgGet c (expireKey key) in
      if d = [] \<or> ex = [] then None
      else case se_ParseTime env ex of None \<Rightarrow> None
        | Some t \<Rightarrow>
            if t > se_Now env then
              (case se_Unmarshal env d of Inl _ \<Rightarrow> None
               | Inr i \<Rightarrow> if ProtoType i \<noteq> [] then Some i else None)
            else None)"

definition cacheStore :: "ssh_env \<Rightarrow> SSHInfoQuery \<Rightarrow> string \<Rightarrow> SSHInfo \<Rightarrow> SSHInfoQuery" where
  "cacheStore env v key i =
     (case cfg v of
        Some c \<Rightarrow>
          if CacheFile v \<noteq> [] then
            let c' = c(sshInfoKey key \<mapsto> se_Marshal env i,
                       expireKey key \<mapsto> se_FormatTime env (se_Now env + sshInfoCacheDefaultExpire + se_ZoneOffset env))
            in v\<lparr>cfg := Some c', saved := Some c'\<rparr>
          else v
      | None \<Rightarrow> v)"

definition GetSSHInfo :: "nat \<Rightarrow> ssh_env \<Rightarrow> SSHInfoQuery \<Rightarrow> string \<Rightarrow> bool \<Rightarrow> (SSHInfoQuery \<times> SSHInfo result) option" where
  "GetSSHInfo fuel env v address useCache =
     (let key = urlToKey address in
      if key = [] then Some (v, Inl (Error (''bad address for review '' @ sq address)))
      else case internalCache v key of
          Some r \<Rightarrow> Some (v, r)
        | None \<Rightarrow>
          (case (if CacheFile v \<noteq> [] \<and> useCache then
                   (case cfg v of None \<Rightarrow> None | Some c \<Rightarrow> cacheLookup env c key) else None) of
             Some i \<Rightarrow> Some (v, Inr i)
           | None \<Rightarrow>
             (case querySSHInfo fuel env address of None \<Rightarrow> None
              | Some (Inl (Error e)) \<Rightarrow>
                  Some (v\<lparr>internalCache := (internalCache v)(key \<mapsto> Inl (Error e))\<rparr>, Inl (Error e))
              | Some (Inl e) \<Rightarrow> Some (v, Inl e)
              | Some (Inr i) \<Rightarrow>
                  Some (cacheStore env (v\<lparr>internalCache := (internalCache v)(key \<mapsto> Inr i)\<rparr>) key i, Inr i))))"

end
