(* ===== verification/Version.thy ===== *)
theory Version
  imports Prelude
begin

text \<open>
  Package version (version/version.go): comparison of dotted versions and the check of the
  installed git against the table of known issues. The comparison is shown to be a total
  preorder by refinement to the lexicographic order of key lists, in which a non-numeric part
  is below the end of the version and a numeric part above it.
\<close>

section \<open>Comparison\<close>

fun compareParts :: "string list \<Rightarrow> string list \<Rightarrow> int" where
  "compareParts (l # ls) (r # rs) =
     (case (Atoi l, Atoi r) of
        (None, None) \<Rightarrow> if l > r then 1 else if l < r then -1 else compareParts ls rs
      | (None, Some _) \<Rightarrow> -1
      | (Some _, None) \<Rightarrow> 1
      | (Some a, Some b) \<Rightarrow> if a > b then 1 else if a < b then -1 else compareParts ls rs)"
| "compareParts (l # ls) [] = (if Atoi l \<noteq> None then 1 else -1)"
| "compareParts [] (r # rs) = (if Atoi r \<noteq> None then -1 else 1)"
| "compareParts [] [] = 0"

definition CompareVersion :: "string \<Rightarrow> string \<Rightarrow> int" where
  "CompareVersion left right = compareParts (StrSplit left CHR ''.'') (StrSplit right CHR ''.'')"

section \<open>The check of the installed git\<close>

record gitCompatibleIssue =
  ci_Version :: string
  ci_Message :: string
  ci_Fatal :: bool

definition gitCompatibleIssues :: "gitCompatibleIssue list" where
  "gitCompatibleIssues =
     [\<lparr>ci_Version = ''1.7.10'', ci_Message = ''Git config extension (by include.path directive) is only supported in git 1.7.10 and above'', ci_Fatal = True\<rparr>,
      \<lparr>ci_Version = ''2.2.0'', ci_Message = ''The git-interpret-trailers command introduced in git 2.2.0 is used for the Gerrit commit-msg hook.'', ci_Fatal = False\<rparr>,
      \<lparr>ci_Version = ''2.9.0'', ci_Message = ''sending custom HTTP headers is only supported in git 2.9.0 and above'', ci_Fatal = False\<rparr>,
      \<lparr>ci_Version = ''2.10.0'', ci_Message = ''Some review options are sent using git push-options which are available in git 2.10.0 and above.'', ci_Fatal = False\<rparr>]"

datatype report = LogError string | LogWarn string | Printed string

text \<open>State of the scan: the highest fatal and the highest advisory version missed, and the
  messages.\<close>

fun scanIssue :: "string \<Rightarrow> string \<times> string \<times> string list \<Rightarrow> gitCompatibleIssue \<Rightarrow> string \<times> string \<times> string list" where
  "scanIssue git (lc, hc, msgs) issue =
     (if CompareVersion git (ci_Version issue) < 0 then
        (if ci_Fatal issue then
           (if CompareVersion (ci_Version issue) lc > 0 then ci_Version issue else lc, hc,
            msgs @ [ci_Message issue])
         else
           (lc, if CompareVersion (ci_Version issue) hc > 0 then ci_Version issue else hc,
            msgs @ [ci_Message issue]))
      else (lc, hc, msgs))"

text \<open>Result: what is reported, and whether the process exits with status 1.\<close>

definition ValidateGitVersion :: "string \<Rightarrow> bool \<Rightarrow> report list \<times> bool" where
  "ValidateGitVersion GitVersion suppressIssues =
     (let (lc, hc, msgs) = foldl (scanIssue GitVersion) ([], [], []) gitCompatibleIssues;
          first = (if GitVersion = [] then Some [LogError (''Please install git to version '' @ lc @ '' or above'')]
                   else if lc \<noteq> [] then Some [LogError (''Please upgrade git to version '' @ lc @ '' or above'')]
                   else if hc \<noteq> [] then
                     Some (if suppressIssues then []
                           else [LogWarn (''You are suggested to install or upgrade git to version '' @ hc @ '' or above'')])
                   else None)
      in case first of None \<Rightarrow> ([], False)
         | Some rs \<Rightarrow> (rs @ (if suppressIssues then [] else map Printed msgs),
                       lc \<noteq> [] \<or> GitVersion = []))"

section \<open>Keys\<close>

datatype vkey = VStr string | VEnd | VNum int

instantiation vkey :: linorder
begin

fun less_eq_vkey :: "vkey \<Rightarrow> vkey \<Rightarrow> bool" where
  "less_eq_vkey (VStr a) (VStr b) = (a \<le> b)"
| "less_eq_vkey (VStr _) _ = True"
| "less_eq_vkey VEnd (VStr _) = False"
| "less_eq_vkey VEnd _ = True"
| "less_eq_vkey (VNum a) (VNum b) = (a \<le> b)"
| "less_eq_vkey (VNum _) _ = False"

definition less_vkey :: "vkey \<Rightarrow> vkey \<Rightarrow> bool" where
  "less_vkey x y = (x \<le> y \<and> \<not> y \<le> x)"

instance
proof
  fix x y z :: vkey
  show "(x < y) = (x \<le> y \<and> \<not> y \<le> x)" by (rule less_vkey_def)
  show "x \<le> x" by (cases x) auto
  show "x \<le> y \<Longrightarrow> y \<le> z \<Longrightarrow> x \<le> z" by (cases x; cases y; cases z) auto
  show "x \<le> y \<Longrightarrow> y \<le> x \<Longrightarrow> x = y" by (cases x; cases y) auto
  show "x \<le> y \<or> y \<le> x" by (cases x; cases y) auto
qed

end

definition part_key :: "string \<Rightarrow> vkey" where
  "part_key s = (case Atoi s of None \<Rightarrow> VStr s | Some n \<Rightarrow> VNum n)"

definition version_key :: "string \<Rightarrow> vkey list" where
  "version_key v = map part_key (StrSplit v CHR ''.'') @ [VEnd]"

definition order_sign :: "'a::linorder \<Rightarrow> 'a \<Rightarrow> int" where
  "order_sign x y = (if x < y then -1 else if x > y then 1 else 0)"

lemma less_vkey_simps [simp]:
  "VStr a < VStr b \<longleftrightarrow> a < b" "VNum m < VNum n \<longleftrightarrow> m < n"
  "VStr a < VEnd" "VEnd < VNum n" "VStr a < VNum n"
  "\<not> VEnd < VStr a" "\<not> VNum n < VEnd" "\<not> VNum n < VStr a" "\<not> VEnd < VEnd"
  by (auto simp: less_vkey_def)

lemma compareParts_key:
  "compareParts ls rs = order_sign (map part_key ls @ [VEnd]) (map part_key rs @ [VEnd])"
proof (induction ls rs rule: compareParts.induct)
  case (1 l ls r rs)
  then show ?case
    by (cases "Atoi l"; cases "Atoi r") (auto simp: part_key_def order_sign_def)
next
  case (2 l ls)
  then show ?case by (cases "Atoi l") (auto simp: part_key_def order_sign_def)
next
  case (3 r rs)
  then show ?case by (cases "Atoi r") (auto simp: part_key_def order_sign_def)
next
  case 4
  then show ?case by (simp add: order_sign_def)
qed

lemma CompareVersion_key: "CompareVersion x y = order_sign (version_key x) (version_key y)"
  by (simp add: CompareVersion_def version_key_def compareParts_key)

text \<open>
  \<open>CompareVersion\<close> is the sign of a linear order on version keys. Hence it is
  antisymmetric up to sign, total and transitive: numeric parts compare as numbers, a numeric
  extension is newer than the version it extends and a textual one (a release candidate) older.
\<close>

theorem CompareVersion_order:
  "CompareVersion a b = order_sign (version_key a) (version_key b) \<and>
   CompareVersion b a = - CompareVersion a b \<and>
   (CompareVersion a b \<le> 0 \<longrightarrow> CompareVersion b c \<le> 0 \<longrightarrow> CompareVersion a c \<le> 0)"
  by (auto simp: CompareVersion_key order_sign_def split: if_splits)

theorem CompareVersion_order_witness:
  "CompareVersion ''2.9.0'' ''2.10.0'' \<le> 0 \<and> CompareVersion ''2.10.0.rc1'' ''2.10.0'' \<le> 0 \<and>
   CompareVersion ''2.9.0'' ''2.10.0'' \<le> 0"
proof -
  have "CompareVersion ''2.9.0'' ''2.10.0.rc1'' \<le> 0" "CompareVersion ''2.10.0.rc1'' ''2.10.0'' \<le> 0"
    by code_simp+
  then show ?thesis
    using CompareVersion_order [of "''2.9.0''" "''2.10.0.rc1''" "''2.10.0''"] by blast
qed

lemma CompareVersion_trans:
  "CompareVersion a b < 0 \<Longrightarrow> CompareVersion b c < 0 \<Longrightarrow> CompareVersion a c < 0"
  by (auto simp: CompareVersion_key order_sign_def split: if_splits)

lemma issue_versions:
  "CompareVersion ''1.7.10'' ''2.2.0'' < 0" "CompareVersion ''2.2.0'' ''2.9.0'' < 0"
  "CompareVersion ''2.9.0'' ''2.10.0'' < 0"
  "CompareVersion ''1.7.10'' [] = 1" "CompareVersion ''2.2.0'' [] = 1"
  "CompareVersion ''2.9.0'' [] = 1" "CompareVersion ''2.10.0'' [] = 1"
  "CompareVersion ''2.9.0'' ''2.2.0'' = 1" "CompareVersion ''2.10.0'' ''2.9.0'' = 1"
  "CompareVersion [] ''1.7.10'' = -1"
  by code_simp+

lemmas older_chain =
  CompareVersion_trans [OF _ issue_versions(1)] CompareVersion_trans [OF _ issue_versions(2)]
  CompareVersion_trans [OF _ issue_versions(3)]

text \<open>The scan, by where the installed version falls among the four of the table.\<close>

lemma scan_issues:
  "let (lc, hc, msgs) = foldl (scanIssue v) ([], [], []) gitCompatibleIssues in
     lc = (if CompareVersion v ''1.7.10'' < 0 then ''1.7.10'' else []) \<and>
     hc = (if CompareVersion v ''2.10.0'' < 0 then ''2.10.0'' else []) \<and>
     (msgs = [] \<longleftrightarrow> \<not> CompareVersion v ''2.10.0'' < 0)"
proof -
  note older_chain [of v]
  then consider
      "\<not> CompareVersion v ''1.7.10'' < 0" "\<not> CompareVersion v ''2.2.0'' < 0"
      "\<not> CompareVersion v ''2.9.0'' < 0" "\<not> CompareVersion v ''2.10.0'' < 0"
    | "\<not> CompareVersion v ''1.7.10'' < 0" "\<not> CompareVersion v ''2.2.0'' < 0"
      "\<not> CompareVersion v ''2.9.0'' < 0" "CompareVersion v ''2.10.0'' < 0"
    | "\<not> CompareVersion v ''1.7.10'' < 0" "\<not> CompareVersion v ''2.2.0'' < 0"
      "CompareVersion v ''2.9.0'' < 0" "CompareVersion v ''2.10.0'' < 0"
    | "\<not> CompareVersion v ''1.7.10'' < 0" "CompareVersion v ''2.2.0'' < 0"
      "CompareVersion v ''2.9.0'' < 0" "CompareVersion v ''2.10.0'' < 0"
    | "CompareVersion v ''1.7.10'' < 0" "CompareVersion v ''2.2.0'' < 0"
      "CompareVersion v ''2.9.0'' < 0" "CompareVersion v ''2.10.0'' < 0"
    by argo
  then show ?thesis
    by cases (simp_all add: gitCompatibleIssues_def issue_versions)
qed

text \<open>
  The process ends exactly when git is missing or older than 1.7.10, the one version
  of the table marked fatal. Nothing is reported exactly when git is at least 2.10.0, or when the
  issues are suppressed and git is at least 1.7.10.
\<close>

theorem ValidateGitVersion_outcome:
  "snd (ValidateGitVersion v suppress) = (CompareVersion v ''1.7.10'' < 0) \<and>
   (fst (ValidateGitVersion v suppress) = [] \<longleftrightarrow>
      CompareVersion v ''2.10.0'' \<ge> 0 \<or> suppress \<and> CompareVersion v ''1.7.10'' \<ge> 0)"
proof -
  obtain lc hc msgs where fold: "foldl (scanIssue v) ([], [], []) gitCompatibleIssues = (lc, hc, msgs)"
    by (metis prod_cases3)
  have "v = [] \<Longrightarrow> CompareVersion v ''1.7.10'' < 0" by (simp add: issue_versions)
  moreover have "CompareVersion v ''1.7.10'' < 0 \<Longrightarrow> CompareVersion v ''2.10.0'' < 0"
    by (rule older_chain(1) [THEN older_chain(2), THEN older_chain(3)])
  ultimately show ?thesis
    using scan_issues [of v] by (auto simp: ValidateGitVersion_def fold not_less split: if_splits)
qed

end
