(* ===== verification/Encode.thy ===== *)
theory Encode
  imports Utf8
begin

text \<open>
  Package encode (encode/encode.go): push options are sent as they are when they are one line of
  ASCII, and in base64 behind a marker otherwise. The standard base64 encoding is written out,
  with a decoder to state that nothing is lost.
\<close>

section \<open>Base64\<close>

definition b64table :: string where
  "b64table = ''ABCDEFGHIJKLMNOPQRSTUVWXYZabcdefghijklmnopqrstuvwxyz0123456789+/''"

definition b64char :: "nat \<Rightarrow> char" where
  "b64char n = b64table ! (n mod 64)"

fun EncodeToString :: "string \<Rightarrow> string" where
  "EncodeToString (a # b # c # s) =
     (let n = byte a * 65536 + byte b * 256 + byte c in
      [b64char (n div 262144), b64char (n div 4096), b64char (n div 64), b64char n] @ EncodeToString s)"
| "EncodeToString [a, b] =
     (let n = byte a * 65536 + byte b * 256 in
      [b64char (n div 262144), b64char (n div 4096), b64char (n div 64), CHR ''='' ])"
| "EncodeToString [a] =
     (let n = byte a * 65536 in [b64char (n div 262144), b64char (n div 4096), CHR ''='', CHR ''='' ])"
| "EncodeToString [] = []"

section \<open>Push option values\<close>

fun encode_isASCII :: "string \<Rightarrow> bool" where
  "encode_isASCII [] = True"
| "encode_isASCII (c # s) = (if byte c > 0x7F then False else encode_isASCII s)"

definition B64Encode :: "string \<Rightarrow> string" where
  "B64Encode s =
     (if StrContains s [CHR 0x0A] \<or> \<not> encode_isASCII s
      then ''{base64}'' @ EncodeToString s else s)"

section \<open>Decoding\<close>

fun index_of :: "char \<Rightarrow> string \<Rightarrow> nat option" where
  "index_of c [] = None"
| "index_of c (d # ds) = (if c = d then Some 0 else map_option Suc (index_of c ds))"

definition b64val :: "char \<Rightarrow> nat" where
  "b64val c = (case index_of c b64table of Some n \<Rightarrow> n | None \<Rightarrow> 0)"

fun DecodeString :: "string \<Rightarrow> string" where
  "DecodeString (p # q # r # t # s) =
     (let n = b64val p * 262144 + b64val q * 4096 + b64val r * 64 + b64val t in
      if r = CHR ''='' then [char_of (n div 65536)]
      else if t = CHR ''='' then [char_of (n div 65536), char_of (n div 256)]
      else [char_of (n div 65536), char_of (n div 256), char_of n] @ DecodeString s)"
| "DecodeString _ = []"

definition B64Decode :: "string \<Rightarrow> string" where
  "B64Decode s = (if HasPrefix s ''{base64}'' then DecodeString (TrimPrefix s ''{base64}'') else s)"

lemma b64table_length: "length b64table = 64"
  by (simp add: b64table_def)

lemma index_of_nth: "distinct ds \<Longrightarrow> i < length ds \<Longrightarrow> index_of (ds ! i) ds = Some i"
proof (induction ds arbitrary: i)
  case Nil
  then show ?case by simp
next
  case (Cons d ds)
  then show ?case by (cases i) (auto simp: nth_Cons)
qed

lemma b64table_distinct: "distinct b64table" "CHR ''='' \<notin> set b64table"
  by (simp_all add: b64table_def)

lemma b64val_char [simp]: "b64val (b64char n) = n mod 64"
  by (simp add: b64val_def b64char_def index_of_nth b64table_distinct b64table_length)

lemma b64char_not_pad [simp]: "b64char n \<noteq> CHR ''=''"
proof
  assume "b64char n = CHR ''=''"
  then have "CHR ''='' \<in> set b64table"
    using nth_mem [of "n mod 64" b64table] by (simp add: b64char_def b64table_length)
  then show False using b64table_distinct(2) by blast
qed

lemma b64val_pad [simp]: "b64val CHR ''='' = 0"
  by code_simp

lemma byte_less [simp]: "byte c < 256"
  by (simp add: byte_def)

lemma char_of_byte [simp]: "char_of (byte c) = c"
  by (simp add: byte_def)

lemma char_of_mod_byte: "n mod 256 = byte c \<Longrightarrow> char_of n = c"
  by (metis char_of_byte char_of_mod_256)

text \<open>The four sextets give the number back; the shape is the simplifier's normal form.\<close>

lemma sextets_sum:
  fixes n :: nat
  assumes "n < 16777216"
  shows "n div 262144 * 262144 + n div 4096 mod 64 * 4096 + n div 64 mod 64 * 64 + n mod 64 = n"
    and "n div 262144 mod 64 = n div 262144"
proof -
  have e: "n div 4096 = n div 64 div 64" "n div 262144 = n div 64 div 64 div 64"
    by (simp_all flip: div_mult2_eq)
  have horner: "c * 262144 + r2 * 4096 + r1 * 64 + r0 = n"
    if "n = a * 64 + r0" "a = b * 64 + r1" "b = c * 64 + r2" for a b c r0 r1 r2 :: nat
    using that by simp
  show "n div 262144 * 262144 + n div 4096 mod 64 * 4096 + n div 64 mod 64 * 64 + n mod 64 = n"
    unfolding e by (rule horner) simp_all
  have "n div 262144 < 64" using assms by (simp add: less_mult_imp_div_less)
  then show "n div 262144 mod 64 = n div 262144" by simp
qed

lemma octets:
  fixes a b c :: nat
  assumes "a < 256" "b < 256" "c < 256"
  shows "(a * 65536 + b * 256 + c) div 65536 = a"
    and "(a * 65536 + b * 256 + c) div 256 mod 256 = b"
    and "(a * 65536 + b * 256 + c) mod 256 = c"
    and "a * 65536 + b * 256 + c < 16777216"
proof -
  have "(a * 65536 + b * 256 + c) div 65536 = (b * 256 + c + a * 65536) div 65536"
    by (simp add: ac_simps)
  also have "\<dots> = a" using assms by (subst div_mult_self1) auto
  finally show "(a * 65536 + b * 256 + c) div 65536 = a" .
  have e: "a * 65536 + b * 256 + c = c + (b + a * 256) * 256" by simp
  show "(a * 65536 + b * 256 + c) div 256 mod 256 = b"
    unfolding e using assms by (subst div_mult_self1) auto
  show "(a * 65536 + b * 256 + c) mod 256 = c"
    unfolding e using assms by (subst mod_mult_self1) auto
  show "a * 65536 + b * 256 + c < 16777216" using assms by linarith
qed

lemma DecodeString_EncodeToString: "DecodeString (EncodeToString s) = s"
proof (induction s rule: EncodeToString.induct)
  case (1 a b c s)
  then show ?case
    using octets [of "byte a" "byte b" "byte c"]
    by (simp add: Let_def sextets_sum char_of_mod_byte)
next
  case (2 a b)
  define n where "n = byte a * 65536 + byte b * 256"
  have "(byte a * 1024 + byte b * 4) * 64 = n" by (simp add: n_def)
  then have "n mod 64 = 0" by (metis mod_mult_self2_is_0)
  moreover have "n div 65536 = byte a" "n div 256 mod 256 = byte b" "n < 16777216"
    using octets [of "byte a" "byte b" 0] by (simp_all add: n_def)
  moreover have "EncodeToString [a, b] =
      [b64char (n div 262144), b64char (n div 4096), b64char (n div 64), CHR ''='']"
    by (simp add: n_def Let_def)
  ultimately show ?case using sextets_sum [of n] by (simp add: char_of_mod_byte)
next
  case (3 a)
  define n where "n = byte a * 65536"
  have "n = byte a * 16 * 64 * 64" by (simp add: n_def)
  then have "n mod 64 = 0" "n div 64 mod 64 = 0" by (simp_all del: mult.assoc add: mult_numeral_1_right)
  moreover have "n div 65536 = byte a" "n < 16777216"
    using octets [of "byte a" 0 0] by (simp_all add: n_def)
  moreover have "EncodeToString [a] = [b64char (n div 262144), b64char (n div 4096), CHR ''='', CHR ''='']"
    by (simp add: n_def Let_def)
  ultimately show ?case using sextets_sum [of n] by (simp add: char_of_mod_byte)
next
  case 4
  then show ?case by simp
qed

lemma encode_isASCII_iff: "encode_isASCII s \<longleftrightarrow> ascii s"
  by (induction s) auto

lemma ascii_table: "ascii b64table" "CHR 0x0A \<notin> set b64table"
  by code_simp+

lemma b64char_in: "b64char n \<in> set b64table"
  by (simp add: b64char_def b64table_length)

lemma EncodeToString_chars: "set (EncodeToString s) \<subseteq> insert CHR ''='' (set b64table)"
  by (induction s rule: EncodeToString.induct) (auto simp: Let_def b64char_in)

lemma B64Encode_line: "ascii (B64Encode s) \<and> CHR 0x0A \<notin> set (B64Encode s)"
proof (cases "StrContains s [CHR 0x0A] \<or> \<not> encode_isASCII s")
  case True
  have "ascii (EncodeToString s) \<and> CHR 0x0A \<notin> set (EncodeToString s)"
    using EncodeToString_chars [of s] ascii_table by (auto simp: ascii_def list_all_iff byte_def)
  moreover have "B64Encode s = ''{base64}'' @ EncodeToString s" using True by (simp add: B64Encode_def)
  moreover have "ascii ''{base64}''" "CHR 0x0A \<notin> set ''{base64}''" by code_simp+
  ultimately show ?thesis by (simp only: ascii_simps set_append) auto
next
  case False
  then have "CHR 0x0A \<notin> set s" using split_list [of "CHR 0x0A" s] by (fastforce simp: StrContains_iff)
  with False show ?thesis by (simp add: B64Encode_def encode_isASCII_iff)
qed

lemma B64Decode_B64Encode:
  "B64Decode (B64Encode s) = s \<or> B64Encode s = s \<and> HasPrefix s ''{base64}''"
  by (simp only: B64Encode_def B64Decode_def HasPrefix_append TrimPrefix_append
      DecodeString_EncodeToString split: if_split) simp

text \<open>
  An encoded push-option value is always one line of ASCII. The receiver, who decodes
  values behind the marker, gets the original back, unless the original is itself a line of ASCII
  that begins with the marker.
\<close>

theorem B64Encode_transport:
  "ascii (B64Encode s) \<and> CHR 0x0A \<notin> set (B64Encode s) \<and>
   (B64Decode (B64Encode s) = s \<or> B64Encode s = s \<and> HasPrefix s ''{base64}'')"
  using B64Encode_line B64Decode_B64Encode by blast

end
