(* ===== verification/Proto.thy ===== *)
theory Proto
  imports SSH_Info Version Encode
begin

text \<open>
  The review protocols (helper/proto.go, proto-agit.go, proto-gerrit.go, proto-default.go,
  proto-external.go): the git push command of an upload and the reference of a download.
  \<open>git\<close> is the version of the installed git, \<open>ver\<close> the version of this program. The external
  helper program and the JSON codec are the fields of \<open>ext_env\<close>.
\<close>

section \<open>Data\<close>

record UploadOptions =
  AutoTopic :: bool
  uo_CodeReview :: CodeReview
  Description :: string
  uo_DestBranch :: string
  Draft :: bool
  Issue :: string
  LocalBranch :: string
  MockGitPush :: bool
  NoCertChecks :: bool
  NoEmails :: bool
  OldOid :: string
  People :: "string list list"
  Private :: bool
  PushOptions :: "string list"
  RemoteName :: string
  RemoteURL :: string
  Title :: string
  WIP :: bool

record GitPushCommand =
  gp_Cmd :: string
  gp_Args :: "string list"
  gp_Env :: "string list"
  gp_GitConfig :: "string list"

definition GitCanPushOptions :: "string \<Rightarrow> bool" where
  "GitCanPushOptions git \<longleftrightarrow> CompareVersion git ''2.10.0'' \<ge> 0"

text \<open>\<^verbatim>\<open>append(cmds, "-o", x)\<close>\<close>

definition opt :: "string \<Rightarrow> string list" where "opt x = [''-o'', x]"

definition opt_if :: "bool \<Rightarrow> string \<Rightarrow> string list" where "opt_if b x = (if b then opt x else [])"

definition remoteArg :: "UploadOptions \<Rightarrow> string" where
  "remoteArg uo = (if RemoteName uo \<noteq> [] then RemoteName uo else RemoteURL uo)"

definition people :: "nat \<Rightarrow> UploadOptions \<Rightarrow> string list" where
  "people n uo = (if length (People uo) > n then People uo ! n else [])"

definition sourceRef :: "string \<Rightarrow> string" where
  "sourceRef localBranch = (if localBranch = [] then ''HEAD'' else RefsHeads @ localBranch)"

section \<open>AGit (helper/proto-agit.go)\<close>

definition NewAGitProtoHelper :: "SSHInfo \<Rightarrow> SSHInfo" where
  "NewAGitProtoHelper i =
     (if ReviewRefPattern i = [] then
        i\<lparr>ReviewRefPattern := (if ProtoVersion i \<le> 2 then ''refs/merge-requests/{id}/head'' else ''refs/changes/{id}/{patch}'')\<rparr>
      else i)"

definition supportV3 :: "SSHInfo \<Rightarrow> bool" where "supportV3 i \<longleftrightarrow> ProtoVersion i \<ge> 3"

definition agitTransport :: "string \<Rightarrow> SSHInfo \<Rightarrow> GitURL \<Rightarrow> string list \<times> string list \<times> string list" where
  "agitTransport ver i url =
     (let agent = ''git-repo-go/'' @ ver in
      if IsSSH url then
        if ProtoVersion i = 0 then ([''--receive-pack=agit-receive-pack''], [], [])
        else ([], [''AGIT_FLOW='' @ agent], [])
      else ([], [], [''http.extraHeader=AGIT-FLOW: '' @ agent]))"

text \<open>Options and reference specification by the kind of upload.\<close>

definition agitTarget :: "bool \<Rightarrow> SSHInfo \<Rightarrow> UploadOptions \<Rightarrow> (string list \<times> string) result" where
  "agitTarget canOpt i uo =
     (let local = TrimPrefix (LocalBranch uo) RefsHeads; dest = TrimPrefix (uo_DestBranch uo) RefsHeads;
          src = sourceRef local
      in if \<not> CodeReview_Empty (uo_CodeReview uo) then
           if supportV3 i then
             if \<not> canOpt then Inl (Fatal ''cannot send push options, for your git version is too low'')
             else Inr (opt (''review='' @ cr_ID (uo_CodeReview uo)), src @ '':refs/heads/'' @ dest)
           else Inr ([], src @ '':refs/for-review/'' @ cr_ID (uo_CodeReview uo))
         else Inr ([], src @ '':refs/'' @ (if Draft uo then ''drafts'' else ''for'') @ ''/'' @ dest @ ''/'' @ local))"

definition agitReviewOptions :: "UploadOptions \<Rightarrow> string list" where
  "agitReviewOptions uo =
     opt_if (Title uo \<noteq> []) (''title='' @ B64Encode (Title uo)) @
     opt_if (Description uo \<noteq> []) (''description='' @ B64Encode (Description uo)) @
     opt_if (Issue uo \<noteq> []) (''issue='' @ B64Encode (Issue uo)) @
     opt_if (people 0 uo \<noteq> []) (''reviewers='' @ B64Encode (StrJoin (people 0 uo) '','')) @
     opt_if (people 1 uo \<noteq> []) (''cc='' @ B64Encode (StrJoin (people 1 uo) '','')) @
     opt_if (NoEmails uo) ''notify=no'' @
     opt_if (Private uo) ''private=yes'' @
     opt_if (WIP uo) ''wip=yes'' @
     opt_if (OldOid uo \<noteq> []) (''old-oid='' @ OldOid uo)"

text \<open>The options of an old git, behind a percent sign of the reference specification.\<close>

definition refOptions :: "UploadOptions \<Rightarrow> string list" where
  "refOptions uo =
     map (\<lambda>u. ''r='' @ u) (people 0 uo) @ map (\<lambda>u. ''cc='' @ u) (people 1 uo) @
     (if NoEmails uo then [''notify=NONE''] else []) @
     (if Private uo then [''private''] else []) @
     (if WIP uo then [''wip''] else [])"

definition withRefOptions :: "string \<Rightarrow> string list \<Rightarrow> string" where
  "withRefOptions refSpec opts = (if opts \<noteq> [] then refSpec @ ''%'' @ StrJoin opts '','' else refSpec)"

definition AGit_GetGitPushCommand :: "string \<Rightarrow> string \<Rightarrow> SSHInfo \<Rightarrow> UploadOptions \<Rightarrow> GitPushCommand result" where
  "AGit_GetGitPushCommand git ver i uo =
     (if RemoteURL uo = [] then Inl (Error ''empty review url for helper'')
      else case ParseGitURL (RemoteURL uo) of
          None \<Rightarrow> Inl (Error (''bad review URL: '' @ RemoteURL uo))
        | Some url \<Rightarrow>
          if Proto url \<noteq> ''ssh'' \<and> Proto url \<noteq> ''http'' \<and> Proto url \<noteq> ''https''
          then Inl (Error (''bad review URL: '' @ RemoteURL uo))
          else
            let (packArgs, env, cfgs) = agitTransport ver i url;
                can = GitCanPushOptions git;
                pushOpts = (if can then concat (map opt (PushOptions uo)) else [])
            in bind_result (agitTarget can i uo) (\<lambda>(targetOpts, refSpec).
                 let reviewOpts = (if can then agitReviewOptions uo else []);
                     refSpec' = (if can then refSpec
                                 else withRefOptions refSpec
                                   (refOptions uo @ (if OldOid uo \<noteq> [] then [''old-oid='' @ OldOid uo] else [])))
                 in Inr \<lparr>gp_Cmd = ''git'',
                         gp_Args = [''push''] @ packArgs @ pushOpts @ targetOpts @ reviewOpts @ [remoteArg uo, refSpec'],
                         gp_Env = env, gp_GitConfig = cfgs\<rparr>))"

definition badID :: "string \<Rightarrow> string \<Rightarrow> string" where
  "badID what cid = ''bad '' @ what @ '' ID '' @ cid @ '': ''"

definition AGit_GetDownloadRefOptions :: "SSHInfo \<Rightarrow> string \<Rightarrow> string \<Rightarrow> (string \<times> string list) result" where
  "AGit_GetDownloadRefOptions i cid patch =
     (if Atoi cid = None then Inl (Error (badID ''review'' cid @ AtoiErr cid))
      else if patch \<noteq> [] \<and> Atoi patch = None then Inl (Error (badID ''patch'' patch @ AtoiErr patch))
      else GetReviewRefOptions i cid patch)"

section \<open>Gerrit (helper/proto-gerrit.go)\<close>

definition NewGerritProtoHelper :: "SSHInfo \<Rightarrow> SSHInfo" where
  "NewGerritProtoHelper i =
     (let i1 = (if si_User i = [] then i\<lparr>si_User := ''{email}''\<rparr> else i) in
      if ReviewRefPattern i1 = [] then i1\<lparr>ReviewRefPattern := ''refs/changes/{id:right:2}/{id}/{patch}''\<rparr> else i1)"

definition Gerrit_GetGitPushCommand :: "UploadOptions \<Rightarrow> GitPushCommand result" where
  "Gerrit_GetGitPushCommand uo =
     (if \<not> CodeReview_Empty (uo_CodeReview uo)
      then Inl (Error ''Change code review by ID is not allowed in Gerrit'')
      else if RemoteURL uo = [] then Inl (Error ''empty review url for helper'')
      else case ParseGitURL (RemoteURL uo) of
          None \<Rightarrow> Inl (Error (''bad review url: '' @ RemoteURL uo))
        | Some url \<Rightarrow>
          if \<not> IsSSH url \<and> \<not> IsHTTP url then Inl (Error (''bad review url: '' @ RemoteURL uo))
          else
            let dest = TrimPrefix (uo_DestBranch uo) RefsHeads; local = TrimPrefix (LocalBranch uo) RefsHeads in
            if dest = [] then Inl (Error ''empty dest branch for helper'')
            else
              let refSpec = sourceRef local @ '':refs/'' @ (if Draft uo then ''drafts'' else ''for'') @ ''/'' @ dest @
                    (if AutoTopic uo \<and> local \<noteq> [] then ''/'' @ local else [])
              in Inr \<lparr>gp_Cmd = ''git'',
                      gp_Args = [''push''] @ (if IsSSH url then [''--receive-pack=gerrit receive-pack''] else []) @
                        concat (map opt (PushOptions uo)) @ [remoteArg uo, withRefOptions refSpec (refOptions uo)],
                      gp_Env = [], gp_GitConfig = []\<rparr>)"

definition Gerrit_GetDownloadRefOptions :: "SSHInfo \<Rightarrow> string \<Rightarrow> string \<Rightarrow> (string \<times> string list) result" where
  "Gerrit_GetDownloadRefOptions i cr patch =
     (if Atoi cr = None then Inl (Error (badID ''review'' cr @ AtoiErr cr))
      else if patch \<noteq> [] \<and> Atoi patch = None then Inl (Error (badID ''patch'' patch @ AtoiErr patch))
      else GetReviewRefOptions i cr (if patch = [] \<or> Atoi patch = Some 0 then ''1'' else patch))"

section \<open>External helpers (helper/proto-external.go)\<close>

datatype exec_outcome = Exited string | ExitError string string | ExecError string

record ext_env =
  ee_LookPath :: "string \<Rightarrow> string option"
  ee_Run :: "string list \<Rightarrow> string \<Rightarrow> exec_outcome"
  ee_MarshalOptions :: "UploadOptions \<Rightarrow> string + string"
  ee_UnmarshalCommand :: "string \<Rightarrow> string + GitPushCommand"

definition NewExternalProtoHelper :: "SSHInfo \<Rightarrow> SSHInfo" where
  "NewExternalProtoHelper i = (if si_User i = [] then i\<lparr>si_User := ''git''\<rparr> else i)"

definition Program :: "SSHInfo \<Rightarrow> string" where
  "Program i = ''git-repo-go-helper-proto-'' @ ToLower (ProtoType i)"

definition versionArgs :: "SSHInfo \<Rightarrow> string list" where
  "versionArgs i = (if ProtoVersion i > 0 then [''--version'', Itoa (ProtoVersion i)] else [])"

text \<open>What was written to standard output before the end of the process.\<close>

fun outcome_output :: "exec_outcome \<Rightarrow> string" where
  "outcome_output (Exited out) = out"
| "outcome_output (ExitError err out) = out"
| "outcome_output (ExecError e) = []"

definition External_GetGitPushCommand :: "ext_env \<Rightarrow> SSHInfo \<Rightarrow> UploadOptions \<Rightarrow> GitPushCommand result" where
  "External_GetGitPushCommand env i uo =
     (case ee_MarshalOptions env uo of
        Inl e \<Rightarrow> Inl (Error e)
      | Inr input \<Rightarrow>
        (case ee_LookPath env (Program i) of
           None \<Rightarrow> Inl (Error (''cannot find helper '' @ sq (Program i)))
         | Some program \<Rightarrow>
           (case ee_Run env ([program, ''--upload''] @ versionArgs i) input of
              ExitError stderr _ \<Rightarrow> Inl (Error (''fail to run '' @ Program i @ '': '' @ stderr))
            | res \<Rightarrow>
              (case ee_UnmarshalCommand env (outcome_output res) of
                 Inl e \<Rightarrow> Inl (Error (''invalid output from command '' @ sq (Program i) @ '': '' @ e))
               | Inr cmd \<Rightarrow> Inr cmd))))"

definition External_GetDownloadRefOptions :: "ext_env \<Rightarrow> SSHInfo \<Rightarrow> string \<Rightarrow> string \<Rightarrow> (string \<times> string list) result" where
  "External_GetDownloadRefOptions env i cr patch =
     (case ee_LookPath env (Program i) of
        None \<Rightarrow> Inl (Error (''cannot find helper '' @ sq (Program i)))
      | Some program \<Rightarrow>
        (case ee_Run env ([program, ''--download''] @ versionArgs i) (cr @ '' '' @ patch) of
           ExitError stderr _ \<Rightarrow> Inl (Error (''aaa fail to run '' @ Program i @ '': '' @ stderr))
         | ExecError e \<Rightarrow> Inl (Error e)
         | Exited out \<Rightarrow>
             (case StrSplit (TrimSpace out) CHR '' '' of
                [] \<Rightarrow> Inl (Panic ''index out of range'')
              | ref # options \<Rightarrow> Inr (ref, options))))"

section \<open>Dispatch (helper/proto.go, helper/proto-default.go)\<close>

text \<open>A helper holds the information it was made from, completed by its constructor.\<close>

datatype ProtoHelper =
  AGitProtoHelper SSHInfo | GerritProtoHelper SSHInfo | DefaultProtoHelper SSHInfo | ExternalProtoHelper SSHInfo

definition NewProtoHelper :: "SSHInfo \<Rightarrow> ProtoHelper" where
  "NewProtoHelper i =
     (let t = ToLower (ProtoType i) in
      if t = ProtoTypeAGit then AGitProtoHelper (NewAGitProtoHelper i)
      else if t = ProtoTypeGerrit then GerritProtoHelper (NewGerritProtoHelper i)
      else if t = ProtoTypeGitea then AGitProtoHelper (NewAGitProtoHelper i)
      else if t = [] then DefaultProtoHelper i
      else ExternalProtoHelper (NewExternalProtoHelper i))"

fun GetType :: "ProtoHelper \<Rightarrow> string" where
  "GetType (AGitProtoHelper i) = ProtoTypeAGit"
| "GetType (GerritProtoHelper i) = ProtoTypeGerrit"
| "GetType (DefaultProtoHelper i) = []"
| "GetType (ExternalProtoHelper i) = ProtoType i"

fun ProtoHelper_GetSSHInfo :: "ProtoHelper \<Rightarrow> SSHInfo" where
  "ProtoHelper_GetSSHInfo (AGitProtoHelper i) = i"
| "ProtoHelper_GetSSHInfo (GerritProtoHelper i) = i"
| "ProtoHelper_GetSSHInfo (DefaultProtoHelper i) = i"
| "ProtoHelper_GetSSHInfo (ExternalProtoHelper i) = i"

fun GetGitPushCommand :: "ext_env \<Rightarrow> string \<Rightarrow> string \<Rightarrow> ProtoHelper \<Rightarrow> UploadOptions \<Rightarrow> GitPushCommand result" where
  "GetGitPushCommand env git ver (AGitProtoHelper i) uo = AGit_GetGitPushCommand git ver i uo"
| "GetGitPushCommand env git ver (GerritProtoHelper i) uo = Gerrit_GetGitPushCommand uo"
| "GetGitPushCommand env git ver (DefaultProtoHelper i) uo = Inl (Error ''not implement'')"
| "GetGitPushCommand env git ver (ExternalProtoHelper i) uo = External_GetGitPushCommand env i uo"

fun GetDownloadRefOptions :: "ext_env \<Rightarrow> ProtoHelper \<Rightarrow> string \<Rightarrow> string \<Rightarrow> (string \<times> string list) result" where
  "GetDownloadRefOptions env (AGitProtoHelper i) cr patch = AGit_GetDownloadRefOptions i cr patch"
| "GetDownloadRefOptions env (GerritProtoHelper i) cr patch = Gerrit_GetDownloadRefOptions i cr patch"
| "GetDownloadRefOptions env (DefaultProtoHelper i) cr patch = Inl (Error ''not implement'')"
| "GetDownloadRefOptions env (ExternalProtoHelper i) cr patch = External_GetDownloadRefOptions env i cr patch"

end
