(* ===== verification/Manifest.thy ===== *)
theory Manifest
  imports Go_Filepath Refs
begin

text \<open>
  Package manifest (manifest/manifest.go), the data model and its pure operations: the XML
  elements as records, \<open>CheckAndFixup\<close> of every element, flattening of nested projects
  (\<open>AllProjects\<close>), inheritance of remote and default attributes, and \<open>Merge\<close>. A project
  element nests, so it is a datatype: the attributes (a record) and the sub-projects.
  Go pointers that may be nil are options.
\<close>

section \<open>Elements\<close>

record Remote =
  rm_Name :: string
  rm_Alias :: string
  rm_Fetch :: string
  rm_PushURL :: string
  rm_Override :: bool
  rm_Review :: string
  rm_Revision :: string
  rm_Type :: string

record Default =
  df_RemoteName :: string
  df_Revision :: string
  df_DestBranch :: string
  df_Upstream :: string
  df_Override :: bool
  df_SyncJ :: int
  df_SyncC :: string
  df_SyncS :: string
  df_SyncTags :: string

record Server =
  sv_Override :: bool
  sv_URL :: string

record Annotation =
  an_Name :: string
  an_Value :: string
  an_Keep :: string

record CopyFile =
  cf_Src :: string
  cf_Dest :: string

record LinkFile =
  lf_Src :: string
  lf_Dest :: string

record ProjectAttrs =
  Annotations :: "Annotation list"
  CopyFiles :: "CopyFile list"
  LinkFiles :: "LinkFile list"
  Name :: string
  Path :: string
  RemoteName :: string
  Revision :: string
  DestBranch :: string
  Groups :: string
  Rebase :: string
  SyncC :: string
  SyncS :: string
  SyncTags :: string
  Upstream :: string
  CloneDepth :: string
  ForcePath :: string
  isMetaProject :: bool
  ManifestRemote :: "Remote option"

datatype Project = Project (attrs: ProjectAttrs) (subprojects: "Project list")

record ExtendProject =
  ep_Name :: string
  ep_Path :: string
  ep_Groups :: string
  ep_Revision :: string

record RemoveProject =
  rp_Name :: string

record RepoHooks =
  rh_InProject :: string
  rh_EnabledList :: string

record Include =
  in_Name :: string

record Manifest =
  Notice :: string
  Remotes :: "Remote list"
  mDefault :: "Default option"
  mServer :: "Server option"
  Projects :: "Project list"
  RemoveProjects :: "RemoveProject list"
  ExtendProjects :: "ExtendProject list"
  mRepoHooks :: "RepoHooks option"
  Includes :: "Include list"
  SourceFile :: string

definition empty_attrs :: ProjectAttrs where
  "empty_attrs = \<lparr>Annotations = [], CopyFiles = [], LinkFiles = [], Name = [], Path = [],
     RemoteName = [], Revision = [], DestBranch = [], Groups = [], Rebase = [], SyncC = [],
     SyncS = [], SyncTags = [], Upstream = [], CloneDepth = [], ForcePath = [],
     isMetaProject = False, ManifestRemote = None\<rparr>"

definition empty_manifest :: Manifest where
  "empty_manifest = \<lparr>Notice = [], Remotes = [], mDefault = None, mServer = None, Projects = [],
     RemoveProjects = [], ExtendProjects = [], mRepoHooks = None, Includes = [], SourceFile = []\<rparr>"

text \<open>The special project for the manifest repository itself.\<close>

definition ManifestsProject :: Project where
  "ManifestsProject = Project (empty_attrs\<lparr>Name := ''manifests'', Path := ''manifests'',
     RemoteName := ''origin'', isMetaProject := True\<rparr>) []"

section \<open>CheckAndFixup\<close>

definition cleanPath :: "string \<Rightarrow> string" where
  "cleanPath name = Clean (StrReplace (TrimSuffix name ''.git'') CHR 0x5C ''/'')"

definition has_empty :: "string \<Rightarrow> string \<Rightarrow> go_error" where
  "has_empty element attr = Error (dq element @ '' element has empty '' @ dq attr)"

definition Remote_CheckAndFixup :: "Remote \<Rightarrow> Remote result" where
  "Remote_CheckAndFixup v =
     (if rm_Name v = [] then Inl (has_empty ''remote'' ''name'') else Inr v)"

definition Include_CheckAndFixup :: "Include \<Rightarrow> Include result" where
  "Include_CheckAndFixup v =
     (if in_Name v = [] then Inl (has_empty ''include'' ''name'') else Inr v)"

definition CopyFile_CheckAndFixup :: "CopyFile \<Rightarrow> CopyFile result" where
  "CopyFile_CheckAndFixup v =
     (if cf_Src v = [] then Inl (has_empty ''copyfile'' ''src'')
      else if cf_Dest v = [] then Inl (has_empty ''copyfile'' ''dest'') else Inr v)"

definition LinkFile_CheckAndFixup :: "LinkFile \<Rightarrow> LinkFile result" where
  "LinkFile_CheckAndFixup v =
     (if lf_Src v = [] then Inl (has_empty ''linkfile'' ''src'')
      else if lf_Dest v = [] then Inl (has_empty ''linkfile'' ''dest'') else Inr v)"

fun Project_CheckAndFixup :: "Project \<Rightarrow> Project result" where
  "Project_CheckAndFixup (Project v subs) =
     (if Name v = [] then Inl (has_empty ''project'' ''name'')
      else let name = cleanPath (Name v);
               v = v\<lparr>Name := name, Path := if Path v = [] then name else cleanPath (Path v)\<rparr>
      in bind_result (mapM_result CopyFile_CheckAndFixup (CopyFiles v)) (\<lambda>cs.
         bind_result (mapM_result LinkFile_CheckAndFixup (LinkFiles v)) (\<lambda>ls.
         bind_result (mapM_result Project_CheckAndFixup subs) (\<lambda>ps.
           Inr (Project (v\<lparr>CopyFiles := cs, LinkFiles := ls\<rparr>) ps)))))"

definition RemoveProject_CheckAndFixup :: "RemoveProject \<Rightarrow> RemoveProject result" where
  "RemoveProject_CheckAndFixup v =
     (if rp_Name v = [] then Inl (has_empty ''remove-project'' ''name'')
      else Inr (v\<lparr>rp_Name := cleanPath (rp_Name v)\<rparr>))"

definition ExtendProject_CheckAndFixup :: "ExtendProject \<Rightarrow> ExtendProject result" where
  "ExtendProject_CheckAndFixup v =
     (if ep_Name v = [] then Inl (has_empty ''extend-project'' ''name'')
      else let name = cleanPath (ep_Name v)
      in Inr (v\<lparr>ep_Name := name,
               ep_Path := if ep_Path v = [] then name else cleanPath (ep_Path v)\<rparr>))"

definition Manifest_CheckAndFixup :: "Manifest \<Rightarrow> Manifest result" where
  "Manifest_CheckAndFixup v =
     bind_result (mapM_result Remote_CheckAndFixup (Remotes v)) (\<lambda>rs.
     bind_result (mapM_result Project_CheckAndFixup (Projects v)) (\<lambda>ps.
     bind_result (mapM_result RemoveProject_CheckAndFixup (RemoveProjects v)) (\<lambda>rps.
     bind_result (mapM_result ExtendProject_CheckAndFixup (ExtendProjects v)) (\<lambda>eps.
     bind_result (mapM_result Include_CheckAndFixup (Includes v)) (\<lambda>is.
       Inr (v\<lparr>Remotes := rs, Projects := ps, RemoveProjects := rps, ExtendProjects := eps,
             Includes := is\<rparr>))))))"

section \<open>Flattening\<close>

definition fix_attrs :: "ProjectAttrs option \<Rightarrow> ProjectAttrs \<Rightarrow> ProjectAttrs" where
  "fix_attrs parent v =
     (let v = (case parent of None \<Rightarrow> v
        | Some q \<Rightarrow> v\<lparr>Path := if Path q \<noteq> [] then Join [Path q, Path v] else Path v,
                      Name := if Name q \<noteq> [] then Join [Name q, Name v] else Name v\<rparr>);
          name = (if HasSuffix (Name v) ''.git'' then TrimSuffix (Name v) ''.git'' else Name v)
      in v\<lparr>Name := Clean name, Path := Clean (Path v)\<rparr>)"

text \<open>A project with sub-projects is copied field by field, without the two unexported or
  derived fields.\<close>

fun Project_AllProjects :: "ProjectAttrs option \<Rightarrow> Project \<Rightarrow> Project list" where
  "Project_AllProjects parent (Project v subs) =
     (let v = fix_attrs parent v;
          project = (if length subs > 0
                     then v\<lparr>isMetaProject := False, ManifestRemote := None\<rparr> else v)
      in Project project [] # concat (map (Project_AllProjects (Some v)) subs))"

definition allProjects :: "Manifest \<Rightarrow> Project list" where
  "allProjects v = concat (map (Project_AllProjects None) (Projects v))"

section \<open>Flags\<close>

definition isTrue :: "string \<Rightarrow> bool \<Rightarrow> bool" where
  "isTrue value def =
     (if value = [] then def
      else ToLower value \<in> set [''true'', ''yes'', ''1'', ''t'', ''y'', ''on''])"

definition IsRebase :: "ProjectAttrs \<Rightarrow> bool" where "IsRebase v = isTrue (Rebase v) True"
definition IsSyncS :: "ProjectAttrs \<Rightarrow> bool" where "IsSyncS v = isTrue (SyncS v) False"
definition IsSyncC :: "ProjectAttrs \<Rightarrow> bool" where "IsSyncC v = isTrue (SyncC v) False"
definition IsSyncTags :: "ProjectAttrs \<Rightarrow> bool" where "IsSyncTags v = isTrue (SyncTags v) True"

section \<open>Inheritance of attributes\<close>

definition or_default :: "string \<Rightarrow> string \<Rightarrow> string" where
  "or_default s d = (if s = [] then d else s)"

definition remote_index :: "Remote list \<Rightarrow> string \<Rightarrow> Remote option" where
  "remote_index rs n = map_of (rev (map (\<lambda>r. (rm_Name r, r)) rs)) n"

definition pick_remote :: "Default option \<Rightarrow> ProjectAttrs \<Rightarrow> ProjectAttrs result" where
  "pick_remote d v =
     (if RemoteName v = [] then
        (case d of None \<Rightarrow> Inl (Fatal (''no remote defined for for project '' @ sq (Name v)))
         | Some df \<Rightarrow> if df_RemoteName df = []
             then Inl (Fatal (''no remote defined for for project '' @ sq (Name v)))
             else Inr (v\<lparr>RemoteName := df_RemoteName df\<rparr>))
      else Inr v)"

definition inherit_attrs :: "Remote \<Rightarrow> Default option \<Rightarrow> ProjectAttrs \<Rightarrow> ProjectAttrs" where
  "inherit_attrs r d v =
     (let v = v\<lparr>ManifestRemote := Some r, Revision := or_default (Revision v) (rm_Revision r)\<rparr>
      in case d of None \<Rightarrow> v
         | Some df \<Rightarrow> v\<lparr>Revision := or_default (Revision v) (df_Revision df),
             DestBranch := or_default (DestBranch v) (df_DestBranch df),
             Upstream := or_default (Upstream v) (df_Upstream df),
             SyncC := or_default (SyncC v) (df_SyncC df),
             SyncS := or_default (SyncS v) (df_SyncS df),
             SyncTags := or_default (SyncTags v) (df_SyncTags df)\<rparr>)"

definition fill_project :: "Remote list \<Rightarrow> Default option \<Rightarrow> Project \<Rightarrow> Project result" where
  "fill_project rs d p =
     bind_result (pick_remote d (attrs p)) (\<lambda>v.
      case remote_index rs (RemoteName v) of
        None \<Rightarrow> Inl (Fatal (''cannot find remote '' @ sq (RemoteName v) @ '' for project '' @ sq (Name v)))
      | Some r \<Rightarrow>
        let v = inherit_attrs r d v
        in if Revision v = [] then Inl (Fatal (''no revision for project '' @ sq (Name v)))
           else Inr (Project v (subprojects p)))"

definition Manifest_AllProjects :: "Manifest \<Rightarrow> Project list result" where
  "Manifest_AllProjects v =
     mapM_result (fill_project (Remotes v) (mDefault v)) (allProjects v)"

section \<open>Merge\<close>

definition dup_msg :: "string \<Rightarrow> string \<Rightarrow> go_error" where
  "dup_msg what file = Error (''duplicate '' @ what @ '' in '' @ file @
     ''. If you want to override, set atrribute '' @ sq ''override'' @ '' true'')"

fun merge_remote :: "string \<Rightarrow> Remote list \<Rightarrow> Remote \<Rightarrow> Remote list result" where
  "merge_remote file [] r1 = Inr [r1]"
| "merge_remote file (r2 # rs) r1 =
     (if rm_Name r1 = rm_Name r2 then
        (if rm_Override r1 then Inr (r1 # rs)
         else if r1 \<noteq> r2 then Inl (dup_msg ''remote'' file)
         else Inr (r2 # rs))
      else bind_result (merge_remote file rs r1) (\<lambda>rs'. Inr (r2 # rs')))"

text \<open>The path map: a path seen twice is an error; the paths seen are returned.\<close>

fun check_paths :: "string \<Rightarrow> string set \<Rightarrow> Project list \<Rightarrow> string set result" where
  "check_paths file seen [] = Inr seen"
| "check_paths file seen (p # ps) =
     (if Path (attrs p) \<in> seen
      then Inl (Error (''duplicate path for project '' @ sq (Path (attrs p)) @ '' in '' @ sq file))
      else check_paths file (insert (Path (attrs p)) seen) ps)"

definition extend_index :: "ExtendProject list \<Rightarrow> string \<Rightarrow> ExtendProject option" where
  "extend_index es n = map_of (rev (map (\<lambda>e. (ep_Name e, e)) es)) n"

definition extend_attrs :: "ExtendProject list \<Rightarrow> ProjectAttrs \<Rightarrow> ProjectAttrs" where
  "extend_attrs es p =
     (case extend_index es (Name p) of None \<Rightarrow> p
      | Some p2 \<Rightarrow>
        if ep_Path p2 = Path p then
          let g = (if Groups p = [] then ep_Groups p2
                   else if ep_Groups p2 \<noteq> []
                   then StrJoin (StrSplit (Groups p) CHR '','' @ StrSplit (ep_Groups p2) CHR '','') '',''
                   else Groups p)
          in p\<lparr>Groups := g, Revision := if ep_Revision p2 \<noteq> [] then ep_Revision p2 else Revision p\<rparr>
        else p)"

definition extend_project :: "ExtendProject list \<Rightarrow> Project \<Rightarrow> Project" where
  "extend_project es p = Project (extend_attrs es (attrs p)) (subprojects p)"

definition merge_opt ::
  "('a \<Rightarrow> bool) \<Rightarrow> go_error \<Rightarrow> 'a option \<Rightarrow> 'a option \<Rightarrow> 'a option result" where
  "merge_opt override err vo mo =
     (case mo of None \<Rightarrow> Inr vo
      | Some x \<Rightarrow> if override x \<or> vo = None then Inr (Some x)
                  else if vo \<noteq> Some x then Inl err else Inr vo)"

definition Merge :: "Manifest \<Rightarrow> Manifest \<Rightarrow> Manifest result" where
  "Merge v m =
     (let file = SourceFile m in
      bind_result
        (if Notice m \<noteq> [] then
           (if Notice v = [] then Inr (Notice m)
            else Inl (Error (''duplicate notice in '' @ file)))
         else Inr (Notice v)) (\<lambda>notice.
      bind_result (foldM_result (merge_remote file) (Remotes v) (Remotes m)) (\<lambda>remotes.
      bind_result (merge_opt df_Override (dup_msg ''default'' file) (mDefault v) (mDefault m)) (\<lambda>def.
      bind_result (merge_opt sv_Override (dup_msg ''manifest-server'' file) (mServer v) (mServer m)) (\<lambda>server.
      bind_result (check_paths (SourceFile v) {} (allProjects v)) (\<lambda>realPath.
      bind_result (check_paths file realPath (allProjects m)) (\<lambda>_.
        let v = v\<lparr>Notice := notice, Remotes := remotes, mDefault := def, mServer := server,
                  Projects := Projects v @ allProjects m\<rparr>;
            rm = set (map rp_Name (RemoveProjects m));
            ps = filter (\<lambda>p. Name (attrs p) \<notin> rm) (allProjects v)
        in Inr (v\<lparr>Projects := map (extend_project (ExtendProjects m)) ps\<rparr>))))))))"

definition mergeManifests :: "Manifest list \<Rightarrow> Manifest result" where
  "mergeManifests ms = foldM_result Merge empty_manifest ms"

section \<open>Visiting projects\<close>

definition maxRecursiveDepth :: nat where "maxRecursiveDepth = 10"

text \<open>
  \<open>execute\<close> calls the handler on a project, then on its sub-projects with the joined parent
  path. The handler (\<^verbatim>\<open>ProjectHandler.Process\<close>) may change the project in place, so it
  returns the new one; the depth check bounds the recursion whatever the handler does.
\<close>

type_synonym handler = "Project \<Rightarrow> string \<Rightarrow> Project result"

function execute :: "handler \<Rightarrow> string \<Rightarrow> nat \<Rightarrow> Project \<Rightarrow> Project result" where
  "execute handle path depth v =
     (if depth > maxRecursiveDepth then Inl (Error ''recursive is to deep'')
      else bind_result (handle v path) (\<lambda>v.
        let path = (if path = [] then Path (attrs v) else Join [path, Path (attrs v)])
        in bind_result (mapM_result (execute handle path (depth + 1)) (subprojects v))
             (\<lambda>ps. Inr (Project (attrs v) ps))))"
  by pat_completeness auto
termination
  by (relation "measure (\<lambda>(h, path, depth, v). Suc maxRecursiveDepth - depth)") auto

declare execute.simps [simp del]

definition ProjectHandle :: "handler \<Rightarrow> Manifest \<Rightarrow> Manifest result" where
  "ProjectHandle handle v =
     bind_result (mapM_result (execute handle [] 0) (Projects v)) (\<lambda>ps. Inr (v\<lparr>Projects := ps\<rparr>))"

end
