(* ===== verification/Manifest_Proofs.thy ===== *)
theory Manifest_Proofs
  imports Manifest
begin

text \<open>
  Correctness of the manifest operations: what \<open>CheckAndFixup\<close> guarantees and when it fails
  (the locale \<open>fixup\<close> is the contract its element-wise checks share), that flattening loses no
  project, what inheritance fills in, and the invariant of \<open>Merge\<close> (unique remote names, unique
  paths, removed projects gone, extensions applied).
\<close>

section \<open>The contract of an element check\<close>

text \<open>
  \<open>present x\<close>: the required attributes of \<open>x\<close> are not empty; \<open>ok y\<close>: what a checked element
  satisfies. A check succeeds exactly on elements whose attributes are present.
\<close>

locale fixup =
  fixes check :: "'a \<Rightarrow> 'a result" and present :: "'a \<Rightarrow> bool" and ok :: "'a \<Rightarrow> bool"
  assumes check_ok: "check x = Inr y \<Longrightarrow> ok y"
    and check_present: "present x \<longleftrightarrow> (\<exists>y. check x = Inr y)"
    and check_error: "check x = Inl e \<Longrightarrow> \<exists>el attr. e = has_empty el attr"
begin

lemma all_ok: "mapM_result check xs = Inr ys \<Longrightarrow> list_all ok ys"
  unfolding mapM_result_Inr_iff
  by (auto simp: list_all_iff list_all2_conv_all_nth in_set_conv_nth dest!: check_ok)

lemma all_present: "list_all present xs \<longleftrightarrow> (\<exists>ys. mapM_result check xs = Inr ys)"
proof (induction xs)
  case Nil
  then show ?case by simp
next
  case (Cons x xs)
  then show ?case by (auto simp: check_present result_simps)
qed

lemma all_error: "mapM_result check xs = Inl e \<Longrightarrow> \<exists>el attr. e = has_empty el attr"
  unfolding mapM_result_Inl_iff using check_error by blast

end

section \<open>Cleaned names\<close>

lemma set_StrJoin: "set (StrJoin es sep) \<subseteq> \<Union> (set ` set es) \<union> set sep"
  by (induction es) (auto simp: StrJoin_Cons split: if_splits)

lemma clean_step_set: "set (clean_step r st e) \<subseteq> set st \<union> {e, ''..''}"
  by (cases st) (auto simp: clean_step_def)

lemma foldl_clean_set:
  "set (foldl (clean_step r) st es) \<subseteq> set st \<union> set es \<union> {''..''}"
proof (induction es arbitrary: st)
  case Nil
  then show ?case by auto
next
  case (Cons e es)
  then show ?case using clean_step_set [of r st e] by fastforce
qed

lemma set_StrSplit: "w \<in> set (StrSplit s c) \<Longrightarrow> set w \<subseteq> set s"
proof (induction s arbitrary: w)
  case Nil
  then show ?case by simp
next
  case (Cons x s)
  then show ?case by (cases "StrSplit s c") (fastforce split: if_splits)+
qed

lemma set_path_elems: "e \<in> set (path_elems s) \<Longrightarrow> set e \<subseteq> set s \<union> {CHR ''.''}"
proof -
  assume "e \<in> set (path_elems s)"
  then have "e \<in> set (StrSplit s CHR ''/'') \<or> e = ''..''"
    using foldl_clean_set [of "IsAbs s" "[]" "StrSplit s CHR ''/''"]
    by (auto simp: path_elems_def clean_elems_def)
  then show ?thesis using set_StrSplit [of e s "CHR ''/''"] by auto
qed

lemma set_Clean: "set (Clean s) \<subseteq> set s \<union> {CHR ''.'', CHR ''/''}"
proof -
  have "\<Union> (set ` set (path_elems s)) \<subseteq> set s \<union> {CHR ''.''}"
    using set_path_elems by blast
  then have "set (StrJoin (path_elems s) ''/'') \<subseteq> set s \<union> {CHR ''.'', CHR ''/''}"
    using set_StrJoin [of "path_elems s" "''/''"] by fastforce
  then show ?thesis by (auto simp: Clean_def render_def)
qed

lemma StrReplace_gone: "c \<notin> set new \<Longrightarrow> c \<notin> set (StrReplace s c new)"
  by (auto simp: StrReplace_def)

definition clean_name :: "string \<Rightarrow> bool" where
  "clean_name s = (Clean s = s \<and> s \<noteq> [] \<and> CHR 0x5C \<notin> set s)"

lemma clean_name_cleanPath [simp]: "clean_name (cleanPath n)"
  using set_Clean [of "StrReplace (TrimSuffix n ''.git'') CHR 0x5C ''/''"]
    StrReplace_gone [of "CHR 0x5C" "''/''" "TrimSuffix n ''.git''"]
  by (auto simp: clean_name_def cleanPath_def)

section \<open>CheckAndFixup\<close>

fun wf_project :: "Project \<Rightarrow> bool" where
  "wf_project (Project v subs) =
     (clean_name (Name v) \<and> clean_name (Path v) \<and>
      list_all (\<lambda>c. cf_Src c \<noteq> [] \<and> cf_Dest c \<noteq> []) (CopyFiles v) \<and>
      list_all (\<lambda>l. lf_Src l \<noteq> [] \<and> lf_Dest l \<noteq> []) (LinkFiles v) \<and>
      list_all wf_project subs)"

fun project_present :: "Project \<Rightarrow> bool" where
  "project_present (Project v subs) =
     (Name v \<noteq> [] \<and>
      list_all (\<lambda>c. cf_Src c \<noteq> [] \<and> cf_Dest c \<noteq> []) (CopyFiles v) \<and>
      list_all (\<lambda>l. lf_Src l \<noteq> [] \<and> lf_Dest l \<noteq> []) (LinkFiles v) \<and>
      list_all project_present subs)"

lemmas check_defs =
  Remote_CheckAndFixup_def Include_CheckAndFixup_def CopyFile_CheckAndFixup_def
  LinkFile_CheckAndFixup_def RemoveProject_CheckAndFixup_def ExtendProject_CheckAndFixup_def

interpretation remote_fix: fixup Remote_CheckAndFixup "\<lambda>r. rm_Name r \<noteq> []" "\<lambda>r. rm_Name r \<noteq> []"
  by unfold_locales (auto simp: check_defs split: if_splits)

interpretation include_fix: fixup Include_CheckAndFixup "\<lambda>i. in_Name i \<noteq> []" "\<lambda>i. in_Name i \<noteq> []"
  by unfold_locales (auto simp: check_defs split: if_splits)

interpretation copyfile_fix: fixup CopyFile_CheckAndFixup
  "\<lambda>c. cf_Src c \<noteq> [] \<and> cf_Dest c \<noteq> []" "\<lambda>c. cf_Src c \<noteq> [] \<and> cf_Dest c \<noteq> []"
  by unfold_locales (auto simp: check_defs split: if_splits)

interpretation linkfile_fix: fixup LinkFile_CheckAndFixup
  "\<lambda>c. lf_Src c \<noteq> [] \<and> lf_Dest c \<noteq> []" "\<lambda>c. lf_Src c \<noteq> [] \<and> lf_Dest c \<noteq> []"
  by unfold_locales (auto simp: check_defs split: if_splits)

interpretation remove_fix: fixup RemoveProject_CheckAndFixup
  "\<lambda>r. rp_Name r \<noteq> []" "\<lambda>r. clean_name (rp_Name r)"
  by unfold_locales (auto simp: check_defs split: if_splits)

interpretation extend_fix: fixup ExtendProject_CheckAndFixup
  "\<lambda>e. ep_Name e \<noteq> []" "\<lambda>e. clean_name (ep_Name e) \<and> clean_name (ep_Path e)"
  by unfold_locales (auto simp: check_defs Let_def split: if_splits)

declare Project_CheckAndFixup.simps [simp del]

lemma Project_check_ok: "Project_CheckAndFixup p = Inr q \<Longrightarrow> wf_project q"
proof (induction p arbitrary: q rule: Project_CheckAndFixup.induct)
  case (1 v subs)
  from "1.prems" obtain cs ls ps v' where n: "Name v \<noteq> []"
    and cs: "mapM_result CopyFile_CheckAndFixup (CopyFiles v) = Inr cs"
    and ls: "mapM_result LinkFile_CheckAndFixup (LinkFiles v) = Inr ls"
    and ps: "mapM_result Project_CheckAndFixup subs = Inr ps"
    and q: "q = Project (v'\<lparr>CopyFiles := cs, LinkFiles := ls\<rparr>) ps"
    and v': "clean_name (Name v')" "clean_name (Path v')"
    by (auto simp: Project_CheckAndFixup.simps [of v subs] Let_def result_simps split: if_splits)
  have "list_all wf_project ps"
    unfolding list_all_iff
  proof
    fix y assume "y \<in> set ps"
    from mapM_result_elem [OF ps this] obtain x
      where "x \<in> set subs" "Project_CheckAndFixup x = Inr y" by auto
    with "1.IH" n cs ls show "wf_project y" by (simp add: Let_def)
  qed
  with q v' copyfile_fix.all_ok [OF cs] linkfile_fix.all_ok [OF ls] show ?case by simp
qed

lemma Project_check_present: "project_present p \<longleftrightarrow> (\<exists>q. Project_CheckAndFixup p = Inr q)"
proof (induction p)
  case (Project v subs)
  have "(\<exists>ps. mapM_result Project_CheckAndFixup subs = Inr ps) \<longleftrightarrow> list_all project_present subs"
    using Project.IH by (induction subs) (auto simp: result_simps)
  then show ?case
    by (auto simp: Project_CheckAndFixup.simps [of v subs] Let_def result_simps
        copyfile_fix.all_present linkfile_fix.all_present)
qed

lemma Project_check_error:
  "Project_CheckAndFixup p = Inl e \<Longrightarrow> \<exists>el attr. e = has_empty el attr"
proof (induction p arbitrary: e)
  case (Project v subs)
  have "mapM_result Project_CheckAndFixup subs = Inl e \<Longrightarrow> \<exists>el attr. e = has_empty el attr"
    unfolding mapM_result_Inl_iff using Project.IH by fastforce
  with Project.prems copyfile_fix.all_error linkfile_fix.all_error show ?case
    by (fastforce simp: Project_CheckAndFixup.simps [of v subs] Let_def result_simps split: if_splits)
qed

interpretation project_fix: fixup Project_CheckAndFixup project_present wf_project
  by unfold_locales (auto dest: Project_check_ok Project_check_error simp: Project_check_present)

definition wf_manifest :: "Manifest \<Rightarrow> bool" where
  "wf_manifest m =
     (list_all (\<lambda>r. rm_Name r \<noteq> []) (Remotes m) \<and> list_all wf_project (Projects m) \<and>
      list_all (\<lambda>r. clean_name (rp_Name r)) (RemoveProjects m) \<and>
      list_all (\<lambda>e. clean_name (ep_Name e) \<and> clean_name (ep_Path e)) (ExtendProjects m) \<and>
      list_all (\<lambda>i. in_Name i \<noteq> []) (Includes m))"


lemma CheckAndFixup_wf_lemma: "Manifest_CheckAndFixup m = Inr m' \<Longrightarrow> wf_manifest m'"
  by (auto simp: Manifest_CheckAndFixup_def wf_manifest_def result_simps remote_fix.all_ok
      project_fix.all_ok remove_fix.all_ok extend_fix.all_ok include_fix.all_ok)

text \<open>
  Property C30. A manifest that passes \<open>CheckAndFixup\<close> is well formed at every nesting depth:
  all names and paths are non-empty, cleaned and free of backslashes, and copyfile and
  linkfile elements have both ends.
\<close>

theorem CheckAndFixup_wf:
  assumes "Manifest_CheckAndFixup m = Inr m'"
  shows "wf_manifest m'"
  using assms by (rule CheckAndFixup_wf_lemma)

theorem CheckAndFixup_wf_witness:
  "wf_manifest (empty_manifest\<lparr>Projects := [Project (empty_attrs\<lparr>Name := ''a/b'', Path := ''a/b''\<rparr>) []]\<rparr>)"
proof (rule CheckAndFixup_wf)
  show "Manifest_CheckAndFixup (empty_manifest\<lparr>Projects := [Project (empty_attrs\<lparr>Name := ''a//b.git''\<rparr>) []]\<rparr>) =
     Inr (empty_manifest\<lparr>Projects := [Project (empty_attrs\<lparr>Name := ''a/b'', Path := ''a/b''\<rparr>) []]\<rparr>)"
    by code_simp
qed



section \<open>Flattening loses nothing\<close>

text \<open>The specification: the attributes of all nodes in document order.\<close>

fun project_nodes :: "Project \<Rightarrow> ProjectAttrs list" where
  "project_nodes (Project v subs) = v # concat (map project_nodes subs)"

text \<open>What flattening may change: the name and path, and the derived fields.\<close>

definition rest_attrs :: "ProjectAttrs \<Rightarrow> ProjectAttrs" where
  "rest_attrs v = v\<lparr>Name := [], Path := [], isMetaProject := False, ManifestRemote := None\<rparr>"

lemma rest_fix_attrs [simp]: "rest_attrs (fix_attrs par v) = rest_attrs v"
  by (simp add: rest_attrs_def fix_attrs_def Let_def split: option.split)

lemma rest_attrs_meta [simp]:
  "rest_attrs (v\<lparr>isMetaProject := b, ManifestRemote := r\<rparr>) = rest_attrs v"
  by (simp add: rest_attrs_def)

lemma Project_AllProjects_nodes:
  "map (rest_attrs \<circ> attrs) (Project_AllProjects par p) = map rest_attrs (project_nodes p)"
proof (induction p arbitrary: par)
  case (Project v subs)
  have "map (rest_attrs \<circ> attrs) (concat (map (Project_AllProjects q) subs)) =
      map rest_attrs (concat (map project_nodes subs))" for q
    using Project.IH by (induction subs) auto
  then show ?case by (simp add: Let_def comp_def)
qed

definition flat_project :: "Project \<Rightarrow> bool" where
  "flat_project p = (subprojects p = [] \<and> Clean (Name (attrs p)) = Name (attrs p) \<and>
     Clean (Path (attrs p)) = Path (attrs p))"

lemma fix_attrs_clean [simp]:
  "Clean (Name (fix_attrs par v)) = Name (fix_attrs par v)"
  "Clean (Path (fix_attrs par v)) = Path (fix_attrs par v)"
  by (simp_all add: fix_attrs_def Let_def)

lemma Project_AllProjects_flat: "list_all flat_project (Project_AllProjects par p)"
proof (induction p arbitrary: par)
  case (Project v subs)
  then have "\<forall>q. list_all flat_project (concat (map (Project_AllProjects q) subs))"
    by (induction subs) auto
  then show ?case by (simp add: Let_def flat_project_def [of "Project _ _"])
qed

lemma allProjects_flat: "list_all flat_project (allProjects v)"
  by (auto simp: allProjects_def list_all_iff
      dest: Project_AllProjects_flat [unfolded list_all_iff, rule_format])

text \<open>
  Flattening a manifest keeps every project of the tree, at any nesting depth, in
  document order and with all its attributes other than name and path; the result is flat,
  and every name and path in it is clean.
\<close>

theorem allProjects_complete:
  "map (rest_attrs \<circ> attrs) (allProjects v) = map rest_attrs (concat (map project_nodes (Projects v)))
   \<and> list_all flat_project (allProjects v)"
proof
  show "map (rest_attrs \<circ> attrs) (allProjects v) =
      map rest_attrs (concat (map project_nodes (Projects v)))"
    by (simp add: allProjects_def map_concat Project_AllProjects_nodes [unfolded comp_def] comp_def)
qed (rule allProjects_flat)

text \<open>Flattening again changes no path.\<close>

lemma reflatten_flat:
  assumes "flat_project p"
  shows "map (Path \<circ> attrs) (Project_AllProjects None p) = [Path (attrs p)]"
  using assms by (cases p) (simp add: flat_project_def fix_attrs_def Let_def)

lemma reflatten_paths:
  "list_all flat_project ps \<Longrightarrow>
   map (Path \<circ> attrs) (concat (map (Project_AllProjects None) ps)) = map (Path \<circ> attrs) ps"
  by (induction ps) (simp_all add: reflatten_flat)

section \<open>Inheritance\<close>

lemma remote_index_Some:
  "remote_index rs n = Some r \<Longrightarrow> r \<in> set rs \<and> rm_Name r = n"
  by (auto simp: remote_index_def dest!: map_of_SomeD)

definition effective_revision :: "Default option \<Rightarrow> Remote \<Rightarrow> string \<Rightarrow> string" where
  "effective_revision d r own =
     (if own \<noteq> [] then own else if rm_Revision r \<noteq> [] then rm_Revision r
      else case d of None \<Rightarrow> [] | Some df \<Rightarrow> df_Revision df)"

definition filled :: "Remote list \<Rightarrow> Default option \<Rightarrow> Project \<Rightarrow> Project \<Rightarrow> bool" where
  "filled rs d p q \<longleftrightarrow>
     (\<exists>r \<in> set rs. ManifestRemote (attrs q) = Some r \<and> rm_Name r = RemoteName (attrs q) \<and>
        Revision (attrs q) = effective_revision d r (Revision (attrs p))) \<and>
     Revision (attrs q) \<noteq> [] \<and>
     RemoteName (attrs q) = (if RemoteName (attrs p) \<noteq> [] then RemoteName (attrs p)
        else df_RemoteName (the d)) \<and> RemoteName (attrs q) \<noteq> [] \<and>
     Name (attrs q) = Name (attrs p) \<and> Path (attrs q) = Path (attrs p)"

lemma inherit_attrs_simps [simp]:
  "Revision (inherit_attrs r d v) = effective_revision d r (Revision v)"
  "ManifestRemote (inherit_attrs r d v) = Some r"
  "RemoteName (inherit_attrs r d v) = RemoteName v"
  "Name (inherit_attrs r d v) = Name v" "Path (inherit_attrs r d v) = Path v"
  by (cases d; simp add: inherit_attrs_def Let_def or_default_def effective_revision_def)+

lemma pick_remote_Inr:
  "pick_remote d v = Inr w \<Longrightarrow>
   RemoteName w = (if RemoteName v \<noteq> [] then RemoteName v else df_RemoteName (the d)) \<and>
   RemoteName w \<noteq> [] \<and> Name w = Name v \<and> Path w = Path v \<and> Revision w = Revision v"
  by (auto simp: pick_remote_def split: if_splits option.splits)

lemma fill_project_filled:
  assumes "fill_project rs d p = Inr q"
  shows "filled rs d p q"
proof -
  from assms obtain v r where v: "pick_remote d (attrs p) = Inr v"
    and r: "remote_index rs (RemoteName v) = Some r"
    and q: "attrs q = inherit_attrs r d v" "effective_revision d r (Revision v) \<noteq> []"
    by (auto simp: fill_project_def Let_def result_simps split: option.splits if_splits)
  from pick_remote_Inr [OF v] remote_index_Some [OF r] q show ?thesis
    unfolding filled_def by auto
qed

text \<open>
  Property C29. When \<open>AllProjects\<close> returns (it ends the process otherwise), every project of the
  result has a remote that the manifest declares under the project's remote name, and a
  non-empty revision chosen by precedence: its own, else the remote's, else the default's;
  names and paths are those of the flattened manifest.
\<close>

theorem AllProjects_filled:
  assumes "Manifest_AllProjects v = Inr ps"
  shows "list_all2 (filled (Remotes v) (mDefault v)) (allProjects v) ps"
  using assms unfolding Manifest_AllProjects_def mapM_result_Inr_iff
  by (rule list_all2_mono) (rule fill_project_filled)

definition sample_remote :: Remote where
  "sample_remote = \<lparr>rm_Name = ''origin'', rm_Alias = [], rm_Fetch = ''..'', rm_PushURL = [],
     rm_Override = False, rm_Review = [], rm_Revision = ''main'', rm_Type = []\<rparr>"

definition sample_manifest :: Manifest where
  "sample_manifest = empty_manifest\<lparr>Remotes := [sample_remote],
     Projects := [Project (empty_attrs\<lparr>Name := ''p'', Path := ''p'', RemoteName := ''origin''\<rparr>)
       [Project (empty_attrs\<lparr>Name := ''q'', Path := ''q'', RemoteName := ''origin''\<rparr>) []]]\<rparr>"

theorem AllProjects_filled_witness:
  "\<exists>ps. length ps = 2 \<and>
     list_all2 (filled (Remotes sample_manifest) (mDefault sample_manifest)) (allProjects sample_manifest) ps"
proof -
  have "Manifest_AllProjects sample_manifest = Inr
     [Project (empty_attrs\<lparr>Name := ''p'', Path := ''p'', RemoteName := ''origin'', Revision := ''main'',
        ManifestRemote := Some sample_remote\<rparr>) [],
      Project (empty_attrs\<lparr>Name := ''p/q'', Path := ''p/q'', RemoteName := ''origin'', Revision := ''main'',
        ManifestRemote := Some sample_remote\<rparr>) []]"
    by code_simp
  from AllProjects_filled [OF this] show ?thesis by (intro exI conjI) (auto simp only: list.size)
qed

section \<open>Merge\<close>

lemma merge_remote_names:
  "merge_remote f rs r = Inr rs' \<Longrightarrow>
   map rm_Name rs' = (if rm_Name r \<in> set (map rm_Name rs) then map rm_Name rs
                      else map rm_Name rs @ [rm_Name r])"
  by (induction rs arbitrary: rs') (auto simp: result_simps split: if_splits)

lemma merge_remote_distinct:
  "merge_remote f rs r = Inr rs' \<Longrightarrow> distinct (map rm_Name rs) \<Longrightarrow> distinct (map rm_Name rs')"
  using merge_remote_names [of f rs r rs'] by auto

lemma merge_remotes_distinct:
  "foldM_result (merge_remote f) rs ms = Inr rs' \<Longrightarrow> distinct (map rm_Name rs) \<Longrightarrow>
   distinct (map rm_Name rs')"
  by (rule foldM_result_invariant [where P = "\<lambda>rs. distinct (map rm_Name rs)"])
    (auto dest: merge_remote_distinct)




lemma check_paths_Inr:
  "check_paths f seen ps = Inr seen' \<longleftrightarrow>
     distinct (map (Path \<circ> attrs) ps) \<and> seen \<inter> set (map (Path \<circ> attrs) ps) = {} \<and>
     seen' = seen \<union> set (map (Path \<circ> attrs) ps)"
  by (induction f seen ps rule: check_paths.induct) auto

lemma extend_attrs_frame [simp]:
  "Name (extend_attrs es p) = Name p" "Path (extend_attrs es p) = Path p"
  by (simp_all add: extend_attrs_def Let_def split: option.split)



lemma extend_project_frame [simp]:
  "Name (attrs (extend_project es p)) = Name (attrs p)"
  "Path (attrs (extend_project es p)) = Path (attrs p)"
  "subprojects (extend_project es p) = subprojects p"
  by (simp_all add: extend_project_def)

lemma flat_extend_project [simp]: "flat_project (extend_project es p) = flat_project p"
  by (simp add: flat_project_def)

definition merge_inv :: "Manifest \<Rightarrow> bool" where
  "merge_inv v = (distinct (map rm_Name (Remotes v)) \<and> list_all flat_project (Projects v) \<and>
     distinct (map (Path \<circ> attrs) (Projects v)))"

lemma merge_inv_empty [simp]: "merge_inv empty_manifest"
  by (simp add: merge_inv_def empty_manifest_def)

text \<open>The projects of a merge, before removal and extension.\<close>

lemma Merge_projects:
  assumes "Merge v m = Inr v'"
  shows "Projects v' = map (extend_project (ExtendProjects m))
       (filter (\<lambda>p. Name (attrs p) \<notin> rp_Name ` set (RemoveProjects m))
          (concat (map (Project_AllProjects None) (Projects v @ allProjects m)))) \<and>
     distinct (map (Path \<circ> attrs) (allProjects v @ allProjects m))"
  using assms
  by (auto simp: Merge_def Let_def result_simps check_paths_Inr allProjects_def)

lemma Merge_flat:
  assumes "Merge v m = Inr v'"
  shows "list_all flat_project (Projects v')"
  using Merge_projects [OF assms]
  by (auto simp: list_all_iff dest: Project_AllProjects_flat [unfolded list_all_iff, rule_format])

lemma distinct_map_filter_image:
  "distinct (map f xs) \<Longrightarrow> distinct (map f (filter P xs))"
  by (induction xs) auto

lemma Merge_distinct_paths:
  assumes "Merge v m = Inr v'"
  shows "distinct (map (Path \<circ> attrs) (Projects v'))"
proof -
  let ?all = "concat (map (Project_AllProjects None) (Projects v @ allProjects m))"
  have "map (Path \<circ> attrs) ?all = map (Path \<circ> attrs) (allProjects v @ allProjects m)"
    using reflatten_paths [OF allProjects_flat [of m]] by (simp add: allProjects_def)
  then have "distinct (map (Path \<circ> attrs) ?all)" using Merge_projects [OF assms] by metis
  then have "distinct (map (Path \<circ> attrs)
      (filter (\<lambda>p. Name (attrs p) \<notin> rp_Name ` set (RemoveProjects m)) ?all))"
    by (rule distinct_map_filter_image)
  with Merge_projects [OF assms] show ?thesis by (simp add: comp_def)
qed

lemma Merge_remotes:
  "Merge v m = Inr v' \<Longrightarrow>
   foldM_result (merge_remote (SourceFile m)) (Remotes v) (Remotes m) = Inr (Remotes v')"
  by (auto simp: Merge_def Let_def result_simps)

lemma Merge_inv: "merge_inv v \<Longrightarrow> Merge v m = Inr v' \<Longrightarrow> merge_inv v'"
  using Merge_flat [of v m v'] Merge_distinct_paths [of v m v']
    merge_remotes_distinct [OF Merge_remotes [of v m v']]
  by (simp add: merge_inv_def)

lemma mergeManifests_inv_lemma: "mergeManifests ms = Inr v \<Longrightarrow> merge_inv v"
  unfolding mergeManifests_def by (rule foldM_result_invariant) (auto intro: Merge_inv)

text \<open>
  Whatever manifest files are merged, in whatever order, a successful result has
  no two projects with the same path, no two remotes with the same name, and only flat
  projects with clean names and paths.
\<close>

theorem mergeManifests_invariant:
  assumes "mergeManifests ms = Inr v"
  shows "merge_inv v"
  using assms by (rule mergeManifests_inv_lemma)

theorem mergeManifests_invariant_witness:
  "\<exists>v. mergeManifests [sample_manifest, empty_manifest\<lparr>RemoveProjects := [\<lparr>rp_Name = ''p''\<rparr>]\<rparr>] = Inr v
     \<and> length (Projects v) = 1 \<and> merge_inv v"
proof -
  have "mergeManifests [sample_manifest, empty_manifest\<lparr>RemoveProjects := [\<lparr>rp_Name = ''p''\<rparr>]\<rparr>] =
     Inr (empty_manifest\<lparr>Remotes := [sample_remote], Projects :=
       [Project (empty_attrs\<lparr>Name := ''p/q'', Path := ''p/q'', RemoteName := ''origin''\<rparr>) []]\<rparr>)"
    by code_simp
  from this mergeManifests_invariant [OF this] show ?thesis
    by (intro exI conjI) (auto simp: empty_manifest_def)
qed




section \<open>Visiting projects\<close>

text \<open>
  What \<open>ProjectHandle\<close> needs of a handler: it never fails and leaves the sub-projects and the
  path of the project alone. Then the visit keeps the shape of the tree, and it fails exactly
  when projects nest deeper than the recursion limit.
\<close>

fun project_depth :: "Project \<Rightarrow> nat" where
  "project_depth (Project v subs) = Suc (fold max (map project_depth subs) 0)"

fun same_shape :: "Project \<Rightarrow> Project \<Rightarrow> bool" where
  "same_shape (Project v ps) (Project w qs) \<longleftrightarrow>
     Path v = Path w \<and> Name v = Name w \<and> list_all2 same_shape ps qs"

lemma fold_max_le: "fold max xs a \<le> (n::nat) \<longleftrightarrow> a \<le> n \<and> (\<forall>x \<in> set xs. x \<le> n)"
  by (induction xs arbitrary: a) auto

locale project_visitor =
  fixes process :: handler
  assumes process_total: "\<exists>q. process p path = Inr q"
    and process_frame: "process p path = Inr q \<Longrightarrow>
      subprojects q = subprojects p \<and> Path (attrs q) = Path (attrs p) \<and> Name (attrs q) = Name (attrs p)"
begin

lemma execute_outcome:
  "if depth + project_depth p \<le> Suc maxRecursiveDepth
   then \<exists>q. execute process path depth p = Inr q \<and> same_shape p q
   else execute process path depth p = Inl (Error ''recursive is to deep'')"
proof (induction p arbitrary: path depth)
  case (Project v subs)
  obtain q where q: "process (Project v subs) path = Inr q" using process_total by blast
  from process_frame [OF q] have fr: "subprojects q = subs" "Path (attrs q) = Path v" "Name (attrs q) = Name v"
    by auto
  show ?case
  proof (cases "depth > maxRecursiveDepth")
    case True
    then show ?thesis by (simp add: execute.simps [of _ _ _ "Project v subs"])
  next
    case False
    let ?path = "if path = [] then Path v else Join [path, Path v]"
    let ?f = "execute process ?path (depth + 1)"
    have ex: "execute process path depth (Project v subs) =
        bind_result (mapM_result ?f subs) (\<lambda>ps. Inr (Project (attrs q) ps))"
      using False q fr by (simp add: execute.simps [of _ _ _ "Project v subs"] Let_def)
    have sub: "if \<forall>p \<in> set subs. depth + 1 + project_depth p \<le> Suc maxRecursiveDepth
        then \<exists>ps. mapM_result ?f subs = Inr ps \<and> list_all2 same_shape subs ps
        else mapM_result ?f subs = Inl (Error ''recursive is to deep'')"
      by (rule mapM_result_outcome) (rule Project.IH)
    have le: "(depth + project_depth (Project v subs) \<le> Suc maxRecursiveDepth) =
        (\<forall>p \<in> set subs. depth + 1 + project_depth p \<le> Suc maxRecursiveDepth)"
      using False fold_max_le [of "map project_depth subs" 0 "maxRecursiveDepth - depth"] by auto
    obtain w ws where w: "q = Project w ws" by (cases q)
    show ?thesis
      using sub fr w unfolding ex le by (auto split: if_splits)
  qed
qed

lemma visit_outcome:
  "if \<forall>p \<in> set (Projects v). project_depth p \<le> Suc maxRecursiveDepth
   then \<exists>v'. ProjectHandle process v = Inr v' \<and> list_all2 same_shape (Projects v) (Projects v')
   else ProjectHandle process v = Inl (Error ''recursive is to deep'')"
proof -
  have "if \<forall>p \<in> set (Projects v). project_depth p \<le> Suc maxRecursiveDepth
     then \<exists>qs. mapM_result (execute process [] 0) (Projects v) = Inr qs \<and> list_all2 same_shape (Projects v) qs
     else mapM_result (execute process [] 0) (Projects v) = Inl (Error ''recursive is to deep'')"
    by (rule mapM_result_outcome) (use execute_outcome [of 0 _ "[]"] in simp)
  then show ?thesis
    by (auto simp: ProjectHandle_def split: if_splits)
qed

end

end
