(* ===== verification/Path_Pkg.thy ===== *)
theory Path_Pkg
  imports Go_Filepath Refs
begin

text \<open>
  Package path (path/path.go): home directories, absolute paths, recognising git directories,
  and the two upward searches that find a repo workspace (\<open>FindTopDir\<close>) or a git work tree
  (\<open>FindGitWorkSpace\<close>). The operating system is a parameter, the record \<open>host\<close>: what
  \<^verbatim>\<open>os.Stat\<close>, reading a file, the working directory, the environment, symbolic-link
  resolution and \<^verbatim>\<open>filepath.Walk\<close> (the entries it visits, in its order) answer. Both searches are loops over \<open>Dir\<close>; their termination is proved from
  the measure of the path library.
\<close>

section \<open>The host\<close>

datatype stat_kind = RegularFile | Directory

record host =
  h_GOOS :: string
  h_Getenv :: "string \<Rightarrow> string"
  h_Getwd :: "string result"
  h_Stat :: "string \<Rightarrow> stat_kind result"
  h_ReadFile :: "string \<Rightarrow> string result"
  h_EvalSymlinks :: "string \<Rightarrow> string result"
  h_Walk :: "string \<Rightarrow> (string \<times> stat_kind) list"

definition Exist :: "host \<Rightarrow> string \<Rightarrow> bool" where
  "Exist h name = (case h_Stat h name of Inr _ \<Rightarrow> True | Inl _ \<Rightarrow> False)"

definition IsFile :: "host \<Rightarrow> string \<Rightarrow> bool" where
  "IsFile h name = (case h_Stat h name of Inl _ \<Rightarrow> False | Inr k \<Rightarrow> k \<noteq> Directory)"

definition IsDir :: "host \<Rightarrow> string \<Rightarrow> bool" where
  "IsDir h name = (case h_Stat h name of Inl _ \<Rightarrow> False | Inr k \<Rightarrow> k = Directory)"

section \<open>Home and absolute paths\<close>

definition HomeDir :: "host \<Rightarrow> string result" where
  "HomeDir h =
     (let home = (if h_GOOS h = ''windows'' then
                    (if h_Getenv h ''USERPROFILE'' = []
                     then h_Getenv h ''HOMEDRIVE'' @ h_Getenv h ''HOMEPATH''
                     else h_Getenv h ''USERPROFILE'')
                  else []);
          home = (if home = [] then h_Getenv h ''HOME'' else home)
      in if home = [] then Inl (Error ''cannot find HOME'') else Inr home)"

definition xdgConfigHome :: "host \<Rightarrow> string \<Rightarrow> string result" where
  "xdgConfigHome h file =
     (let home = h_Getenv h ''XDG_CONFIG_HOME'' in
      if home \<noteq> [] then Inr (Join [home, ''git'', file])
      else bind_result (HomeDir h) (\<lambda>home. Inr (Join [home, ''.config'', ''git'', file])))"

definition ExpendHome :: "host \<Rightarrow> string \<Rightarrow> string result" where
  "ExpendHome h name =
     (if IsAbs name then Inr name
      else bind_result (HomeDir h) (\<lambda>home.
        if name = [] \<or> name = ''~'' then Inr home
        else if length name > 1 \<and> name ! 0 = CHR ''~'' \<and> (name ! 1 = CHR ''/'' \<or> name ! 1 = CHR 0x5C)
        then Inr (Join [home, drop 2 name])
        else Inr (Join [home, name])))"

text \<open>\<^verbatim>\<open>filepath.Abs\<close>.\<close>

definition filepath_Abs :: "host \<Rightarrow> string \<Rightarrow> string result" where
  "filepath_Abs h name =
     (if IsAbs name then Inr (Clean name)
      else bind_result (h_Getwd h) (\<lambda>wd. Inr (Join [wd, name])))"

definition homePath :: "string \<Rightarrow> bool" where
  "homePath name = (length name > 0 \<and> name ! 0 = CHR ''~'' \<and>
     (length name = 1 \<or> name ! 1 = CHR ''/'' \<or> name ! 1 = CHR 0x5C))"

definition Abs :: "host \<Rightarrow> string \<Rightarrow> string result" where
  "Abs h name =
     (if name = [] then h_Getwd h
      else if IsAbs name then Inr name
      else if homePath name then ExpendHome h name
      else filepath_Abs h name)"

definition AbsJoin :: "host \<Rightarrow> string \<Rightarrow> string \<Rightarrow> string result" where
  "AbsJoin h d name =
     (if name = [] then filepath_Abs h d
      else if IsAbs name then Inr name
      else if homePath name then ExpendHome h name
      else Abs h (Join [d, name]))"

section \<open>Git directories\<close>

text \<open>The first line that \<^verbatim>\<open>bufio.Scanner\<close> yields; \<open>None\<close> when the file is empty.\<close>

definition scan_line :: "string \<Rightarrow> string option" where
  "scan_line s = (if s = [] then None
     else let l = takeWhile (\<lambda>c. c \<noteq> CHR 0x0A) s
          in Some (if l \<noteq> [] \<and> last l = CHR 0x0D then butlast l else l))"

definition commonDirOf :: "host \<Rightarrow> string \<Rightarrow> string" where
  "commonDirOf h d =
     (if IsFile h (Join [d, ''commondir'']) then
        (case h_ReadFile h (Join [d, ''commondir'']) of
           Inl _ \<Rightarrow> d
         | Inr s \<Rightarrow> (case scan_line s of None \<Rightarrow> d
             | Some t \<Rightarrow> if IsAbs t then t else Join [d, t]))
      else d)"

definition IsGitDir :: "host \<Rightarrow> string \<Rightarrow> bool" where
  "IsGitDir h d =
     (if \<not> IsFile h (Join [d, ''HEAD'']) then False
      else let commonDir = commonDirOf h d
           in IsFile h (Join [commonDir, ''config'']) \<and>
              IsDir h (Join [commonDir, ''refs'']) \<and>
              IsDir h (Join [commonDir, ''objects'']))"

section \<open>Upward searches\<close>

definition ErrRepoDirNotFound :: go_error where
  "ErrRepoDirNotFound = Error ''cannot find repodir''"

function findTopLoop :: "host \<Rightarrow> string \<Rightarrow> string result" where
  "findTopLoop h p =
     (case h_Stat h (Join [p, DotRepo]) of
        Inr k \<Rightarrow> if k = Directory then Inr p else Inl ErrRepoDirNotFound
      | Inl _ \<Rightarrow> if Dir p = p then Inl ErrRepoDirNotFound else findTopLoop h (Dir p))"
  by pat_completeness auto
termination
proof (relation "measure (\<lambda>(h, p). up_measure p)")
  fix h p e assume "Dir p \<noteq> p"
  then show "((h, Dir p), (h, p)) \<in> measure (\<lambda>(h, p). up_measure p)"
    using Dir_up_measure [of p] by simp
qed simp

declare findTopLoop.simps [simp del]

definition FindTopDir :: "host \<Rightarrow> string \<Rightarrow> string result" where
  "FindTopDir h d =
     bind_result (Abs h d) (\<lambda>p. bind_result (h_EvalSymlinks h p) (\<lambda>p. findTopLoop h p))"

text \<open>The line \<^verbatim>\<open>ReadString\<close> returns from a freshly opened file, up to and with the line feed.\<close>

definition read_line :: "string \<Rightarrow> string" where
  "read_line s = (let l = takeWhile (\<lambda>c. c \<noteq> CHR 0x0A) s
                  in if length l < length s then l @ [CHR 0x0A] else l)"

text \<open>A \<^verbatim>\<open>.git\<close> file: the repository it points to.\<close>

definition gitdirFile :: "host \<Rightarrow> string \<Rightarrow> string \<Rightarrow> (string \<times> string) result" where
  "gitdirFile h d gitdir =
     (case h_ReadFile h gitdir of
        Inl _ \<Rightarrow> Inl (Error (''cannot open gitdir file '' @ sq gitdir))
      | Inr content \<Rightarrow>
        let line = read_line content in
        if HasPrefix line ''gitdir:'' then
          let realgit = TrimSpace (TrimPrefix line ''gitdir:'') in
          bind_result (if IsAbs realgit then Inr realgit else AbsJoin h (Dir gitdir) realgit)
            (\<lambda>realgit. if IsGitDir h realgit then Inr (d, realgit)
              else Inl (Error (''gitdir '' @ sq gitdir @
                     '' points to corrupt git repo: '' @ realgit)))
        else Inl (Error (''bad gitdir file '' @ sq gitdir)))"

function findGitLoop :: "host \<Rightarrow> string \<Rightarrow> (string \<times> string) result" where
  "findGitLoop h d =
     (if IsGitDir h d then Inr (if Base d = ''.git'' then Dir d else [], d)
      else let gitdir = Join [d, ''.git''] in
      case h_Stat h gitdir of
        Inl _ \<Rightarrow> if Dir d = d then Inr ([], []) else findGitLoop h (Dir d)
      | Inr k \<Rightarrow>
          if k = Directory then
            (if IsGitDir h gitdir then Inr (d, gitdir)
             else Inl (Error (''corrupt git dir: '' @ gitdir)))
          else gitdirFile h d gitdir)"
  by pat_completeness auto
termination
proof (relation "measure (\<lambda>(h, p). up_measure p)")
  fix h p g e assume "Dir p \<noteq> p"
  then show "((h, Dir p), (h, p)) \<in> measure (\<lambda>(h, p). up_measure p)"
    using Dir_up_measure [of p] by simp
qed simp

declare findGitLoop.simps [simp del]

text \<open>Result: work tree and repository.\<close>

definition FindGitWorkSpace :: "host \<Rightarrow> string \<Rightarrow> (string \<times> string) result" where
  "FindGitWorkSpace h d = bind_result (Abs h d) (findGitLoop h)"

section \<open>The environment\<close>

definition SetHomeEnv :: "host \<Rightarrow> string \<Rightarrow> host" where
  "SetHomeEnv h home =
     (if h_GOOS h = ''windows'' then
        let env = (h_Getenv h)(''USERPROFILE'' := home)
        in case CutFirst home [CHR '':'', CHR 0x5C] of
             None \<Rightarrow> h\<lparr>h_Getenv := env\<rparr>
           | Some (drive, rest) \<Rightarrow>
               h\<lparr>h_Getenv := env(''HOMEDRIVE'' := drive @ '':'', ''HOMEPATH'' := CHR 0x5C # rest)\<rparr>
      else h\<lparr>h_Getenv := (h_Getenv h)(''HOME'' := home)\<rparr>)"

definition UnsetHomeEnv :: "host \<Rightarrow> host" where
  "UnsetHomeEnv h =
     h\<lparr>h_Getenv := (if h_GOOS h = ''windows''
        then (h_Getenv h)(''USERPROFILE'' := [], ''HOMEDRIVE'' := [], ''HOMEPATH'' := [])
        else h_Getenv h)(''HOME'' := [])\<rparr>"

section \<open>Correctness\<close>

text \<open>
  \<open>FindTopDir\<close>'s search is exactly "the nearest ancestor that has a \<^verbatim>\<open>.repo\<close>
  directory": the loop returns \<open>q\<close> if and only if \<open>q\<close> is the starting directory or one of its
  parents, \<^verbatim>\<open>.repo\<close> is a directory there, and in no directory below it does anything named
  \<^verbatim>\<open>.repo\<close> exist. In particular a plain file \<^verbatim>\<open>.repo\<close> stops the search.
\<close>

theorem findTopLoop_nearest:
  "findTopLoop h p = Inr q \<longleftrightarrow>
     (\<exists>n. q = (Dir ^^ n) p \<and> h_Stat h (Join [q, DotRepo]) = Inr Directory \<and>
        (\<forall>m. m < n \<longrightarrow> \<not> Exist h (Join [(Dir ^^ m) p, DotRepo])))"
  (is "_ \<longleftrightarrow> ?spec p")
proof
  show "findTopLoop h p = Inr q \<Longrightarrow> ?spec p"
  proof (induction h p rule: findTopLoop.induct)
    case (1 h p)
    show ?case
    proof (cases "h_Stat h (Join [p, DotRepo])")
      case (Inr k)
      with 1(2) have "q = p \<and> k = Directory" by (simp add: findTopLoop.simps [of h p] split: if_splits)
      with Inr show ?thesis by (intro exI [of _ 0]) simp
    next
      case (Inl e)
      with 1(2) have np: "Dir p \<noteq> p" and q: "findTopLoop h (Dir p) = Inr q"
        by (auto simp: findTopLoop.simps [of h p] split: if_splits)
      from 1(1) [OF Inl np q] obtain n where n: "q = (Dir ^^ n) (Dir p)"
        "h_Stat h (Join [q, DotRepo]) = Inr Directory"
        "\<And>m. m < n \<Longrightarrow> \<not> Exist h (Join [(Dir ^^ m) (Dir p), DotRepo])" by blast
      have "\<not> Exist h (Join [(Dir ^^ m) p, DotRepo])" if "m < Suc n" for m
        using that n(3) Inl by (cases m) (auto simp: Exist_def funpow_Suc_right simp del: funpow.simps)
      with n show ?thesis
        by (intro exI [of _ "Suc n"]) (simp add: funpow_Suc_right del: funpow.simps)
    qed
  qed
next
  assume "?spec p"
  then obtain n where "q = (Dir ^^ n) p" "h_Stat h (Join [q, DotRepo]) = Inr Directory"
    "\<And>m. m < n \<Longrightarrow> \<not> Exist h (Join [(Dir ^^ m) p, DotRepo])" by blast
  then show "findTopLoop h p = Inr q"
  proof (induction n arbitrary: p)
    case 0
    then show ?case by (simp add: findTopLoop.simps)
  next
    case (Suc n)
    from Suc.prems(3) [of 0] obtain e where e: "h_Stat h (Join [p, DotRepo]) = Inl e"
      by (auto simp: Exist_def split: sum.splits)
    have "Dir p \<noteq> p"
    proof
      assume fp: "Dir p = p"
      have "(Dir ^^ k) p = p" for k by (induction k) (use fp in auto)
      with Suc.prems(1) have "q = p" by (simp only:)
      with Suc.prems(2) e show False by simp
    qed
    moreover have "findTopLoop h (Dir p) = Inr q"
    proof (rule Suc.IH)
      show "\<not> Exist h (Join [(Dir ^^ m) (Dir p), DotRepo])" if "m < n" for m
        using Suc.prems(3) [of "Suc m"] that by (simp add: funpow_Suc_right del: funpow.simps)
    qed (use Suc.prems in \<open>simp_all add: funpow_Suc_right del: funpow.simps\<close>)
    ultimately show ?case using e by (simp add: findTopLoop.simps [of h p])
  qed
qed

text \<open>A host with one repository at \<^verbatim>\<open>/w/.git\<close>, for witnesses.\<close>

definition sample_host :: host where
  "sample_host = \<lparr>h_GOOS = ''linux'', h_Getenv = (\<lambda>k. if k = ''HOME'' then ''/home/me'' else []),
     h_Getwd = Inr ''/w/src'',
     h_Stat = (\<lambda>p. if p \<in> set [''/w'', ''/w/.repo'', ''/w/.git'', ''/w/.git/refs'', ''/w/.git/objects'']
                   then Inr Directory
                   else if p \<in> set [''/w/.git/HEAD'', ''/w/.git/config''] then Inr RegularFile
                   else Inl (Error ''no such file'')),
     h_ReadFile = (\<lambda>p. Inl (Error ''no such file'')),
     h_EvalSymlinks = Inr, h_Walk = (\<lambda>_. [])\<rparr>"

theorem findTopLoop_nearest_witness:
  "\<exists>n. ''/w'' = (Dir ^^ n) ''/w/src/x'' \<and> h_Stat sample_host (Join [''/w'', DotRepo]) = Inr Directory \<and>
     (\<forall>m. m < n \<longrightarrow> \<not> Exist sample_host (Join [(Dir ^^ m) ''/w/src/x'', DotRepo]))"
proof -
  have "findTopLoop sample_host ''/w/src/x'' = Inr ''/w''" by code_simp
  then show ?thesis unfolding findTopLoop_nearest .
qed

lemma gitdirFile_sound: "gitdirFile h d g = Inr (w, r) \<Longrightarrow> w = d \<and> IsGitDir h r"
  by (auto simp: gitdirFile_def Let_def result_simps split: sum.splits if_splits)

text \<open>
  Whatever \<open>FindGitWorkSpace\<close> returns without an error is either nothing at all
  (both parts empty: the root was reached) or a directory that passes the git-directory check;
  a \<^verbatim>\<open>.git\<close> entry that does not lead to a repository is always an error, never skipped.
\<close>

theorem findGitLoop_sound:
  assumes "findGitLoop h d = Inr (w, r)"
  shows "(w = [] \<and> r = []) \<or> IsGitDir h r"
  using assms
proof (induction h d rule: findGitLoop.induct)
  case (1 h d)
  show ?case
  proof (cases "IsGitDir h d")
    case True
    with 1(2) show ?thesis by (simp add: findGitLoop.simps [of h d])
  next
    case False
    show ?thesis
    proof (cases "h_Stat h (Join [d, ''.git''])")
      case (Inl e)
      with False 1 show ?thesis by (auto simp: findGitLoop.simps [of h d] split: if_splits)
    next
      case (Inr k)
      with False 1(2) show ?thesis
        by (auto simp: findGitLoop.simps [of h d] Let_def split: if_splits dest: gitdirFile_sound)
    qed
  qed
qed

theorem findGitLoop_sound_witness:
  "findGitLoop sample_host ''/w/src'' = Inr (''/w'', ''/w/.git'') \<and>
   ((''/w'' = ([]::string) \<and> ''/w/.git'' = ([]::string)) \<or> IsGitDir sample_host ''/w/.git'')"
proof -
  have "findGitLoop sample_host ''/w/src'' = Inr (''/w'', ''/w/.git'')" by code_simp
  with findGitLoop_sound [OF this] show ?thesis by blast
qed

text \<open>
  Setting the home directory makes it the home directory, on Unix and on Windows:
  after \<open>SetHome\<close>, \<open>HomeDir\<close> returns exactly the path that was set.
\<close>

theorem HomeDir_SetHome:
  assumes "home \<noteq> []"
  shows "HomeDir (SetHomeEnv h home) = Inr home"
  using assms by (auto simp: HomeDir_def SetHomeEnv_def Let_def split: option.split)

theorem HomeDir_SetHome_witness: "HomeDir (SetHomeEnv sample_host ''/x'') = Inr ''/x''"
  by (rule HomeDir_SetHome) simp

end
