(* ===== verification/Project_Groups.thy ===== *)
theory Project_Groups
  imports Prelude
begin

text \<open>
  Group filters (project/group.go): \<open>MatchGroups\<close> decides from a filter such as
  \<^verbatim>\<open>default,-tools\<close> and a project's group list whether the project is selected.
\<close>

definition groupDefaultConst :: string where "groupDefaultConst = ''default''"
definition groupAllConst :: string where "groupAllConst = ''all''"
definition groupNotDefaultConst :: string where "groupNotDefaultConst = ''notdefault''"

definition projectGroups :: "string \<Rightarrow> string list" where
  "projectGroups groups =
     (let gs = map TrimSpace (StrSplit groups CHR '','') in
      [groupAllConst] @ gs @ (if groupNotDefaultConst \<in> set gs then [] else [groupDefaultConst]))"

definition matchStep :: "string list \<Rightarrow> bool \<Rightarrow> string \<Rightarrow> bool" where
  "matchStep pgs matched g =
     (let inverse = HasPrefix g ''-''; g = (if inverse then drop 1 g else g)
      in if g \<in> set pgs then \<not> inverse else matched)"

definition MatchGroups :: "string \<Rightarrow> string \<Rightarrow> bool" where
  "MatchGroups match groups =
     (let matchGroups = map TrimSpace (StrSplit match CHR '','');
          matchGroups = (if length matchGroups = 0 then [groupDefaultConst] else matchGroups)
      in foldl (matchStep (projectGroups groups)) False matchGroups)"

section \<open>Specification\<close>

text \<open>A filter item names a group, possibly negated.\<close>

definition item_group :: "string \<Rightarrow> string" where
  "item_group g = (if HasPrefix g ''-'' then drop 1 g else g)"

text \<open>The items of the filter that name a group of the project, in order.\<close>

definition relevant_items :: "string \<Rightarrow> string \<Rightarrow> string list" where
  "relevant_items match groups =
     filter (\<lambda>g. item_group g \<in> set (projectGroups groups))
       (map TrimSpace (StrSplit match CHR '',''))"

lemma foldl_matchStep:
  "foldl (matchStep pgs) b gs =
     (let rs = filter (\<lambda>g. item_group g \<in> set pgs) gs
      in if rs = [] then b else \<not> HasPrefix (last rs) ''-'')"
  by (induction gs rule: rev_induct) (auto simp: matchStep_def item_group_def Let_def)

text \<open>
  The last filter item that names one of the project's groups decides: the
  project is selected exactly when there is such an item and it is not negated. Every project
  is in group \<^verbatim>\<open>all\<close>, and in group \<^verbatim>\<open>default\<close> unless it declares \<^verbatim>\<open>notdefault\<close>.
\<close>

theorem MatchGroups_last_wins:
  "MatchGroups match groups =
     (let rs = relevant_items match groups in rs \<noteq> [] \<and> \<not> HasPrefix (last rs) ''-'')
   \<and> ''all'' \<in> set (projectGroups groups)
   \<and> (''default'' \<in> set (projectGroups groups) \<or>
      ''notdefault'' \<in> set (map TrimSpace (StrSplit groups CHR '','')))"
proof (intro conjI)
  show "MatchGroups match groups =
     (let rs = relevant_items match groups in rs \<noteq> [] \<and> \<not> HasPrefix (last rs) ''-'')"
    by (auto simp: MatchGroups_def relevant_items_def foldl_matchStep Let_def)
qed (auto simp: projectGroups_def groupAllConst_def groupDefaultConst_def
      groupNotDefaultConst_def Let_def)

text \<open>
  The guard for an empty filter is never taken, because splitting an empty string
  yields one empty item: an empty filter selects a project only if one of its group entries is
  blank, instead of falling back to the default group.
\<close>

theorem MatchGroups_empty_filter:
  "MatchGroups [] groups = ([] \<in> set (map TrimSpace (StrSplit groups CHR '','')))"
  by (auto simp: MatchGroups_def matchStep_def projectGroups_def groupAllConst_def
      groupDefaultConst_def TrimSpace_def TrimRightIf_def HasPrefix_def Let_def)

end
