(* ===== verification/Project_Pkg.thy ===== *)
theory Project_Pkg
  imports Manifest_Proofs Git_URL Path_Pkg Project_Groups
begin

text \<open>
  Package project, the project objects (project/project.go, the data of project/repository.go
  and project/manifest\_project.go): construction from a manifest element, directory layout, remote
  addresses, settings, published references, and the grouping of projects into trees. The
  settings are shared by pointer among the projects of a workspace, so the operations that
  change them take and return them. Git configuration files (package goconfig), go-git's
  references and the URL parser of net/url are fields of \<open>penv\<close>.
\<close>

section \<open>Data\<close>

record RepoSettings =
  TopDir :: string
  ManifestURL :: string
  ManifestName :: string
  rs_Groups :: string
  rs_Reference :: string
  rs_Revision :: string
  Depth :: int
  Archive :: bool
  Dissociate :: bool
  Mirror :: bool
  Submodules :: bool

definition RepoSettings0 :: RepoSettings where
  "RepoSettings0 = \<lparr>TopDir = [], ManifestURL = [], ManifestName = [], rs_Groups = [], rs_Reference = [],
     rs_Revision = [], Depth = 0, Archive = False, Dissociate = False, Mirror = False, Submodules = False\<rparr>"

record Repository =
  mproject :: ProjectAttrs
  DotGit :: string
  GitDir :: string
  ObjectsGitDir :: string
  ManifestDefaultRevision :: string
  IsBare :: bool
  RemoteURL :: string
  Reference :: string

record WorkProject = Repository +
  WorkDir :: string

record penv =
  pe_host :: host
  pe_ConfigHas :: "string \<Rightarrow> string \<Rightarrow> bool"     \<comment> \<open>repository directory and key\<close>
  pe_ConfigGet :: "string \<Rightarrow> string \<Rightarrow> string"
  pe_RequestURI :: "string \<Rightarrow> string option"

abbreviation pName :: "'a Repository_scheme \<Rightarrow> string" where "pName p \<equiv> Name (mproject p)"
abbreviation pPath :: "'a Repository_scheme \<Rightarrow> string" where "pPath p \<equiv> Path (mproject p)"

section \<open>Configuration with defaults\<close>

text \<open>\<open>settingsDir\<close> is the repository of the manifest project, whose configuration the settings
  refer to, if there is one.\<close>

definition ConfigWithDefault_HasKey :: "penv \<Rightarrow> string option \<Rightarrow> WorkProject \<Rightarrow> string \<Rightarrow> bool" where
  "ConfigWithDefault_HasKey env settingsDir v key =
     (let val = pe_ConfigHas env (GitDir v) key in
      if val \<or> isMetaProject (mproject v) then val
      else case settingsDir of Some d \<Rightarrow> pe_ConfigHas env d key | None \<Rightarrow> False)"

definition ConfigWithDefault_Get :: "penv \<Rightarrow> string option \<Rightarrow> WorkProject \<Rightarrow> string \<Rightarrow> string" where
  "ConfigWithDefault_Get env settingsDir v key =
     (let val = pe_ConfigGet env (GitDir v) key in
      if val \<noteq> [] \<or> isMetaProject (mproject v) then val
      else case settingsDir of Some d \<Rightarrow> pe_ConfigGet env d key | None \<Rightarrow> [])"

definition ConfigWithDefault_GetBool :: "penv \<Rightarrow> string option \<Rightarrow> WorkProject \<Rightarrow> string \<Rightarrow> bool \<Rightarrow> bool" where
  "ConfigWithDefault_GetBool env settingsDir v key defaultVal =
     (let val = ToLower (ConfigWithDefault_Get env settingsDir v key) in
      if val = ''yes'' \<or> val = ''true'' \<or> val = ''on'' then True
      else if val = ''no'' \<or> val = ''false'' \<or> val = ''off'' then False
      else defaultVal)"

definition UserEmail :: "penv \<Rightarrow> string option \<Rightarrow> WorkProject \<Rightarrow> string" where
  "UserEmail env settingsDir v =
     (let n = h_Getenv (pe_host env) ''GIT_COMMITTER_NAME''; m = h_Getenv (pe_host env) ''GIT_COMMITTER_EMAIL'';
          username = (if n = [] then ConfigWithDefault_Get env settingsDir v ''user.name'' else n);
          useremail = (if m = [] then ConfigWithDefault_Get env settingsDir v ''user.email'' else m)
      in if username \<noteq> [] \<and> useremail \<noteq> [] then
           (if StrContains username '' '' then dq username else username) @ '' <'' @ useremail @ ''>''
         else [])"

section \<open>Reference repositories\<close>

fun firstReference :: "host \<Rightarrow> string \<Rightarrow> string list \<Rightarrow> string" where
  "firstReference h ref [] = []"
| "firstReference h ref (d # ds) =
     (let dir = Join [ref, Join (d # ds)] in if IsDir h dir then dir else firstReference h ref ds)"

definition referencePath :: "penv \<Rightarrow> ProjectAttrs \<Rightarrow> RepoSettings \<Rightarrow> RepoSettings \<times> string" where
  "referencePath env mp s =
     (let h = pe_host env in
      if rs_Reference s = [] then (s, [])
      else case (if IsAbs (rs_Reference s) then Inr (rs_Reference s) else Abs h (rs_Reference s)) of
          Inl _ \<Rightarrow> (s\<lparr>rs_Reference := []\<rparr>, [])
        | Inr ref \<Rightarrow>
          (s\<lparr>rs_Reference := ref\<rparr>,
           if \<not> isMetaProject mp then
             (let d1 = Join [ref, Name mp @ ''.git'']; d2 = Join [ref, DotRepo, ProjectsDir, Path mp @ ''.git''] in
              if Exist h d1 then d1 else if Exist h d2 then d2 else [])
           else
             (let r1 = (if ManifestURL s \<noteq> [] then
                          (case pe_RequestURI env (ManifestURL s) of None \<Rightarrow> []
                           | Some dir \<Rightarrow>
                             firstReference h ref (tl (StrSplit (if HasSuffix dir ''.git'' then dir else dir @ ''.git'') CHR ''/'')))
                        else []);
                  d = Join [ref, DotRepo, ManifestsDotGit]
              in if r1 = [] then if IsDir h d then d else [] else r1)))"

section \<open>Remote addresses\<close>

definition orOrigin :: "string \<Rightarrow> string" where
  "orOrigin r = (if r = [] then ''origin'' else r)"

definition gitConfigRemoteURL :: "penv \<Rightarrow> WorkProject \<Rightarrow> string" where
  "gitConfigRemoteURL env v =
     pe_ConfigGet env (GitDir v) (''remote.'' @ orOrigin (RemoteName (mproject v)) @ ''.url'')"

definition GetRemoteURL :: "penv \<Rightarrow> RepoSettings \<Rightarrow> WorkProject \<Rightarrow> RepoSettings \<times> string result" where
  "GetRemoteURL env s v =
     (let s1 = (if ManifestURL s = [] \<and> isMetaProject (mproject v)
                then s\<lparr>ManifestURL := gitConfigRemoteURL env v\<rparr> else s)
      in (s1,
          if ManifestURL s1 = [] then Inl (Error (''project '' @ sq (pName v) @ '' has empty manifest url''))
          else if isMetaProject (mproject v) then Inr (ManifestURL s1)
          else case ManifestRemote (mproject v) of
              None \<Rightarrow> Inl (Error (''project '' @ sq (pName v) @ '' has no remote '' @ sq (RemoteName (mproject v))))
            | Some r \<Rightarrow>
                (case URLJoin (ManifestURL s1) [rm_Fetch r, pName v @ ''.git''] of
                   Inl e \<Rightarrow> Inl (Error (''fail to remote url for '' @ sq (pName v) @ '': '' @ errText e))
                 | Inr u \<Rightarrow> Inr u)))"

text \<open>\<open>SetManifestURL\<close>: the settings and, for the manifest project, the configuration value written.\<close>

definition withDotGit :: "string \<Rightarrow> string" where
  "withDotGit url = (if url \<noteq> [] \<and> \<not> HasSuffix url ''.git'' then url @ ''.git'' else url)"

definition SetGitRemoteURL :: "penv \<Rightarrow> WorkProject \<Rightarrow> string \<Rightarrow> (string \<times> string) result" where
  "SetGitRemoteURL env v url =
     (if \<not> IsGitDir (pe_host env) (GitDir v)
      then Inl (Error (''project '' @ sq (pName v) @ '' has no working repository''))
      else Inr (''remote.'' @ orOrigin (RemoteName (mproject v)) @ ''.url'', url))"

definition SetManifestURL :: "penv \<Rightarrow> RepoSettings \<Rightarrow> WorkProject \<Rightarrow> string \<Rightarrow> RepoSettings \<times> (string \<times> string) option result" where
  "SetManifestURL env s v url =
     (let u = withDotGit url in
      if ManifestURL s = u \<or> u = [] then (s, Inr None)
      else (s\<lparr>ManifestURL := u\<rparr>,
            if isMetaProject (mproject v) then bind_result (SetGitRemoteURL env v u) (\<lambda>kv. Inr (Some kv))
            else Inr None))"

section \<open>Construction\<close>

text \<open>A use of the pointer \<^verbatim>\<open>m.Default\<close>.\<close>

definition deref :: "Default option \<Rightarrow> (Default \<Rightarrow> 'a) \<Rightarrow> 'a result" where
  "deref d f = (case d of None \<Rightarrow> Inl (Panic ''nil pointer dereference'') | Some df \<Rightarrow> Inr (f df))"

text \<open>The attributes taken over from the default element.\<close>

definition defaultAttrs :: "Default option \<Rightarrow> ProjectAttrs \<Rightarrow> ProjectAttrs result" where
  "defaultAttrs d a =
     bind_result (if RemoteName a = [] then deref d (\<lambda>df. a\<lparr>RemoteName := df_RemoteName df\<rparr>) else Inr a) (\<lambda>a.
     bind_result (if Revision a = [] then deref d (\<lambda>df. if df_Revision df \<noteq> [] then a\<lparr>Revision := df_Revision df\<rparr> else a) else Inr a) (\<lambda>a.
     bind_result (if DestBranch a = [] then deref d (\<lambda>df. if df_DestBranch df \<noteq> [] then a\<lparr>DestBranch := df_DestBranch df\<rparr> else a) else Inr a) (\<lambda>a.
     if Upstream a = [] then deref d (\<lambda>df. if df_Upstream df \<noteq> [] then a\<lparr>Upstream := df_DestBranch df\<rparr> else a) else Inr a)))"

definition defaultRevision :: "bool \<Rightarrow> Default option \<Rightarrow> ProjectAttrs \<Rightarrow> string result" where
  "defaultRevision mirror d a =
     (if Revision a = [] \<or> IsImmutable (Revision a)
      then deref d (\<lambda>df. if \<not> mirror \<and> IsImmutable (df_Revision df) then [] else df_Revision df)
      else Inr [])"

definition fillDefaults :: "bool \<Rightarrow> Manifest option \<Rightarrow> WorkProject \<Rightarrow> WorkProject result" where
  "fillDefaults mirror m v =
     (case m of None \<Rightarrow> Inr v
      | Some mf \<Rightarrow>
        bind_result (defaultAttrs (mDefault mf) (mproject v)) (\<lambda>a.
        bind_result (defaultRevision mirror (mDefault mf) a) (\<lambda>r.
          Inr (v\<lparr>mproject := a, ManifestDefaultRevision := r\<rparr>))))"

text \<open>The remote address is computed last; its failure is a panic.\<close>

definition finishProject :: "penv \<Rightarrow> RepoSettings \<Rightarrow> WorkProject \<Rightarrow> (RepoSettings \<times> WorkProject) result" where
  "finishProject env s v =
     (case GetRemoteURL env s v of
        (s', Inl e) \<Rightarrow> Inl (Panic (''fail to get remote url for '' @ sq (pName v) @ '': '' @ errText e))
      | (s', Inr u) \<Rightarrow> Inr (s', v\<lparr>RemoteURL := u\<rparr>))"

definition NewProject :: "penv \<Rightarrow> ProjectAttrs \<Rightarrow> RepoSettings \<Rightarrow> Manifest option \<Rightarrow> (RepoSettings \<times> WorkProject) result" where
  "NewProject env mp s m =
     (if \<not> isMetaProject mp \<and> ManifestURL s = [] then Inl (Panic (''unknown remote url for '' @ Name mp))
      else
        let s1 = s\<lparr>ManifestURL := withDotGit (ManifestURL s)\<rparr>;
            workDir = (if isMetaProject mp then Join [TopDir s1, DotRepo, Path mp] else Join [TopDir s1, Path mp]);
            gitDir = (if isMetaProject mp then Join [TopDir s1, DotRepo, Path mp @ ''.git'']
                      else Join [TopDir s1, DotRepo, ProjectsDir, Path mp @ ''.git'']);
            objectsGitDir = (if isMetaProject mp then []
                             else Join [TopDir s1, DotRepo, ProjectObjects, Name mp @ ''.git'']);
            (s2, ref) = referencePath env mp s1
        in bind_result (fillDefaults False m
             \<lparr>mproject = mp, DotGit = Join [workDir, ''.git''], GitDir = gitDir, ObjectsGitDir = objectsGitDir,
              ManifestDefaultRevision = [], IsBare = False, RemoteURL = [], Reference = ref, WorkDir = workDir\<rparr>)
             (finishProject env s2))"

definition NewMirrorProject :: "penv \<Rightarrow> ProjectAttrs \<Rightarrow> RepoSettings \<Rightarrow> Manifest option \<Rightarrow> (RepoSettings \<times> WorkProject) result" where
  "NewMirrorProject env mp s m =
     (let s1 = s\<lparr>ManifestURL := withDotGit (ManifestURL s)\<rparr>;
          gitDir = Join [TopDir s1, Name mp @ ''.git''];
          (s2, ref) = referencePath env mp s1
      in bind_result (fillDefaults True m
           \<lparr>mproject = mp, DotGit = [], GitDir = gitDir, ObjectsGitDir = gitDir,
            ManifestDefaultRevision = [], IsBare = True, RemoteURL = [], Reference = ref, WorkDir = []\<rparr>)
           (\<lambda>v. if \<not> isMetaProject mp \<and> ManifestURL s2 = [] then Inl (Panic (''unknown remote url for '' @ Name mp))
                else finishProject env s2 v))"

definition Project_Exists :: "host \<Rightarrow> WorkProject \<Rightarrow> bool" where
  "Project_Exists h v \<longleftrightarrow> IsDir h (GitDir v) \<and> IsDir h (ObjectsGitDir v)"

definition Project_MatchGroups :: "WorkProject \<Rightarrow> string \<Rightarrow> bool" where
  "Project_MatchGroups v expect = MatchGroups expect (Groups (mproject v))"

section \<open>Published references\<close>

text \<open>The hash references of the repository, in the order of the iteration; the result is what
  is removed.\<close>

definition CleanPublishedCache :: "(string \<times> string) list \<Rightarrow> string list" where
  "CleanPublishedCache refs =
     (let heads = filter (\<lambda>n. \<not> HasPrefix n RefsPub \<and> HasPrefix n RefsHeads) (map fst refs);
          pubs = filter (\<lambda>n. HasPrefix n RefsPub) (map fst refs)
      in filter (\<lambda>n. RefsHeads @ TrimPrefix n RefsPub \<notin> set heads) pubs)"

definition PublishedReference :: "(string \<Rightarrow> string option) \<Rightarrow> string \<Rightarrow> string" where
  "PublishedReference resolve branch =
     (let pub = RefsPub @ branch in if resolve pub \<noteq> None then pub else [])"

definition PublishedRevision :: "(string \<Rightarrow> string option) \<Rightarrow> string \<Rightarrow> string" where
  "PublishedRevision resolve branch =
     (let pub = RefsPub @ TrimPrefix branch RefsHeads in
      case resolve pub of None \<Rightarrow> [] | Some h \<Rightarrow> h)"

section \<open>Collections of projects\<close>

text \<open>A slice made with \<^verbatim>\<open>make([]*Project, n)\<close> starts with \<open>n\<close> nil pointers.\<close>

definition joinStep :: "string list \<times> WorkProject option list \<Rightarrow> WorkProject \<Rightarrow> string list \<times> WorkProject option list" where
  "joinStep st p = (case st of (seen, res) \<Rightarrow>
     if pPath p \<in> set seen then (seen, res) else (pPath p # seen, res @ [Some p]))"

definition Projects_Join :: "WorkProject list \<Rightarrow> WorkProject list \<Rightarrow> WorkProject option list" where
  "Projects_Join group1 group2 =
     snd (foldl joinStep (foldl joinStep ([], replicate (length group1 + length group2) None) group1) group2)"

definition IndexByName :: "WorkProject list \<Rightarrow> string \<rightharpoonup> WorkProject list" where
  "IndexByName ps =
     foldl (\<lambda>res p. res(pName p \<mapsto> (case res (pName p) of None \<Rightarrow> [p] | Some qs \<Rightarrow> qs @ [p]))) Map.empty ps"

definition IndexByPath :: "WorkProject list \<Rightarrow> string \<rightharpoonup> WorkProject" where
  "IndexByPath ps = foldl (\<lambda>res p. res(pPath p \<mapsto> p)) Map.empty ps"

datatype 'p Tree = Tree (tree_Path: string) (tree_Project: "'p option") (tree_Trees: "'p Tree list")

definition trimSlashes :: "string \<Rightarrow> string" where
  "trimSlashes = TrimRightIf (\<lambda>c. c = CHR ''/'')"

definition attachLast :: "'p Tree list \<Rightarrow> 'p Tree list \<Rightarrow> 'p Tree list" where
  "attachLast ts new =
     (if ts = [] then [] else butlast ts @ [Tree (tree_Path (last ts)) (tree_Project (last ts)) (tree_Trees (last ts) @ new)])"

text \<open>The loop over the sorted paths; \<open>prev\<close> is the path before the current one and the last of
  the trees built so far is \<^verbatim>\<open>oldEntry\<close>. The run of paths below \<open>prev\<close> goes to a recursive call.\<close>

function treeAppend :: "(string \<rightharpoonup> 'p) \<Rightarrow> string option \<Rightarrow> 'p Tree list \<Rightarrow> string list \<Rightarrow> 'p Tree list" where
  "treeAppend pMap prev trees [] = trees"
| "treeAppend pMap prev trees (q # ps) =
     (let p = trimSlashes q in
      case prev of
        Some r \<Rightarrow>
          if HasPrefix p (r @ ''/'') then
            let ins = takeWhile (\<lambda>x. HasPrefix x (r @ ''/'')) ps;
                outs = dropWhile (\<lambda>x. HasPrefix x (r @ ''/'')) ps
            in treeAppend pMap (Some (trimSlashes (last (p # ins))))
                 (attachLast trees (treeAppend pMap None [] (p # ins))) outs
          else treeAppend pMap (Some p) (trees @ [Tree p (pMap p) []]) ps
      | None \<Rightarrow> treeAppend pMap (Some p) (trees @ [Tree p (pMap p) []]) ps)"
  by pat_completeness auto
termination
  by (relation "measure (\<lambda>(_, prev, _, ps). 2 * length ps + (if prev = None then 0 else 1))")
    (auto simp: less_Suc_eq_le length_takeWhile_le length_dropWhile_le intro: le_SucI)

definition ProjectsTree :: "WorkProject list \<Rightarrow> WorkProject Tree" where
  "ProjectsTree ps = Tree ''/'' None (treeAppend (IndexByPath ps) None [] (sort (map pPath ps)))"

end
