(* ===== verification/Machine.thy ===== *)
theory Machine
  imports Project_Pkg "HOL-Library.Sublist"
begin

text \<open>
  Operations with effects. What the program does to its surroundings is a sequence of actions
  (commands run, configuration saved, references and files written), and what it can observe at
  any time is a \<open>machine\<close>: the files, the git configurations (package goconfig), the references
  and objects seen by go-git, the output of commands, and whether an action would fail. A \<open>world\<close>
  gives the machine found after the actions performed so far, so nothing is assumed about the
  effect of a command; a property that needs such an assumption states it. An operation threads
  the sequence of actions and ends with a value or an error; a fatal error or a panic cannot be
  handled by a caller.
\<close>

section \<open>Actions, machines and worlds\<close>

datatype action =
    Run string "string list"                          \<comment> \<open>directory and command line\<close>
  | RunEnv string "string list" "string list"          \<comment> \<open>with additions to the environment\<close>
  | SaveConfig string "(string \<times> string option) list"  \<comment> \<open>file and changed keys\<close>
  | RemoveRef string string
  | SetRef string string string
  | MkdirAll string
  | Remove string
  | RemoveAll string
  | WriteFile string string
  | CopyTo string string
  | Symlink string string
  | HardLink string string
  | Rename string string
  | Ask string                                       \<comment> \<open>a prompt for a line of input\<close>

record machine =
  mc_host :: host
  mc_Config :: "string \<Rightarrow> (string \<rightharpoonup> string) result"     \<comment> \<open>configuration file; empty if there is none\<close>
  mc_Sections :: "string \<Rightarrow> string list"             \<comment> \<open>the sections of a configuration file\<close>
  mc_Open :: "string \<Rightarrow> bool"                        \<comment> \<open>go-git can open the repository\<close>
  mc_Resolve :: "string \<Rightarrow> string \<Rightarrow> string result"     \<comment> \<open>the commit of a revision\<close>
  mc_Refs :: "string \<Rightarrow> (string \<times> string) list"        \<comment> \<open>hash references in their order\<close>
  mc_Head :: "string \<Rightarrow> (string \<times> string) option"      \<comment> \<open>name and commit of HEAD\<close>
  mc_Output :: "string \<Rightarrow> string list \<Rightarrow> string \<times> string option" \<comment> \<open>output and error of a command\<close>
  mc_Fails :: "action \<Rightarrow> string option"              \<comment> \<open>the error of an action\<close>
  mc_Readlink :: "string \<Rightarrow> string option"
  mc_Size :: "string \<Rightarrow> nat"
  mc_Home :: "string result"                         \<comment> \<open>package homedir\<close>
  mc_Symlinks :: bool
  mc_Answer :: string                               \<comment> \<open>the line read after a prompt\<close>

type_synonym world = "action list \<Rightarrow> machine"
type_synonym 'a op = "world \<Rightarrow> action list \<Rightarrow> action list \<times> 'a result"

section \<open>Sequencing\<close>

definition ret :: "'a \<Rightarrow> 'a op" where "ret x = (\<lambda>w tr. (tr, Inr x))"

definition fail :: "go_error \<Rightarrow> 'a op" where "fail e = (\<lambda>w tr. (tr, Inl e))"

definition bnd :: "'a op \<Rightarrow> ('a \<Rightarrow> 'b op) \<Rightarrow> 'b op" where
  "bnd m f = (\<lambda>w tr. case m w tr of (tr1, Inl e) \<Rightarrow> (tr1, Inl e) | (tr1, Inr x) \<Rightarrow> f x w tr1)"

definition look :: "(machine \<Rightarrow> 'a) \<Rightarrow> 'a op" where "look g = (\<lambda>w tr. (tr, Inr (g (w tr))))"

definition lookR :: "(machine \<Rightarrow> 'a result) \<Rightarrow> 'a op" where "lookR g = (\<lambda>w tr. (tr, g (w tr)))"

definition perform :: "action \<Rightarrow> unit op" where
  "perform a = (\<lambda>w tr. (tr @ [a], case mc_Fails (w tr) a of None \<Rightarrow> Inr () | Some e \<Rightarrow> Inl (Error e)))"

text \<open>The error of an operation as a value, for the callers that handle or ignore it.\<close>

definition attempt :: "'a op \<Rightarrow> (string + 'a) op" where
  "attempt m = (\<lambda>w tr. case m w tr of
     (tr1, Inl (Error e)) \<Rightarrow> (tr1, Inr (Inl e))
   | (tr1, Inl e) \<Rightarrow> (tr1, Inl e)
   | (tr1, Inr x) \<Rightarrow> (tr1, Inr (Inr x)))"

definition ignore :: "'a op \<Rightarrow> unit op" where "ignore m = bnd (attempt m) (\<lambda>_. ret ())"

definition wrapErr :: "(string \<Rightarrow> string) \<Rightarrow> 'a op \<Rightarrow> 'a op" where
  "wrapErr g m = bnd (attempt m) (\<lambda>r. case r of Inl e \<Rightarrow> fail (Error (g e)) | Inr x \<Rightarrow> ret x)"

definition andThen :: "unit op \<Rightarrow> 'a op \<Rightarrow> 'a op" where "andThen m k = bnd m (\<lambda>_. k)"

definition doIf :: "bool \<Rightarrow> unit op \<Rightarrow> unit op" where "doIf b m = (if b then m else ret ())"

fun mapM_op :: "('a \<Rightarrow> 'b op) \<Rightarrow> 'a list \<Rightarrow> 'b list op" where
  "mapM_op f [] = ret []"
| "mapM_op f (x # xs) = bnd (f x) (\<lambda>y. bnd (mapM_op f xs) (\<lambda>ys. ret (y # ys)))"

definition each :: "('a \<Rightarrow> unit op) \<Rightarrow> 'a list \<Rightarrow> unit op" where
  "each f xs = bnd (mapM_op f xs) (\<lambda>_. ret ())"

section \<open>What an operation does\<close>

text \<open>The actions an operation adds and its result.\<close>

definition acts :: "'a op \<Rightarrow> world \<Rightarrow> action list \<Rightarrow> action list" where
  "acts m w tr = drop (length tr) (fst (m w tr))"

definition outcome :: "'a op \<Rightarrow> world \<Rightarrow> action list \<Rightarrow> 'a result" where
  "outcome m w tr = snd (m w tr)"

text \<open>An operation never undoes what was done: the actions performed before stay.\<close>

definition extends :: "'a op \<Rightarrow> bool" where
  "extends m \<longleftrightarrow> (\<forall>w tr. prefix tr (fst (m w tr)))"

text \<open>Every action an operation adds satisfies \<open>P\<close>.\<close>

definition emits :: "(action \<Rightarrow> bool) \<Rightarrow> 'a op \<Rightarrow> bool" where
  "emits P m \<longleftrightarrow> (\<forall>w tr. \<exists>xs. fst (m w tr) = tr @ xs \<and> list_all P xs)"

named_theorems emits_intros
named_theorems op_simps

lemma emits_ret [emits_intros]: "emits P (ret x)"
  by (simp add: emits_def ret_def)

lemma emits_fail [emits_intros]: "emits P (fail e)"
  by (simp add: emits_def fail_def)

lemma emits_look [emits_intros]: "emits P (look g)"
  by (simp add: emits_def look_def)

lemma emits_lookR [emits_intros]: "emits P (lookR g)"
  by (simp add: emits_def lookR_def)

lemma emits_perform [emits_intros]: "P a \<Longrightarrow> emits P (perform a)"
  by (simp add: emits_def perform_def)

lemma emits_bnd [emits_intros]:
  assumes "emits P m" and "\<And>x. emits P (f x)"
  shows "emits P (bnd m f)"
  unfolding emits_def
proof (intro allI)
  fix w tr
  obtain xs where xs: "fst (m w tr) = tr @ xs" "list_all P xs" using assms(1) by (auto simp: emits_def)
  show "\<exists>xs. fst (bnd m f w tr) = tr @ xs \<and> list_all P xs"
  proof (cases "snd (m w tr)")
    case (Inl e)
    then show ?thesis using xs by (auto simp: bnd_def split: prod.splits)
  next
    case (Inr x)
    obtain ys where "fst (f x w (tr @ xs)) = (tr @ xs) @ ys" "list_all P ys"
      using assms(2) unfolding emits_def by blast
    then show ?thesis using xs Inr by (auto simp: bnd_def split: prod.splits intro!: exI [of _ "xs @ ys"])
  qed
qed

lemma emits_attempt [emits_intros]: "emits P m \<Longrightarrow> emits P (attempt m)"
  unfolding emits_def attempt_def by (auto split: prod.splits sum.splits go_error.splits) (metis fst_conv)+

lemma emits_ignore [emits_intros]: "emits P m \<Longrightarrow> emits P (ignore m)"
  by (auto simp: ignore_def intro!: emits_intros)

lemma emits_wrapErr [emits_intros]: "emits P m \<Longrightarrow> emits P (wrapErr g m)"
  by (auto simp: wrapErr_def intro!: emits_intros split: sum.splits)

lemma emits_andThen [emits_intros]: "emits P m \<Longrightarrow> emits P k \<Longrightarrow> emits P (andThen m k)"
  by (auto simp: andThen_def intro!: emits_intros)

lemma emits_doIf [emits_intros]: "(b \<Longrightarrow> emits P m) \<Longrightarrow> emits P (doIf b m)"
  by (auto simp: doIf_def intro!: emits_intros)

lemma emits_if [emits_intros]: "(b \<Longrightarrow> emits P m) \<Longrightarrow> (\<not> b \<Longrightarrow> emits P k) \<Longrightarrow> emits P (if b then m else k)"
  by simp

lemma emits_mapM [emits_intros]: "(\<And>x. x \<in> set xs \<Longrightarrow> emits P (f x)) \<Longrightarrow> emits P (mapM_op f xs)"
  by (induction xs) (auto intro!: emits_intros)

lemma emits_each [emits_intros]: "(\<And>x. x \<in> set xs \<Longrightarrow> emits P (f x)) \<Longrightarrow> emits P (each f xs)"
  by (auto simp: each_def intro!: emits_intros)

lemma emits_mono: "emits P m \<Longrightarrow> (\<And>a. P a \<Longrightarrow> Q a) \<Longrightarrow> emits Q m"
  unfolding emits_def list_all_iff by meson

lemma emits_extends: "emits P m \<Longrightarrow> extends m"
  by (metis emits_def extends_def prefixI)

lemma emits_acts: "emits P m \<Longrightarrow> list_all P (acts m w tr)"
  unfolding emits_def acts_def by (metis append_eq_conv_conj)

lemma emits_at: "emits P m \<Longrightarrow> fst (m w tr) = tr @ acts m w tr"
  unfolding emits_def acts_def by (metis append_eq_conv_conj)

text \<open>Evaluation of composed operations at a world.\<close>

lemma bnd_Inr: "m w tr = (tr1, Inr x) \<Longrightarrow> bnd m f w tr = f x w tr1"
  by (simp add: bnd_def)

lemma bnd_Inl: "m w tr = (tr1, Inl e) \<Longrightarrow> bnd m f w tr = (tr1, Inl e)"
  by (simp add: bnd_def)

lemma bnd_look [op_simps]: "bnd (look g) f w tr = f (g (w tr)) w tr"
  by (simp add: bnd_def look_def)

lemma bnd_lookR [op_simps]:
  "bnd (lookR g) f w tr = (case g (w tr) of Inl e \<Rightarrow> (tr, Inl e) | Inr x \<Rightarrow> f x w tr)"
  by (simp add: bnd_def lookR_def)

lemma bnd_perform [op_simps]:
  "bnd (perform a) f w tr =
     (case mc_Fails (w tr) a of None \<Rightarrow> f () w (tr @ [a]) | Some e \<Rightarrow> (tr @ [a], Inl (Error e)))"
  by (simp add: bnd_def perform_def split: option.splits)

lemma ret_at [op_simps]: "ret x w tr = (tr, Inr x)"
  by (simp add: ret_def)

lemma fail_at [op_simps]: "fail e w tr = (tr, Inl e)"
  by (simp add: fail_def)

lemma bnd_ret [op_simps]: "bnd (ret x) f = f x"
  by (simp add: bnd_def ret_def)

lemma bnd_fail [op_simps]: "bnd (fail e) f = fail e"
  by (simp add: bnd_def fail_def)

lemma bnd_assoc: "bnd (bnd m f) g = bnd m (\<lambda>x. bnd (f x) g)"
  by (intro ext) (simp add: bnd_def split: prod.splits sum.splits)

lemma perform_at [op_simps]:
  "perform a w tr = (tr @ [a], case mc_Fails (w tr) a of None \<Rightarrow> Inr () | Some e \<Rightarrow> Inl (Error e))"
  by (simp add: perform_def)

lemma look_at [op_simps]: "look g w tr = (tr, Inr (g (w tr)))"
  by (simp add: look_def)

lemma lookR_at [op_simps]: "lookR g w tr = (tr, g (w tr))"
  by (simp add: lookR_def)

lemma attempt_ret [op_simps]: "attempt (ret x) = ret (Inr x)"
  by (simp add: attempt_def ret_def)

lemma ignore_perform [op_simps]: "ignore (perform a) w tr = (tr @ [a], Inr ())"
  by (simp add: ignore_def attempt_def bnd_def perform_def ret_def split: option.splits)

text \<open>Taking a run of a composed operation apart.\<close>

lemma emitsE:
  assumes "emits P m" and "m w tr = (tr1, r)"
  obtains xs where "tr1 = tr @ xs" and "list_all P xs"
  using assms by (metis emits_def fst_conv)

lemma bndE:
  assumes "bnd m f w tr = (tr2, r)"
  obtains (Failed) e where "m w tr = (tr2, Inl e)" and "r = Inl e"
  | (Went) tr1 x where "m w tr = (tr1, Inr x)" and "f x w tr1 = (tr2, r)"
  using assms by (auto simp: bnd_def split: prod.splits sum.splits)

section \<open>Guarded actions\<close>

text \<open>
  Every action an operation performs from the trace \<open>tr\<close> satisfies \<open>P\<close> at the machine found
  right before it: what the operation has checked still holds when it acts.
\<close>

definition guarded :: "(machine \<Rightarrow> action \<Rightarrow> bool) \<Rightarrow> 'a op \<Rightarrow> world \<Rightarrow> action list \<Rightarrow> bool" where
  "guarded P m w tr \<longleftrightarrow> (\<exists>xs. fst (m w tr) = tr @ xs \<and> (\<forall>i < length xs. P (w (tr @ take i xs)) (xs ! i)))"

named_theorems guarded_intros

lemma guarded_ret [guarded_intros]: "guarded P (ret x) w tr"
  by (simp add: guarded_def ret_def)

lemma guarded_fail [guarded_intros]: "guarded P (fail e) w tr"
  by (simp add: guarded_def fail_def)

lemma guarded_look [guarded_intros]: "guarded P (look g) w tr"
  by (simp add: guarded_def look_def)

lemma guarded_lookR [guarded_intros]: "guarded P (lookR g) w tr"
  by (simp add: guarded_def lookR_def)

lemma guarded_perform [guarded_intros]: "P (w tr) a \<Longrightarrow> guarded P (perform a) w tr"
  by (auto simp: guarded_def perform_def)

lemma guarded_bnd:
  assumes "guarded P m w tr" and "\<And>tr1 x. m w tr = (tr1, Inr x) \<Longrightarrow> guarded P (f x) w tr1"
  shows "guarded P (bnd m f) w tr"
proof -
  obtain xs where xs: "fst (m w tr) = tr @ xs" "\<forall>i < length xs. P (w (tr @ take i xs)) (xs ! i)"
    using assms(1) by (auto simp: guarded_def)
  show ?thesis
  proof (cases "snd (m w tr)")
    case (Inl e)
    then show ?thesis using xs by (auto simp: guarded_def bnd_def split: prod.splits)
  next
    case (Inr x)
    then have m: "m w tr = (tr @ xs, Inr x)" using xs(1) by (metis prod.collapse)
    then obtain ys where ys: "fst (f x w (tr @ xs)) = (tr @ xs) @ ys"
      "\<forall>i < length ys. P (w ((tr @ xs) @ take i ys)) (ys ! i)"
      using assms(2) by (metis guarded_def)
    have "P (w (tr @ take i (xs @ ys))) ((xs @ ys) ! i)" if "i < length (xs @ ys)" for i
      using xs(2) ys(2) that by (cases "i < length xs") (auto simp: nth_append)
    then show ?thesis using m ys(1) by (auto simp: guarded_def bnd_def intro!: exI [of _ "xs @ ys"])
  qed
qed

lemma guarded_bnd_lookR [guarded_intros]:
  "(\<And>x. g (w tr) = Inr x \<Longrightarrow> guarded P (f x) w tr) \<Longrightarrow> guarded P (bnd (lookR g) f) w tr"
  by (rule guarded_bnd, rule guarded_lookR) (simp add: lookR_def)

lemma guarded_bnd_look [guarded_intros]: "guarded P (f (g (w tr))) w tr \<Longrightarrow> guarded P (bnd (look g) f) w tr"
  by (rule guarded_bnd, rule guarded_look) (simp add: look_def)

lemma guarded_attempt [guarded_intros]: "guarded P m w tr \<Longrightarrow> guarded P (attempt m) w tr"
  by (auto simp: guarded_def attempt_def split: prod.splits sum.splits go_error.splits)

lemma guarded_doIf [guarded_intros]: "(b \<Longrightarrow> guarded P m w tr) \<Longrightarrow> guarded P (doIf b m) w tr"
  by (auto simp: doIf_def intro!: guarded_intros)

lemma guarded_ignore [guarded_intros]: "guarded P m w tr \<Longrightarrow> guarded P (ignore m) w tr"
  by (auto simp: ignore_def intro!: guarded_bnd guarded_intros)

lemma guarded_wrapErr [guarded_intros]: "guarded P m w tr \<Longrightarrow> guarded P (wrapErr g m) w tr"
  by (auto simp: wrapErr_def intro!: guarded_bnd guarded_intros split: sum.splits)

lemma guarded_andThen:
  "guarded P m w tr \<Longrightarrow> (\<And>tr1. m w tr = (tr1, Inr ()) \<Longrightarrow> guarded P k w tr1) \<Longrightarrow> guarded P (andThen m k) w tr"
  by (auto simp: andThen_def intro!: guarded_bnd)

text \<open>An operation that does nothing \<open>P\<close> is concerned with, wherever it starts.\<close>

lemma guarded_emits: "emits Q m \<Longrightarrow> (\<And>mc a. Q a \<Longrightarrow> P mc a) \<Longrightarrow> guarded P m w tr"
  unfolding emits_def guarded_def list_all_length by meson

lemma guarded_mapM: "(\<And>x tr. x \<in> set xs \<Longrightarrow> guarded P (f x) w tr) \<Longrightarrow> guarded P (mapM_op f xs) w tr"
  by (induction xs arbitrary: tr) (auto intro!: guarded_bnd guarded_intros)

text \<open>What is known of an action that was performed.\<close>

lemma guardedE:
  assumes "guarded P m w tr" and "a \<in> set (acts m w tr)"
  obtains pre where "prefix (pre @ [a]) (acts m w tr)" and "P (w (tr @ pre)) a"
proof -
  have xs: "\<forall>i < length (acts m w tr). P (w (tr @ take i (acts m w tr))) (acts m w tr ! i)"
    using assms(1) by (auto simp: guarded_def acts_def)
  obtain i where i: "i < length (acts m w tr)" "acts m w tr ! i = a" using assms(2) by (auto simp: in_set_conv_nth)
  then have "prefix (take i (acts m w tr) @ [a]) (acts m w tr)" by (metis take_Suc_conv_app_nth take_is_prefix)
  then show thesis using that xs i by blast
qed

fun is_Run :: "action \<Rightarrow> bool" where
  "is_Run (Run _ _) = True"
| "is_Run (RunEnv _ _ _) = True"
| "is_Run _ = False"

end
