(* ===== verification/Repo_View.thy ===== *)
theory Repo_View
  imports Machine
begin

text \<open>
  The operations of a repository and of its branches (project/repository.go, project/branch.go,
  the helpers of project/execute.go and the work tree operations of project/project.go). What an
  operation only reads is a function of the machine; what it changes is an operation over the
  actions of theory Machine.
\<close>

section \<open>Reading a repository (project/repository.go)\<close>

definition RepoDir :: "machine \<Rightarrow> 'a Repository_scheme \<Rightarrow> string" where
  "RepoDir mc v = (if IsDir (mc_host mc) (DotGit v) then DotGit v else GitDir v)"

definition CommonDir :: "machine \<Rightarrow> 'a Repository_scheme \<Rightarrow> string" where
  "CommonDir mc v =
     (let dir = RepoDir mc v; f = Join [dir, ''commondir''] in
      if IsFile (mc_host mc) f then
        (case h_ReadFile (mc_host mc) f of Inl _ \<Rightarrow> dir
         | Inr text \<Rightarrow>
           (case scan_line text of None \<Rightarrow> dir
            | Some l \<Rightarrow> if IsAbs l then l else Join [dir, l]))
      else dir)"

definition ObjectsRepository :: "WorkProject \<Rightarrow> Repository option" where
  "ObjectsRepository v =
     (if ObjectsGitDir v = [] then None
      else Some \<lparr>mproject = mproject v, DotGit = [], GitDir = ObjectsGitDir v, ObjectsGitDir = [],
                 ManifestDefaultRevision = [], IsBare = True, RemoteURL = RemoteURL v, Reference = []\<rparr>)"

definition Repository_Exists :: "machine \<Rightarrow> 'a Repository_scheme \<Rightarrow> bool" where
  "Repository_Exists mc v = IsGitDir (mc_host mc) (GitDir v)"

definition configFile :: "machine \<Rightarrow> 'a Repository_scheme \<Rightarrow> string" where
  "configFile mc v = Join [CommonDir mc v, ''config'']"

definition Config :: "machine \<Rightarrow> 'a Repository_scheme \<Rightarrow> (string \<rightharpoonup> string) result" where
  "Config mc v =
     (case mc_Config mc (configFile mc v) of
        Inl e \<Rightarrow> Inl (Fatal (''fail to load config: '' @ configFile mc v @ '': '' @ errText e))
      | Inr c \<Rightarrow> Inr c)"

text \<open>\<^verbatim>\<open>cfg.Get\<close>: the empty string for a key that is not set.\<close>

definition getKey :: "(string \<rightharpoonup> string) \<Rightarrow> string \<Rightarrow> string" where
  "getKey c k = (case c k of None \<Rightarrow> [] | Some x \<Rightarrow> x)"

definition ConfigGet :: "machine \<Rightarrow> 'a Repository_scheme \<Rightarrow> string \<Rightarrow> string result" where
  "ConfigGet mc v k = bind_result (Config mc v) (\<lambda>c. Inr (getKey c k))"

definition Repo_SaveConfig :: "'a Repository_scheme \<Rightarrow> (string \<times> string option) list \<Rightarrow> unit op" where
  "Repo_SaveConfig v changes = bnd (look (\<lambda>mc. configFile mc v)) (\<lambda>f. perform (SaveConfig f changes))"

definition workTreeKeys :: "'a Repository_scheme \<Rightarrow> (string \<times> string option) list" where
  "workTreeKeys v = (if IsBare v then [] else [(''core.bare'', None), (''core.logAllRefUpdates'', Some ''true'')])"

text \<open>The address is kept in the object only when it is not empty.\<close>

definition setRemote :: "'a Repository_scheme \<Rightarrow> string \<Rightarrow> string \<Rightarrow> unit op" where
  "setRemote v remoteName remoteURL =
     bnd (lookR (\<lambda>mc. Config mc v)) (\<lambda>_.
       let changes = workTreeKeys v @
             (if remoteName \<noteq> [] \<and> remoteURL \<noteq> [] then
                [(''remote.'' @ remoteName @ ''.url'', Some remoteURL),
                 (''remote.'' @ remoteName @ ''.fetch'', Some (''+refs/heads/*:refs/remotes/'' @ remoteName @ ''/*''))]
              else [])
       in doIf (changes \<noteq> []) (Repo_SaveConfig v changes))"

definition setAlternates :: "'a Repository_scheme \<Rightarrow> string \<Rightarrow> unit op" where
  "setAlternates v ref =
     doIf (ref \<noteq> [])
       (let altFile = Join [GitDir v, ''objects'', ''info'', ''alternates''] in
        andThen (ignore (perform (MkdirAll (Dir altFile))))
          (ignore (perform (WriteFile altFile
             (case Rel (Join [GitDir v, ''objects'']) (Join [ref, ''objects'']) of
                None \<Rightarrow> [] | Some r \<Rightarrow> r @ [CHR 0x0A])))))"

definition GitConfigRemoteURL :: "machine \<Rightarrow> 'a Repository_scheme \<Rightarrow> string \<Rightarrow> string result" where
  "GitConfigRemoteURL mc v name = ConfigGet mc v (''remote.'' @ name @ ''.url'')"

definition rawDir :: "machine \<Rightarrow> 'a Repository_scheme \<Rightarrow> string option" where
  "rawDir mc v = (if mc_Open mc (CommonDir mc v) then Some (CommonDir mc v) else None)"

definition isUnborn :: "machine \<Rightarrow> 'a Repository_scheme \<Rightarrow> bool" where
  "isUnborn mc v = (case rawDir mc v of None \<Rightarrow> False | Some d \<Rightarrow> mc_Head mc d = None)"

definition HasAlternates :: "machine \<Rightarrow> 'a Repository_scheme \<Rightarrow> bool" where
  "HasAlternates mc v =
     (let f = Join [GitDir v, ''objects'', ''info'', ''alternates''] in Exist (mc_host mc) f \<and> mc_Size mc f \<noteq> 0)"

definition GetHead :: "machine \<Rightarrow> 'a Repository_scheme \<Rightarrow> string" where
  "GetHead mc v =
     (let f = Join [RepoDir mc v, ''HEAD''] in
      if \<not> IsFile (mc_host mc) f then []
      else case h_ReadFile (mc_host mc) f of Inl _ \<Rightarrow> []
        | Inr text \<Rightarrow>
          (case scan_line text of None \<Rightarrow> []
           | Some l \<Rightarrow> if HasPrefix l ''ref: '' then drop 5 l else []))"

definition IsRebaseInProgress :: "machine \<Rightarrow> 'a Repository_scheme \<Rightarrow> bool" where
  "IsRebaseInProgress mc v \<longleftrightarrow>
     (let d = RepoDir mc v; h = mc_host mc in
      Exist h (Join [d, ''rebase-apply'']) \<or> Exist h (Join [d, ''rebase-merge'']) \<or> Exist h (Join [d, ''.dotest'']))"

definition resolveRaw :: "machine \<Rightarrow> 'a Repository_scheme \<Rightarrow> string \<Rightarrow> string option" where
  "resolveRaw mc v r =
     (case rawDir mc v of None \<Rightarrow> None
      | Some d \<Rightarrow> (case mc_Resolve mc d r of Inl _ \<Rightarrow> None | Inr i \<Rightarrow> Some i))"

definition RevisionIsValid :: "machine \<Rightarrow> 'a Repository_scheme \<Rightarrow> string \<Rightarrow> bool" where
  "RevisionIsValid mc v r \<longleftrightarrow> resolveRaw mc v r \<noteq> None"

text \<open>The lines of the output that are not blank, without the white space around them.\<close>

definition outputLines :: "string \<Rightarrow> string list" where
  "outputLines out = filter (\<lambda>l. l \<noteq> []) (map TrimSpace (StrSplit out CHR 0x0A))"

definition Revlist :: "machine \<Rightarrow> 'a Repository_scheme \<Rightarrow> string list \<Rightarrow> string list result" where
  "Revlist mc v args =
     (case mc_Output mc (RepoDir mc v) ([''git'', ''rev-list''] @ args) of
        (out, Some e) \<Rightarrow> Inl (Error e)
      | (out, None) \<Rightarrow> Inr (outputLines out))"

definition SSHInfoCacheFile :: "machine \<Rightarrow> 'a Repository_scheme \<Rightarrow> string" where
  "SSHInfoCacheFile mc v = Join [RepoDir mc v, ''info'', ''sshinfo.cache'']"

definition Prompt :: "'a Repository_scheme \<Rightarrow> string" where
  "Prompt v = (if pPath v = ''.'' then [] else pPath v @ ''> '')"

definition usableTrack :: "string \<Rightarrow> bool" where
  "usableTrack r \<longleftrightarrow> r \<noteq> [] \<and> \<not> IsImmutable r"

definition DefaultTrackingBranch :: "'a Repository_scheme \<Rightarrow> string" where
  "DefaultTrackingBranch v =
     (let a = mproject v in
      if usableTrack (Revision a) then Revision a
      else if usableTrack (DestBranch a) then DestBranch a
      else if usableTrack (Upstream a) then Upstream a
      else if usableTrack (ManifestDefaultRevision v) then ManifestDefaultRevision v
      else [])"

section \<open>Branches (project/branch.go)\<close>

record Branch =
  br_Name :: string
  br_Hash :: string

definition ShortName :: "Branch \<Rightarrow> string" where "ShortName b = TrimPrefix (br_Name b) RefsHeads"

definition nilPointer :: go_error where "nilPointer = Panic ''nil pointer dereference''"

text \<open>go-git's branches are the references below \<^verbatim>\<open>refs/heads/\<close>.\<close>

definition Heads :: "machine \<Rightarrow> 'a Repository_scheme \<Rightarrow> Branch list result" where
  "Heads mc v =
     (case rawDir mc v of None \<Rightarrow> Inl nilPointer
      | Some d \<Rightarrow> Inr [\<lparr>br_Name = n, br_Hash = i\<rparr>. (n, i) \<leftarrow> mc_Refs mc d, HasPrefix n RefsHeads])"

definition headOr :: "machine \<Rightarrow> 'a Repository_scheme \<Rightarrow> string \<Rightarrow> string" where
  "headOr mc v branch = (if branch = [] then GetHead mc v else branch)"

definition branchKey :: "string \<Rightarrow> string \<Rightarrow> string" where
  "branchKey b k = ''branch.'' @ b @ ''.'' @ k"

definition TrackBranch :: "machine \<Rightarrow> 'a Repository_scheme \<Rightarrow> string \<Rightarrow> string result" where
  "TrackBranch mc v branch0 =
     (let branch = headOr mc v branch0 in
      if branch = [] then Inr []
      else bind_result (ConfigGet mc v (branchKey (TrimPrefix branch RefsHeads) ''merge''))
             (\<lambda>t. Inr (TrimPrefix t RefsHeads)))"

definition TrackRemote :: "machine \<Rightarrow> 'a Repository_scheme \<Rightarrow> string \<Rightarrow> string result" where
  "TrackRemote mc v branch0 =
     (let branch = headOr mc v branch0 in
      if branch = [] then Inr [] else ConfigGet mc v (branchKey (TrimPrefix branch RefsHeads) ''remote''))"

definition RemoteMatchingBranch :: "string \<Rightarrow> string \<Rightarrow> string" where
  "RemoteMatchingBranch remote branch = RefsRemotes @ remote @ ''/'' @ TrimPrefix branch RefsHeads"

definition LocalTrackBranch :: "machine \<Rightarrow> 'a Repository_scheme \<Rightarrow> string \<Rightarrow> string result" where
  "LocalTrackBranch mc v branch0 =
     (let branch = headOr mc v branch0 in
      if branch = [] then Inr []
      else bind_result (Config mc v) (\<lambda>c.
        let b = TrimPrefix branch RefsHeads;
            track = TrimPrefix (getKey c (branchKey b ''merge'')) RefsHeads;
            remote = getKey c (branchKey b ''remote'')
        in Inr (if remote = [] \<or> track = [] then [] else RemoteMatchingBranch remote track)))"

text \<open>\<^verbatim>\<open>executeCommandIn\<close> (project/execute.go) runs a command in a directory.\<close>

definition executeCommandIn :: "string \<Rightarrow> string list \<Rightarrow> unit op" where
  "executeCommandIn cwd args = (case args of [] \<Rightarrow> fail (Panic ''index out of range'') | _ \<Rightarrow> perform (Run cwd args))"

definition DeleteBranch :: "'a Repository_scheme \<Rightarrow> string \<Rightarrow> unit op" where
  "DeleteBranch v branch =
     executeCommandIn (GitDir v)
       [''git'', ''branch'', ''-D'', if IsHead branch then TrimPrefix branch RefsHeads else branch, ''--'']"

definition setReference :: "string \<Rightarrow> string \<Rightarrow> string \<Rightarrow> string \<Rightarrow> unit op" where
  "setReference d refname base hash =
     wrapErr (\<lambda>e. ''fail create '' @ sq refname @ '' on '' @ sq base @ '': '' @ e) (perform (SetRef d refname hash))"

definition UpdateRef :: "'a Repository_scheme \<Rightarrow> bool \<Rightarrow> string \<Rightarrow> string \<Rightarrow> unit op" where
  "UpdateRef v dryRun refname base =
     (if dryRun then ret ()
      else bnd (look (\<lambda>mc. rawDir mc v)) (\<lambda>raw. case raw of
          None \<Rightarrow> fail nilPointer
        | Some d \<Rightarrow>
          if IsSha base then setReference d refname base base
          else bnd (look (\<lambda>mc. mc_Resolve mc d base)) (\<lambda>r. case r of
              Inl e \<Rightarrow> fail (Error (''cannot resolve base rev '' @ sq base @ '' when update ref: '' @ errText e))
            | Inr hash \<Rightarrow> setReference d refname base hash)))"

definition RemoteTracking :: "machine \<Rightarrow> WorkProject \<Rightarrow> string \<Rightarrow> string result" where
  "RemoteTracking mc v rev0 =
     (if rev0 = [] \<or> IsSha rev0 then Inr []
      else
        let r = (if IsHead rev0 then TrimPrefix rev0 RefsHeads else rev0) in
        if IsRef r then Inr [] else ConfigGet mc v (branchKey r ''merge''))"

definition ResolveRevision :: "machine \<Rightarrow> WorkProject \<Rightarrow> string \<Rightarrow> string result" where
  "ResolveRevision mc v r =
     (if r = [] then Inr []
      else case rawDir mc v of
          None \<Rightarrow> Inl (Error (''repository for '' @ pName v @ '' is missing, fail to parse '' @ r))
        | Some d \<Rightarrow> mc_Resolve mc d r)"

definition trackingRef :: "WorkProject \<Rightarrow> string \<Rightarrow> string" where
  "trackingRef v r =
     (if IsSha r then r
      else
        let b = (if IsHead r then TrimPrefix r RefsHeads else r) in
        if HasPrefix b RefsPrefix then b else RefsRemotes @ RemoteName (mproject v) @ ''/'' @ b)"

definition ResolveRemoteTracking :: "machine \<Rightarrow> WorkProject \<Rightarrow> string \<Rightarrow> string result" where
  "ResolveRemoteTracking mc v r =
     (case rawDir mc v of
        None \<Rightarrow> Inl (Error (''repository for '' @ pName v @ '' is missing, fail to parse '' @ Revision (mproject v)))
      | Some d \<Rightarrow>
        (case mc_Resolve mc d (trackingRef v r) of
           Inl _ \<Rightarrow> Inl (Error (''revision '' @ trackingRef v r @ '' in '' @ pName v @ '' not found''))
         | Inr i \<Rightarrow> Inr i))"

definition trackingKeys :: "string \<Rightarrow> string \<Rightarrow> string \<Rightarrow> (string \<times> string option) list" where
  "trackingKeys branch remote track =
     (if track = [] \<or> IsSha track \<or> (IsRef track \<and> \<not> IsHead track)
      then [(branchKey branch ''merge'', None), (branchKey branch ''remote'', None)]
      else (branchKey branch ''merge'', Some (if IsHead track then track else RefsHeads @ track)) #
           (if remote \<noteq> [] then [(branchKey branch ''remote'', Some remote)] else []))"

definition UpdateBranchTracking :: "WorkProject \<Rightarrow> string \<Rightarrow> string \<Rightarrow> string \<Rightarrow> unit op" where
  "UpdateBranchTracking v branch remote track =
     bnd (lookR (\<lambda>mc. Config mc v)) (\<lambda>_. ignore (Repo_SaveConfig v (trackingKeys branch remote track)))"

definition StartBranch :: "WorkProject \<Rightarrow> string \<Rightarrow> string \<Rightarrow> bool \<Rightarrow> unit op" where
  "StartBranch v branch0 track0 force =
     (let track = (if track0 = [] then Revision (mproject v) else track0);
          branch = (if IsHead branch0 then TrimPrefix branch0 RefsHeads else branch0)
      in bnd (look (\<lambda>mc. GetHead mc v)) (\<lambda>head.
         if head = RefsHeads @ branch then ret ()
         else bnd (look (\<lambda>mc. RevisionIsValid mc v (RefsHeads @ branch))) (\<lambda>known.
         if \<not> force \<and> known then executeCommandIn (WorkDir v) [''git'', ''checkout'', branch, ''--'']
         else bnd (look (\<lambda>mc. ResolveRemoteTracking mc v (Revision (mproject v)))) (\<lambda>revid.
           andThen
             (executeCommandIn (WorkDir v) ([''git'', ''checkout''] @
               (if force then [''-B'', branch]
                else [''-b'', branch] @
                     (case revid of Inl _ \<Rightarrow> [] | Inr i \<Rightarrow> if i \<noteq> [] then [i] else [])) @ [''--'']))
             (UpdateBranchTracking v branch (orOrigin (RemoteName (mproject v))) track)))))"

definition DetachHead :: "WorkProject \<Rightarrow> unit op" where
  "DetachHead v = executeCommandIn (WorkDir v) [''git'', ''checkout'', ''-q'', ''HEAD^0'', ''--'']"

section \<open>The work tree (project/project.go)\<close>

definition PrepareWorkdir :: "WorkProject \<Rightarrow> unit op" where
  "PrepareWorkdir v =
     bnd (attempt (perform (MkdirAll (WorkDir v)))) (\<lambda>r. case r of
       Inl _ \<Rightarrow> ret ()
     | Inr _ \<Rightarrow>
         let gitdir = Join [WorkDir v, ''.git''] in
         bnd (look (\<lambda>mc. Exist (mc_host mc) gitdir)) (\<lambda>there.
           if there then ret ()
           else andThen (ignore (perform (Remove (Join [GitDir v, ''index'']))))
             (wrapErr (\<lambda>e. ''fail to create gitdir for '' @ pName v @ '': '' @ e)
               (perform (WriteFile gitdir (''gitdir: '' @
                  (case Rel (WorkDir v) (GitDir v) of None \<Rightarrow> GitDir v | Some d \<Rightarrow> d) @ [CHR 0x0A]))))))"

definition Project_CleanPublishedCache :: "WorkProject \<Rightarrow> unit op" where
  "Project_CleanPublishedCache v =
     bnd (look (\<lambda>mc. rawDir mc v)) (\<lambda>raw. case raw of
       None \<Rightarrow> ret ()
     | Some d \<Rightarrow>
         bnd (look (\<lambda>mc. CleanPublishedCache (mc_Refs mc d))) (\<lambda>obsolete.
           each (\<lambda>n. ignore (perform (RemoveRef d n))) obsolete))"

section \<open>Tracking information is read back\<close>

text \<open>The configuration after the changes have been saved.\<close>

definition applyKeys :: "(string \<times> string option) list \<Rightarrow> (string \<rightharpoonup> string) \<Rightarrow> (string \<rightharpoonup> string)" where
  "applyKeys changes c = foldl (\<lambda>m (k, x). m(k := x)) c changes"

lemma branchKey_neq [simp]: "branchKey b ''merge'' \<noteq> branchKey b ''remote''" "branchKey b ''remote'' \<noteq> branchKey b ''merge''"
  by (simp_all add: branchKey_def)

lemma getKey_tracking:
  assumes "r \<noteq> []"
  shows "getKey (applyKeys (trackingKeys b r t) c) (branchKey b ''merge'') =
      (if usableTrack t then if IsHead t then t else RefsHeads @ t else [])"
    and "getKey (applyKeys (trackingKeys b r t) c) (branchKey b ''remote'') = (if usableTrack t then r else [])"
  using assms by (auto simp: trackingKeys_def applyKeys_def getKey_def usableTrack_def IsImmutable_iff)

text \<open>
  Property C22. What is saved as the upstream of a branch is what is read back. After
  \<open>UpdateBranchTracking\<close> has saved its changes the branch tracks the given branch of the given
  remote if the former is the name of a branch, in either form; a commit, a tag or another
  reference clears the tracking information instead.
\<close>

theorem UpdateBranchTracking_roundtrip:
  assumes "Config mc v = Inr (applyKeys (trackingKeys b remote track) c)" and "remote \<noteq> []"
  shows "TrackRemote mc v (RefsHeads @ b) = Inr (if usableTrack track then remote else []) \<and>
    TrackBranch mc v (RefsHeads @ b) = Inr (if usableTrack track then TrimPrefix track RefsHeads else []) \<and>
    LocalTrackBranch mc v (RefsHeads @ b) = Inr (if usableTrack track \<and> TrimPrefix track RefsHeads \<noteq> []
       then RemoteMatchingBranch remote (TrimPrefix track RefsHeads) else [])"
proof -
  have ne: "RefsHeads @ b \<noteq> []" by (simp add: RefsHeads_def)
  have trim: "TrimPrefix (if IsHead track then track else RefsHeads @ track) RefsHeads = TrimPrefix track RefsHeads"
    by (simp add: TrimPrefix_def IsHead_def HasPrefix_def)
  show ?thesis
    using ne assms trim
    by (auto simp: TrackRemote_def TrackBranch_def LocalTrackBranch_def ConfigGet_def headOr_def getKey_tracking
        RemoteMatchingBranch_def TrimPrefix_def [of "[]"] TrimPrefix_def [of "_ @ _"] HasPrefix_def Let_def)
qed

theorem UpdateBranchTracking_roundtrip_witness:
  "\<forall>(mc :: machine) (v :: WorkProject). let mc' = mc\<lparr>mc_Config := (\<lambda>_. Inr (applyKeys (trackingKeys ''b'' ''o'' ''m'') Map.empty))\<rparr> in
     LocalTrackBranch mc' v (RefsHeads @ ''b'') = Inr ''refs/remotes/o/m''"
proof (intro allI)
  fix mc :: machine and v :: WorkProject
  let ?mc = "mc\<lparr>mc_Config := (\<lambda>_. Inr (applyKeys (trackingKeys ''b'' ''o'' ''m'') Map.empty))\<rparr>"
  have "Config ?mc v = Inr (applyKeys (trackingKeys ''b'' ''o'' ''m'') Map.empty)" by (simp add: Config_def)
  moreover have "usableTrack ''m''" "TrimPrefix ''m'' RefsHeads = ''m''"
    "RemoteMatchingBranch ''o'' ''m'' = ''refs/remotes/o/m''" by code_simp+
  ultimately show "let mc' = ?mc in LocalTrackBranch mc' v (RefsHeads @ ''b'') = Inr ''refs/remotes/o/m''"
    using UpdateBranchTracking_roundtrip [of ?mc v "''b''" "''o''" "''m''" Map.empty] by simp
qed

end
