(* ===== verification/Remotes.thy ===== *)
theory Remotes
  imports Proto Repo_View "HOL-Library.AList"
begin

text \<open>
  The remotes of a project (project/remote.go): the table of remotes with its aliases and
  default, loading it from the git configuration, and the address of a push. The table of the
  ssh information, kept in a file and in memory, is threaded as \<open>info_state\<close>.
\<close>

section \<open>Remotes and their table\<close>

text \<open>\<open>pr_Helper\<close> is \<open>None\<close> for the default helper made without ssh information.\<close>

record PRemote =
  pr_Remote :: Remote
  pr_Helper :: "ProtoHelper option"

definition PRemote_GetType :: "PRemote \<Rightarrow> string" where
  "PRemote_GetType r = (case pr_Helper r of None \<Rightarrow> [] | Some h \<Rightarrow> GetType h)"

definition PRemote_GetSSHInfo :: "PRemote \<Rightarrow> SSHInfo option" where
  "PRemote_GetSSHInfo r = map_option ProtoHelper_GetSSHInfo (pr_Helper r)"

text \<open>Every remote is made by \<^verbatim>\<open>NewRemote\<close>, which marks it initialized.\<close>

definition ProtoHelperReady :: "PRemote \<Rightarrow> bool" where
  "ProtoHelperReady r \<longleftrightarrow> PRemote_GetType r \<noteq> []"

definition NewRemote :: "Remote \<Rightarrow> ProtoHelper option \<Rightarrow> PRemote" where
  "NewRemote r h = \<lparr>pr_Remote = r, pr_Helper = h\<rparr>"

record RemoteMap =
  remotes :: "(string \<times> PRemote) list"
  aliases :: "string \<rightharpoonup> string"
  defaultRemote :: string

definition NewRemoteMap :: RemoteMap where
  "NewRemoteMap = \<lparr>remotes = [], aliases = Map.empty, defaultRemote = []\<rparr>"

definition RemoteMap_Get :: "RemoteMap \<Rightarrow> string \<Rightarrow> PRemote option" where
  "RemoteMap_Get m name =
     (case map_of (remotes m) name of Some r \<Rightarrow> Some r
      | None \<Rightarrow>
        (let n = (case aliases m name of None \<Rightarrow> [] | Some n \<Rightarrow> n) in
         if n \<noteq> [] then map_of (remotes m) n else None))"

definition RemoteMap_Add :: "RemoteMap \<Rightarrow> PRemote \<Rightarrow> RemoteMap" where
  "RemoteMap_Add m r =
     (let name = rm_Name (pr_Remote r); a = rm_Alias (pr_Remote r) in
      m\<lparr>remotes := AList.update name r (remotes m),
        aliases := if a \<noteq> [] then (aliases m)(a \<mapsto> name) else aliases m\<rparr>)"

definition RemoteMap_Default :: "RemoteMap \<Rightarrow> bool \<Rightarrow> PRemote option" where
  "RemoteMap_Default m useOrigin =
     (if defaultRemote m \<noteq> [] then RemoteMap_Get m (defaultRemote m)
      else case remotes m of
          [(_, r)] \<Rightarrow> Some r
        | _ \<Rightarrow> if useOrigin then RemoteMap_Get m ''origin'' else None)"

definition SetDefault :: "RemoteMap \<Rightarrow> string \<Rightarrow> RemoteMap" where
  "SetDefault m name = m\<lparr>defaultRemote := name\<rparr>"

definition GetBranchRemote :: "machine \<Rightarrow> RemoteMap \<Rightarrow> WorkProject \<Rightarrow> string \<Rightarrow> bool \<Rightarrow> PRemote option result" where
  "GetBranchRemote mc m v branch useOrigin =
     bind_result (TrackRemote mc v branch) (\<lambda>name.
       Inr (if name \<noteq> [] then RemoteMap_Get m name else RemoteMap_Default m useOrigin))"

definition GetDefaultRemote :: "machine \<Rightarrow> RemoteMap \<Rightarrow> WorkProject \<Rightarrow> bool \<Rightarrow> PRemote option result" where
  "GetDefaultRemote mc m v useOrigin = GetBranchRemote mc m v [] useOrigin"

section \<open>Loading (LoadRemotes, AddRemote)\<close>

type_synonym info_state = "(string \<Rightarrow> (string \<rightharpoonup> string) option) \<times> (string \<rightharpoonup> SSHInfo result)"

text \<open>A new query on a cache file, and what it leaves in the file and in the memory.\<close>

definition queryInfo :: "nat \<Rightarrow> ssh_env \<Rightarrow> string \<Rightarrow> string \<Rightarrow> bool \<Rightarrow> info_state \<Rightarrow> (info_state \<times> SSHInfo result) option" where
  "queryInfo fuel env cacheFile address noCache st =
     (case GetSSHInfo fuel env (NewSSHInfoQuery (fst st) (snd st) cacheFile) address (\<not> noCache) of
        None \<Rightarrow> None
      | Some (q, r) \<Rightarrow>
          Some ((case saved q of None \<Rightarrow> fst st | Some c \<Rightarrow> (fst st)(cacheFile := Some c), internalCache q), r))"

definition AddRemote :: "nat \<Rightarrow> ssh_env \<Rightarrow> string \<Rightarrow> bool \<Rightarrow> RemoteMap \<times> info_state \<Rightarrow> Remote \<Rightarrow> (RemoteMap \<times> info_state) result option" where
  "AddRemote fuel env cacheFile noCache st mr =
     (if rm_Review mr = [] then Some (Inr (RemoteMap_Add (fst st) (NewRemote mr None), snd st))
      else if rm_Type mr \<noteq> [] then
        Some (Inr (RemoteMap_Add (fst st) (NewRemote mr (Some (NewProtoHelper (SSHInfo0\<lparr>ProtoType := rm_Type mr\<rparr>)))), snd st))
      else case queryInfo fuel env cacheFile (rm_Review mr) noCache (snd st) of
          None \<Rightarrow> None
        | Some (is, Inr i) \<Rightarrow> Some (Inr (RemoteMap_Add (fst st) (NewRemote mr (Some (NewProtoHelper i))), is))
        | Some (is, Inl (Error e)) \<Rightarrow> Some (Inr (RemoteMap_Add (fst st) (NewRemote mr None), is))
        | Some (is, Inl e) \<Rightarrow> Some (Inl e))"

text \<open>The element made from the section of a remote; there is none without an address.\<close>

definition configRemote :: "(string \<rightharpoonup> string) \<Rightarrow> string \<Rightarrow> Remote option" where
  "configRemote c name =
     (let key = (\<lambda>k. getKey c (''remote.'' @ name @ ''.'' @ k)); url = key ''url'' in
      if url = [] then None
      else Some \<lparr>rm_Name = name, rm_Alias = [], rm_Fetch = url, rm_PushURL = key ''pushurl'', rm_Override = False,
        rm_Review = (if key ''review'' \<noteq> [] then key ''review''
                     else case ParseGitURL (if key ''pushurl'' = [] then url else key ''pushurl'') of
                         None \<Rightarrow> [] | Some u \<Rightarrow> GetRootURL u),
        rm_Revision = [], rm_Type = key ''type''\<rparr>)"

text \<open>What the manifest says of a remote of the same name comes first.\<close>

definition shareRemote :: "PRemote \<Rightarrow> Remote \<Rightarrow> Remote" where
  "shareRemote r mr =
     (let s = pr_Remote r in
      mr\<lparr>rm_Review := (if rm_Review s \<noteq> [] then rm_Review s else rm_Review mr),
         rm_Revision := (if rm_Revision s \<noteq> [] then rm_Revision s else rm_Revision mr),
         rm_Type := (if rm_Type s \<noteq> [] then rm_Type s else rm_Type mr)\<rparr>)"

definition loadRemote :: "nat \<Rightarrow> ssh_env \<Rightarrow> string \<Rightarrow> bool \<Rightarrow> (string \<rightharpoonup> string) \<Rightarrow> RemoteMap option \<Rightarrow>
    RemoteMap \<times> info_state \<Rightarrow> string \<Rightarrow> (RemoteMap \<times> info_state) result option" where
  "loadRemote fuel env cacheFile noCache c shared st name =
     (case configRemote c name of
        None \<Rightarrow> Some (Inr st)
      | Some mr \<Rightarrow>
        (case (case shared of None \<Rightarrow> None | Some sm \<Rightarrow> RemoteMap_Get sm name) of
           Some r \<Rightarrow> Some (Inr (RemoteMap_Add (fst st) (NewRemote (shareRemote r mr) (pr_Helper r)), snd st))
         | None \<Rightarrow> AddRemote fuel env cacheFile noCache st mr))"

fun loadAll :: "('s \<Rightarrow> 'a \<Rightarrow> 's result option) \<Rightarrow> 's \<Rightarrow> 'a list \<Rightarrow> 's result option" where
  "loadAll f st [] = Some (Inr st)"
| "loadAll f st (x # xs) =
     (case f st x of None \<Rightarrow> None | Some (Inl e) \<Rightarrow> Some (Inl e) | Some (Inr st') \<Rightarrow> loadAll f st' xs)"

text \<open>One thread per remote section; the list has them in the order in which they add theirs.\<close>

definition remoteNames :: "string list \<Rightarrow> string list" where
  "remoteNames sections = map (\<lambda>n. TrimPrefix n ''remote.'') (filter (\<lambda>n. HasPrefix n ''remote.'') sections)"

definition addManifestRemote :: "Remote option \<Rightarrow> RemoteMap option \<Rightarrow> RemoteMap \<Rightarrow> RemoteMap result" where
  "addManifestRemote mremote shared m =
     (case mremote of None \<Rightarrow> Inr m
      | Some mr \<Rightarrow>
        if RemoteMap_Get m (rm_Name mr) \<noteq> None then Inr m
        else case shared of None \<Rightarrow> Inl nilPointer
          | Some sm \<Rightarrow>
            (case RemoteMap_Get sm (rm_Name mr) of None \<Rightarrow> Inr m
             | Some r \<Rightarrow> Inr (RemoteMap_Add m (NewRemote mr (pr_Helper r)))))"

definition Project_LoadRemotes :: "nat \<Rightarrow> ssh_env \<Rightarrow> string \<Rightarrow> bool \<Rightarrow> (string \<rightharpoonup> string) \<Rightarrow> string list \<Rightarrow>
    RemoteMap option \<Rightarrow> Remote option \<Rightarrow> info_state \<Rightarrow> (RemoteMap \<times> info_state) result option" where
  "Project_LoadRemotes fuel env cacheFile noCache c sections shared mremote is =
     (case loadAll (loadRemote fuel env cacheFile noCache c shared) (NewRemoteMap, is) (remoteNames sections) of
        None \<Rightarrow> None
      | Some (Inl e) \<Rightarrow> Some (Inl e)
      | Some (Inr (m, is')) \<Rightarrow> Some (bind_result (addManifestRemote mremote shared m) (\<lambda>m'. Inr (m', is'))))"

section \<open>The address of a push\<close>

definition sshInfoURL :: "SSHInfo \<Rightarrow> string" where
  "sshInfoURL i =
     ''ssh://'' @ (if si_User i = [] then ''git'' else si_User i) @ ''@'' @ si_Host i @
     (if si_Port i > 0 \<and> si_Port i \<noteq> 22 then '':'' @ Itoa (si_Port i) else [])"

definition baseURL :: "Remote option \<Rightarrow> SSHInfo \<Rightarrow> string" where
  "baseURL mremote i =
     (case mremote of
        Some mr \<Rightarrow> if rm_PushURL mr \<noteq> [] then rm_PushURL mr
                   else if PushURL i \<noteq> [] then PushURL i else if si_Host i \<noteq> [] then sshInfoURL i else []
      | None \<Rightarrow> if PushURL i \<noteq> [] then PushURL i else if si_Host i \<noteq> [] then sshInfoURL i else [])"

text \<open>\<open>email\<close> is the identity of the user and \<open>login\<close> the name of the account, if it is known.\<close>

definition GetRemotePushURL :: "string \<Rightarrow> string option \<Rightarrow> WorkProject \<Rightarrow> PRemote option \<Rightarrow> string result" where
  "GetRemotePushURL email login v remote =
     (case remote of None \<Rightarrow> Inr []
      | Some r \<Rightarrow>
        (case PRemote_GetSSHInfo r of None \<Rightarrow> Inr []
         | Some i \<Rightarrow>
           let u = baseURL (ManifestRemote (mproject v)) i in
           if u \<noteq> [] then
             bind_result (ReplaceMacros u ([''email'' \<mapsto> GetLoginFromEmail email] ++
                 (case login of None \<Rightarrow> Map.empty | Some l \<Rightarrow> [''login'' \<mapsto> l]))) (\<lambda>u'.
               Inr ((if HasSuffix u' ''/'' then u' else u' @ ''/'') @ pName v @ ''.git''))
           else if rm_PushURL (pr_Remote r) \<noteq> [] then Inr (rm_PushURL (pr_Remote r))
           else Inr (rm_Fetch (pr_Remote r))))"

definition GetRemotePushNameURL :: "string \<Rightarrow> string option \<Rightarrow> WorkProject \<Rightarrow> PRemote option \<Rightarrow> (string \<times> string) result" where
  "GetRemotePushNameURL email login v remote =
     bind_result (GetRemotePushURL email login v remote) (\<lambda>pushURL.
       if pushURL = [] then Inr ([], [])
       else case remote of None \<Rightarrow> Inl nilPointer
         | Some r \<Rightarrow>
           let rm = pr_Remote r; defaultURL = (if rm_PushURL rm = [] then rm_Fetch rm else rm_PushURL rm) in
           Inr (if TrimSuffix pushURL ''.git'' = TrimSuffix defaultURL ''.git'' then rm_Name rm else [], pushURL))"

section \<open>The table as a map\<close>

interpretation remotes: keyed_table RemoteMap_Add "\<lambda>m. map_of (remotes m)" "\<lambda>r. rm_Name (pr_Remote r)"
  by unfold_locales (simp add: RemoteMap_Add_def Let_def update_conv')

text \<open>No name occurs twice, so the number of entries is the number of names.\<close>

definition wf_RemoteMap :: "RemoteMap \<Rightarrow> bool" where
  "wf_RemoteMap m \<longleftrightarrow> distinct (map fst (remotes m)) \<and> (\<forall>(n, r) \<in> set (remotes m). rm_Name (pr_Remote r) = n)"

lemma wf_NewRemoteMap [simp]: "wf_RemoteMap NewRemoteMap"
  by (simp add: wf_RemoteMap_def NewRemoteMap_def)

lemma set_update_subset: "set (AList.update k v xs) \<subseteq> insert (k, v) (set xs)"
  by (induction xs) auto

lemma wf_Add [simp]: "wf_RemoteMap m \<Longrightarrow> wf_RemoteMap (RemoteMap_Add m r)"
  using set_update_subset [of "rm_Name (pr_Remote r)" r "remotes m"]
  by (auto simp: wf_RemoteMap_def RemoteMap_Add_def Let_def distinct_update)

text \<open>Two tables that cannot be told apart by looking remotes up.\<close>

definition same_table :: "RemoteMap \<Rightarrow> RemoteMap \<Rightarrow> bool" where
  "same_table m m' \<longleftrightarrow> wf_RemoteMap m \<and> wf_RemoteMap m' \<and> map_of (remotes m) = map_of (remotes m') \<and>
     aliases m = aliases m' \<and> defaultRemote m = defaultRemote m'"

lemma same_Get: "same_table m m' \<Longrightarrow> RemoteMap_Get m = RemoteMap_Get m'"
  unfolding same_table_def RemoteMap_Get_def by (elim conjE) (simp only:)

lemma length_remotes: "wf_RemoteMap m \<Longrightarrow> length (remotes m) = card (dom (map_of (remotes m)))"
  by (metis wf_RemoteMap_def distinct_card dom_map_of_conv_image_fst length_map set_map)

lemma Default_single:
  "RemoteMap_Default m b =
     (if defaultRemote m \<noteq> [] then RemoteMap_Get m (defaultRemote m)
      else if length (remotes m) = 1 then Some (snd (hd (remotes m)))
      else if b then RemoteMap_Get m ''origin'' else None)"
  by (auto simp: RemoteMap_Default_def split: list.splits)

lemma same_Default:
  assumes "same_table m m'"
  shows "RemoteMap_Default m b = RemoteMap_Default m' b"
proof -
  have wf: "wf_RemoteMap m" "wf_RemoteMap m'" and eq: "map_of (remotes m) = map_of (remotes m')"
    and dflt: "defaultRemote m = defaultRemote m'" using assms by (auto simp: same_table_def)
  have len: "length (remotes m) = length (remotes m')" using wf eq by (simp add: length_remotes)
  have "hd (remotes m) = hd (remotes m')" if one: "length (remotes m) = 1"
  proof -
    obtain p q where "remotes m = [p]" "remotes m' = [q]" using one len
      by (cases "remotes m"; cases "remotes m'") auto
    then show ?thesis using fun_cong [OF eq, of "fst p"] by (cases p; cases q) (auto split: if_splits)
  qed
  then show ?thesis using len dflt same_Get [OF assms] by (simp add: Default_single)
qed

lemma same_Add: "same_table m m' \<Longrightarrow> same_table (RemoteMap_Add m r) (RemoteMap_Add m' r)"
  by (auto simp: same_table_def remotes.lookup_ins) (auto simp: RemoteMap_Add_def Let_def)

section \<open>The answers to the queries\<close>

definition answerTo :: "nat \<Rightarrow> ssh_env \<Rightarrow> string \<Rightarrow> bool \<Rightarrow> info_state \<Rightarrow> string \<Rightarrow> SSHInfo result option" where
  "answerTo fuel env f noCache st address = map_option snd (queryInfo fuel env f address noCache st)"

definition storedIn :: "string \<Rightarrow> info_state \<Rightarrow> (string \<rightharpoonup> string)" where
  "storedIn f st = (case fst st f of None \<Rightarrow> Map.empty | Some c \<Rightarrow> c)"

text \<open>What the file has for a key, if the file is used.\<close>

definition fileHit :: "ssh_env \<Rightarrow> string \<Rightarrow> bool \<Rightarrow> info_state \<Rightarrow> string \<Rightarrow> SSHInfo option" where
  "fileHit env f noCache st key = (if f \<noteq> [] \<and> \<not> noCache then cacheLookup env (storedIn f st) key else None)"

lemmas query_defs = queryInfo_def GetSSHInfo_def NewSSHInfoQuery_def fileHit_def storedIn_def Let_def

lemma answerTo_cases:
  "answerTo fuel env f noCache st address =
     (if urlToKey address = [] then Some (Inl (Error (''bad address for review '' @ sq address)))
      else case snd st (urlToKey address) of Some r \<Rightarrow> Some r
        | None \<Rightarrow> (case fileHit env f noCache st (urlToKey address) of Some i \<Rightarrow> Some (Inr i)
            | None \<Rightarrow> querySSHInfo fuel env address))"
  by (auto simp: answerTo_def query_defs cacheStore_def split: option.splits sum.splits go_error.splits)

abbreviation cacheExpiry :: "ssh_env \<Rightarrow> string" where
  "cacheExpiry env \<equiv> se_FormatTime env (se_Now env + sshInfoCacheDefaultExpire + se_ZoneOffset env)"

text \<open>A query leaves the caches as they are, or it asked the server and its answer is kept.\<close>

lemma queryInfo_state:
  assumes "queryInfo fuel env f address noCache st = Some (st', r)"
  shows "st' = st \<or>
     (answerTo fuel env f noCache st address = Some r \<and> snd st (urlToKey address) = None \<and>
      fileHit env f noCache st (urlToKey address) = None \<and> snd st' = (snd st)(urlToKey address \<mapsto> r) \<and>
      (storedIn f st' = storedIn f st \<or>
       (\<exists>i. r = Inr i \<and> storedIn f st' = (storedIn f st)(sshInfoKey (urlToKey address) \<mapsto> se_Marshal env i, expireKey (urlToKey address) \<mapsto> cacheExpiry env))))"
proof -
  let ?k = "urlToKey address"
  have asked: "snd st ?k = None \<and> fileHit env f noCache st ?k = None \<and> ?k \<noteq> []" if "st' \<noteq> st"
    using that assms
    by (auto simp: query_defs split: option.splits if_splits)
  have store: "snd st' = (snd st)(?k \<mapsto> r) \<and> (storedIn f st' = storedIn f st \<or>
       (\<exists>i. r = Inr i \<and> storedIn f st' = (storedIn f st)(sshInfoKey ?k \<mapsto> se_Marshal env i, expireKey ?k \<mapsto> cacheExpiry env)))" if changed: "st' \<noteq> st"
  proof -
    obtain q where q: "querySSHInfo fuel env address = Some q" using assms asked [OF changed]
      by (auto simp: query_defs split: option.splits if_splits)
    have "q = r \<and> (\<forall>e. q = Inl e \<longrightarrow> is_Error q)" using assms asked [OF changed] q changed
      by (cases q rule: is_Error.cases) (auto simp: query_defs cacheStore_def split: option.splits if_splits)
    then show ?thesis using assms asked [OF changed] q
      by (cases q rule: is_Error.cases) (auto simp: query_defs cacheStore_def split: option.splits if_splits)
  qed
  have "answerTo fuel env f noCache st address = Some r" using assms by (simp add: answerTo_def)
  then show ?thesis using asked store by blast
qed

lemma cache_keys [simp]:
  "sshInfoKey k = sshInfoKey k' \<longleftrightarrow> k = k'" "expireKey k = expireKey k' \<longleftrightarrow> k = k'"
  "sshInfoKey k \<noteq> expireKey k'" "expireKey k \<noteq> sshInfoKey k'"
proof -
  show ne: "sshInfoKey k \<noteq> expireKey k'" for k k'
  proof
    assume "sshInfoKey k = expireKey k'"
    then have "last (sshInfoKey k) = last (expireKey k')" by simp
    then show False by (simp add: sshInfoKey_def expireKey_def)
  qed
  show "expireKey k \<noteq> sshInfoKey k'" using ne by metis
qed (simp_all add: sshInfoKey_def expireKey_def)

lemma cacheLookup_other:
  "k \<noteq> k' \<Longrightarrow> cacheLookup env (c(sshInfoKey k \<mapsto> d, expireKey k \<mapsto> t)) k' = cacheLookup env c k'"
  by (simp add: cacheLookup_def cfgGet_def)

text \<open>No query changes the answer to another one, when the server answers alike for equal keys.\<close>

lemma answerTo_stable:
  assumes "queryInfo fuel env f a noCache st = Some (st', r)"
    and "urlToKey a = urlToKey b \<Longrightarrow> querySSHInfo fuel env a = querySSHInfo fuel env b"
  shows "answerTo fuel env f noCache st' b = answerTo fuel env f noCache st b"
  using queryInfo_state [OF assms(1)]
proof (elim disjE conjE exE)
  assume asked: "answerTo fuel env f noCache st a = Some r" "snd st (urlToKey a) = None"
    "fileHit env f noCache st (urlToKey a) = None" "snd st' = (snd st)(urlToKey a \<mapsto> r)"
  have stay: "answerTo fuel env f noCache st' b = answerTo fuel env f noCache st b"
    if "urlToKey a \<noteq> urlToKey b \<Longrightarrow> fileHit env f noCache st' (urlToKey b) = fileHit env f noCache st (urlToKey b)"
  proof (cases "urlToKey a = urlToKey b")
    case True
    then show ?thesis using asked assms(2) by (simp add: answerTo_cases split: if_splits)
  next
    case False
    then have "snd st' (urlToKey b) = snd st (urlToKey b)" using asked(4) by simp
    then show ?thesis
      unfolding answerTo_cases [of fuel env f noCache st' b] answerTo_cases [of fuel env f noCache st b] that [OF False] by simp
  qed
  show "storedIn f st' = storedIn f st \<Longrightarrow> ?thesis" by (rule stay) (simp add: fileHit_def)
  show "?thesis" if "storedIn f st' = (storedIn f st)(sshInfoKey (urlToKey a) \<mapsto> se_Marshal env i, expireKey (urlToKey a) \<mapsto> cacheExpiry env)" for i
    by (rule stay) (simp add: fileHit_def that cacheLookup_other)
qed simp

section \<open>The order of the threads\<close>

text \<open>The address for which the thread of a remote asks for ssh information, if it does.\<close>

definition asked :: "(string \<rightharpoonup> string) \<Rightarrow> RemoteMap option \<Rightarrow> string \<Rightarrow> string option" where
  "asked c shared name =
     (case configRemote c name of None \<Rightarrow> None
      | Some mr \<Rightarrow>
        (case (case shared of None \<Rightarrow> None | Some sm \<Rightarrow> RemoteMap_Get sm name) of Some r \<Rightarrow> None
         | None \<Rightarrow> if rm_Review mr \<noteq> [] \<and> rm_Type mr = [] then Some (rm_Review mr) else None))"

text \<open>The helper made from an answer; there is none after an error.\<close>

definition helperFor :: "SSHInfo result option \<Rightarrow> ProtoHelper option" where
  "helperFor ans = (case ans of Some (Inr i) \<Rightarrow> Some (NewProtoHelper i) | _ \<Rightarrow> None)"

text \<open>The remote that a thread adds, given the answers.\<close>

definition loadedEntry :: "(string \<Rightarrow> SSHInfo result option) \<Rightarrow> (string \<rightharpoonup> string) \<Rightarrow> RemoteMap option \<Rightarrow> string \<Rightarrow> PRemote option" where
  "loadedEntry ans c shared name =
     (case configRemote c name of None \<Rightarrow> None
      | Some mr \<Rightarrow>
        (case (case shared of None \<Rightarrow> None | Some sm \<Rightarrow> RemoteMap_Get sm name) of
           Some r \<Rightarrow> Some (NewRemote (shareRemote r mr) (pr_Helper r))
         | None \<Rightarrow> Some (NewRemote mr
             (if rm_Review mr = [] then None
              else if rm_Type mr \<noteq> [] then Some (NewProtoHelper (SSHInfo0\<lparr>ProtoType := rm_Type mr\<rparr>))
              else helperFor (ans (rm_Review mr))))))"

text \<open>Every query returns, with an answer or an error.\<close>

definition answered :: "(string \<Rightarrow> SSHInfo result option) \<Rightarrow> (string \<rightharpoonup> string) \<Rightarrow> RemoteMap option \<Rightarrow> string set \<Rightarrow> bool" where
  "answered ans c shared N \<longleftrightarrow>
     (\<forall>n \<in> N. \<forall>a. asked c shared n = Some a \<longrightarrow> (case ans a of None \<Rightarrow> False | Some r \<Rightarrow> is_Error r \<or> (\<exists>i. r = Inr i)))"

text \<open>Addresses with the same cache key get the same answer from the server.\<close>

definition key_determines :: "nat \<Rightarrow> ssh_env \<Rightarrow> (string \<rightharpoonup> string) \<Rightarrow> RemoteMap option \<Rightarrow> string set \<Rightarrow> bool" where
  "key_determines fuel env c shared N \<longleftrightarrow>
     (\<forall>n \<in> N. \<forall>n' \<in> N. \<forall>a b. asked c shared n = Some a \<longrightarrow> asked c shared n' = Some b \<longrightarrow>
        urlToKey a = urlToKey b \<longrightarrow> querySSHInfo fuel env a = querySSHInfo fuel env b)"

lemma key_determinesD:
  assumes "key_determines fuel env c shared N" and "n \<in> N" and "n' \<in> N"
    and "asked c shared n = Some a" and "asked c shared n' = Some b" and "urlToKey a = urlToKey b"
  shows "querySSHInfo fuel env a = querySSHInfo fuel env b"
  using assms unfolding key_determines_def by blast

lemma answered_mono: "answered ans c shared N \<Longrightarrow> N' \<subseteq> N \<Longrightarrow> answered ans c shared N'"
  unfolding answered_def by blast

lemma key_determines_mono: "key_determines fuel env c shared N \<Longrightarrow> N' \<subseteq> N \<Longrightarrow> key_determines fuel env c shared N'"
  unfolding key_determines_def by blast

lemma configRemote_names: "configRemote c name = Some mr \<Longrightarrow> rm_Name mr = name \<and> rm_Alias mr = []"
  by (auto simp: configRemote_def Let_def split: if_splits)

lemma loadedEntry_name:
  "loadedEntry ans c shared name = Some r \<Longrightarrow> rm_Name (pr_Remote r) = name \<and> rm_Alias (pr_Remote r) = []"
  by (auto simp: loadedEntry_def NewRemote_def shareRemote_def Let_def dest: configRemote_names
      split: option.splits if_splits)

lemma loadedEntry_asked:
  "asked c shared name = Some a \<Longrightarrow> \<exists>r. loadedEntry ans c shared name = Some r \<and> pr_Helper r = helperFor (ans a)"
  by (auto simp: asked_def loadedEntry_def NewRemote_def split: option.splits if_splits)

lemma loadedEntry_cong:
  "(\<And>a. asked c shared name = Some a \<Longrightarrow> ans a = ans' a) \<Longrightarrow> loadedEntry ans c shared name = loadedEntry ans' c shared name"
  by (auto simp: asked_def loadedEntry_def split: option.splits if_splits)

lemma is_returned:
  assumes "is_Error r \<or> (\<exists>i. r = Inr i)"
  obtains (Failed) e where "r = Inl (Error e)" | (Got) i where "r = Inr i"
  using assms by (cases r rule: is_Error.cases) auto

text \<open>One thread: it adds its remote, and later threads get the answers they would have got before.\<close>

definition step_done :: "nat \<Rightarrow> ssh_env \<Rightarrow> string \<Rightarrow> bool \<Rightarrow> (string \<rightharpoonup> string) \<Rightarrow> RemoteMap option \<Rightarrow> string set \<Rightarrow>
    info_state \<Rightarrow> RemoteMap \<Rightarrow> string \<Rightarrow> info_state \<Rightarrow> bool" where
  "step_done fuel env f noCache c shared N st m n st' \<longleftrightarrow>
     loadRemote fuel env f noCache c shared (m, st) n =
       Some (Inr (case loadedEntry (answerTo fuel env f noCache st) c shared n of None \<Rightarrow> m | Some r \<Rightarrow> RemoteMap_Add m r, st')) \<and>
     (\<forall>n' \<in> N. \<forall>b. asked c shared n' = Some b \<longrightarrow> answerTo fuel env f noCache st' b = answerTo fuel env f noCache st b)"

lemma step_doneD:
  assumes "step_done fuel env f noCache c shared N st m n st'"
  shows "loadRemote fuel env f noCache c shared (m, st) n =
      Some (Inr (case loadedEntry (answerTo fuel env f noCache st) c shared n of None \<Rightarrow> m | Some r \<Rightarrow> RemoteMap_Add m r, st'))"
    and "n' \<in> N \<Longrightarrow> asked c shared n' = Some b \<Longrightarrow> answerTo fuel env f noCache st' b = answerTo fuel env f noCache st b"
proof -
  note parts = assms [unfolded step_done_def]
  show "loadRemote fuel env f noCache c shared (m, st) n =
      Some (Inr (case loadedEntry (answerTo fuel env f noCache st) c shared n of None \<Rightarrow> m | Some r \<Rightarrow> RemoteMap_Add m r, st'))"
    using parts by (rule conjunct1)
  show "answerTo fuel env f noCache st' b = answerTo fuel env f noCache st b" if "n' \<in> N" "asked c shared n' = Some b"
    using parts [THEN conjunct2, rule_format, OF that] .
qed

lemma loadRemote_step:
  assumes "answered (answerTo fuel env f noCache st) c shared N" and "key_determines fuel env c shared N" and "n \<in> N"
  shows "\<exists>st'. step_done fuel env f noCache c shared N st m n st'"
proof (cases "asked c shared n")
  case None
  then have "step_done fuel env f noCache c shared N st m n st"
    by (auto simp: step_done_def asked_def loadedEntry_def loadRemote_def AddRemote_def split: option.splits if_splits)
  then show ?thesis ..
next
  case (Some a)
  then have "case answerTo fuel env f noCache st a of None \<Rightarrow> False | Some r \<Rightarrow> is_Error r \<or> (\<exists>i. r = Inr i)"
    using assms(1,3) by (auto simp: answered_def)
  then obtain st' r where q: "queryInfo fuel env f a noCache st = Some (st', r)" and r: "is_Error r \<or> (\<exists>i. r = Inr i)"
    by (auto simp: answerTo_def split: option.splits)
  then have ans: "answerTo fuel env f noCache st a = Some r" by (simp add: answerTo_def)
  obtain mr where mr: "configRemote c n = Some mr" "(case shared of None \<Rightarrow> None | Some sm \<Rightarrow> RemoteMap_Get sm n) = None"
    "rm_Review mr = a" "a \<noteq> []" "rm_Type mr = []"
    using Some by (auto simp: asked_def split: option.splits if_splits)
  have "step_done fuel env f noCache c shared N st m n st'"
    unfolding step_done_def
  proof (intro conjI ballI allI impI)
    show "loadRemote fuel env f noCache c shared (m, st) n =
      Some (Inr (case loadedEntry (answerTo fuel env f noCache st) c shared n of None \<Rightarrow> m | Some r \<Rightarrow> RemoteMap_Add m r, st'))"
      using mr q ans by (cases rule: is_returned [OF r])
        (simp_all add: loadedEntry_def loadRemote_def AddRemote_def helperFor_def)
    show "answerTo fuel env f noCache st' b = answerTo fuel env f noCache st b"
      if "n' \<in> N" "asked c shared n' = Some b" for n' b
      by (rule answerTo_stable [OF q]) (rule key_determinesD [OF assms(2,3) that(1) Some that(2)])
  qed
  then show ?thesis ..
qed

lemma map_filter_same: "(\<And>x. x \<in> set xs \<Longrightarrow> f x = g x) \<Longrightarrow> List.map_filter f xs = List.map_filter g xs"
  by (induction xs) (simp_all add: List.map_filter_def)

lemma loadAll_entries:
  assumes "answered (answerTo fuel env f noCache st) c shared (set N)" and "key_determines fuel env c shared (set N)"
  shows "\<exists>st'. loadAll (loadRemote fuel env f noCache c shared) (m, st) N =
     Some (Inr (foldl RemoteMap_Add m (List.map_filter (loadedEntry (answerTo fuel env f noCache st) c shared) N), st'))"
  using assms
proof (induction N arbitrary: m st)
  case (Cons n N)
  have n: "n \<in> set (n # N)" by simp
  obtain st1 where st1: "step_done fuel env f noCache c shared (set (n # N)) st m n st1"
    using loadRemote_step [OF Cons.prems n, of m] by (elim exE)
  note step = step_doneD(1) [OF st1] and same = step_doneD(2) [OF st1]
  have rest: "answered (answerTo fuel env f noCache st) c shared (set N)" "key_determines fuel env c shared (set N)"
    by (rule answered_mono [OF Cons.prems(1)], auto) (rule key_determines_mono [OF Cons.prems(2)], auto)
  have "answered (answerTo fuel env f noCache st1) c shared (set N)"
    unfolding answered_def
  proof (intro ballI allI impI)
    fix n' a assume n': "n' \<in> set N" "asked c shared n' = Some a"
    then show "case answerTo fuel env f noCache st1 a of None \<Rightarrow> False | Some r \<Rightarrow> is_Error r \<or> (\<exists>i. r = Inr i)"
      using rest(1) same [of n' a] by (simp add: answered_def)
  qed
  note IH = Cons.IH [OF this rest(2), of "case loadedEntry (answerTo fuel env f noCache st) c shared n of None \<Rightarrow> m | Some r \<Rightarrow> RemoteMap_Add m r"]
  have "List.map_filter (loadedEntry (answerTo fuel env f noCache st1) c shared) N =
      List.map_filter (loadedEntry (answerTo fuel env f noCache st) c shared) N"
    by (intro map_filter_same loadedEntry_cong, rule same, simp_all)
  with IH step show ?case
    by (auto simp: List.map_filter_def split: option.splits)
qed (simp add: List.map_filter_def)


lemma fold_Add_wf:
  "wf_RemoteMap m \<Longrightarrow> (\<forall>r \<in> set rs. rm_Alias (pr_Remote r) = []) \<Longrightarrow>
     wf_RemoteMap (foldl RemoteMap_Add m rs) \<and> aliases (foldl RemoteMap_Add m rs) = aliases m \<and>
     defaultRemote (foldl RemoteMap_Add m rs) = defaultRemote m"
proof (induction rs arbitrary: m)
  case (Cons r rs)
  then have "aliases (RemoteMap_Add m r) = aliases m" "defaultRemote (RemoteMap_Add m r) = defaultRemote m"
    by (simp_all add: RemoteMap_Add_def Let_def)
  then show ?case using Cons.IH [OF wf_Add [OF Cons.prems(1)]] Cons.prems(2) by simp
qed simp

lemma set_entries:
  "set (List.map_filter (loadedEntry ans c shared) names) = {r. \<exists>n \<in> set names. loadedEntry ans c shared n = Some r}"
  by (auto simp: List.map_filter_def) force

lemma loaded_same_table:
  assumes "set names = set names'"
  shows "same_table (foldl RemoteMap_Add NewRemoteMap (List.map_filter (loadedEntry ans c shared) names))
     (foldl RemoteMap_Add NewRemoteMap (List.map_filter (loadedEntry ans c shared) names'))"
proof -
  let ?e = "List.map_filter (loadedEntry ans c shared)"
  have inj: "inj_on (\<lambda>r. rm_Name (pr_Remote r)) (set (?e names))"
    by (rule inj_onI) (use loadedEntry_name in \<open>fastforce simp: set_entries\<close>)
  have "\<forall>r \<in> set (?e ns). rm_Alias (pr_Remote r) = []" for ns
    by (auto simp: set_entries dest: loadedEntry_name)
  then show ?thesis
    using remotes.fold_order_irrelevant [OF _ inj, of "?e names'" NewRemoteMap] assms
      fold_Add_wf [OF wf_NewRemoteMap]
    by (simp add: same_table_def set_entries)
qed

lemma addManifestRemote_same:
  assumes "same_table m m'"
  shows "(\<exists>e. addManifestRemote mremote shared m = Inl e \<and> addManifestRemote mremote shared m' = Inl e) \<or>
    (\<exists>t t'. addManifestRemote mremote shared m = Inr t \<and> addManifestRemote mremote shared m' = Inr t' \<and> same_table t t')"
  using assms same_Add [OF assms]
  by (simp add: addManifestRemote_def same_Get [OF assms] split: option.split)

lemma loaded_helper:
  assumes "n \<in> set names" and "asked c shared n = Some a"
  shows "\<exists>r. map_of (remotes (foldl RemoteMap_Add NewRemoteMap (List.map_filter (loadedEntry ans c shared) names))) n = Some r \<and>
     pr_Helper r = helperFor (ans a)"
proof -
  obtain r where r: "loadedEntry ans c shared n = Some r" "pr_Helper r = helperFor (ans a)"
    using loadedEntry_asked [OF assms(2)] by blast
  have name: "rm_Name (pr_Remote r) = n" using loadedEntry_name [OF r(1)] by simp
  have "r \<in> set (List.map_filter (loadedEntry ans c shared) names)" using assms(1) r(1) by (auto simp: set_entries)
  moreover have "u = r" if u: "u \<in> set (List.map_filter (loadedEntry ans c shared) names)"
      "rm_Name (pr_Remote u) = rm_Name (pr_Remote r)" for u
  proof -
    obtain n' where n': "loadedEntry ans c shared n' = Some u" using u(1) by (auto simp: set_entries)
    then show ?thesis using loadedEntry_name [OF n'] u(2) name r(1) by simp
  qed
  ultimately have "map_of (remotes (foldl RemoteMap_Add NewRemoteMap (List.map_filter (loadedEntry ans c shared) names)))
      (rm_Name (pr_Remote r)) = Some r"
    by (rule remotes.lookup_fold_in)
  then show ?thesis using r(2) name by simp
qed

lemma addManifestRemote_keeps:
  assumes "map_of (remotes m) n = Some r" and "addManifestRemote mremote shared m = Inr m'"
  shows "RemoteMap_Get m' n = Some r"
proof -
  have "map_of (remotes m') n = Some r"
    using assms by (auto simp: addManifestRemote_def remotes.lookup_ins NewRemote_def RemoteMap_Get_def
        split: option.splits if_splits)
  then show ?thesis by (simp add: RemoteMap_Get_def)
qed

text \<open>
  Property C21. The remotes of a project are loaded by one thread per remote section, and the
  order in which the threads do their work does not matter, queries of servers included: for any two
  orders (lists of sections with the same elements) the tables have the same answer to every lookup by
  name or alias and the same default remote, or both loads fail with the same error. A remote that
  needs ssh information has the helper made from the answer that the caches or the server had for
  its address at the start, whatever other threads have stored meanwhile. The provisos: the queries
  return, with an answer or an error, and the servers of two addresses with the same cache key
  answer alike. Each thread's work on the caches is one step.
\<close>

theorem LoadRemotes_order:
  assumes "set sections = set sections'"
    and "answered (answerTo fuel env f noCache is) c shared (set (remoteNames sections))"
    and "key_determines fuel env c shared (set (remoteNames sections))"
  shows "(\<exists>e. Project_LoadRemotes fuel env f noCache c sections shared mremote is = Some (Inl e) \<and>
        Project_LoadRemotes fuel env f noCache c sections' shared mremote is = Some (Inl e)) \<or>
    (\<exists>m m' is1 is2. Project_LoadRemotes fuel env f noCache c sections shared mremote is = Some (Inr (m, is1)) \<and>
        Project_LoadRemotes fuel env f noCache c sections' shared mremote is = Some (Inr (m', is2)) \<and>
        RemoteMap_Get m = RemoteMap_Get m' \<and> (\<forall>b. RemoteMap_Default m b = RemoteMap_Default m' b) \<and>
        (\<forall>n \<in> set (remoteNames sections). \<forall>a. asked c shared n = Some a \<longrightarrow>
           map_option pr_Helper (RemoteMap_Get m n) = Some (helperFor (answerTo fuel env f noCache is a))))"
proof -
  have names: "set (remoteNames sections) = set (remoteNames sections')" using assms(1) by (simp add: remoteNames_def)
  let ?ans = "answerTo fuel env f noCache is"
  let ?t = "\<lambda>ss. foldl RemoteMap_Add NewRemoteMap (List.map_filter (loadedEntry ?ans c shared) (remoteNames ss))"
  have same: "same_table (?t sections) (?t sections')" using names by (rule loaded_same_table)
  have run: "\<exists>is'. Project_LoadRemotes fuel env f noCache c ss shared mremote is =
      Some (bind_result (addManifestRemote mremote shared (?t ss)) (\<lambda>m'. Inr (m', is')))"
    if ss: "set (remoteNames ss) = set (remoteNames sections)" for ss
  proof -
    obtain is' where "loadAll (loadRemote fuel env f noCache c shared) (NewRemoteMap, is) (remoteNames ss) = Some (Inr (?t ss, is'))"
      using loadAll_entries [of fuel env f noCache "is" c shared "remoteNames ss" NewRemoteMap] assms(2,3)
      unfolding ss [symmetric] by blast
    then show ?thesis by (cases is') (auto simp: Project_LoadRemotes_def)
  qed
  show ?thesis
  proof (cases "addManifestRemote mremote shared (?t sections)")
    case (Inl e)
    then show ?thesis using run [of sections] run [of sections'] names addManifestRemote_same [OF same, of mremote shared] by auto
  next
    case (Inr m)
    then obtain m' where m': "addManifestRemote mremote shared (?t sections') = Inr m'" "same_table m m'"
      using addManifestRemote_same [OF same, of mremote shared] by auto
    obtain is1 is2 where
      1: "Project_LoadRemotes fuel env f noCache c sections shared mremote is = Some (Inr (m, is1))" and
      2: "Project_LoadRemotes fuel env f noCache c sections' shared mremote is = Some (Inr (m', is2))"
      using run [of sections] run [of sections'] names Inr m'(1) by auto
    have 3: "map_option pr_Helper (RemoteMap_Get m n) = Some (helperFor (?ans a))"
      if na: "n \<in> set (remoteNames sections)" "asked c shared n = Some a" for n a
    proof -
      obtain r where "map_of (remotes (?t sections)) n = Some r" "pr_Helper r = helperFor (?ans a)"
        using loaded_helper [OF na, of ?ans] by (elim exE conjE)
      then show ?thesis using addManifestRemote_keeps [OF _ Inr] by simp
    qed
    show ?thesis
      by (rule disjI2, intro exI conjI, rule 1, rule 2)
        (simp_all add: same_Get [OF m'(2)] same_Default [OF m'(2)] 3 [unfolded same_Get [OF m'(2)]])
  qed
qed

text \<open>The remotes a and b ask the server of the same address, c asks none.\<close>

definition sample_ssh_env :: ssh_env where
  "sample_ssh_env = \<lparr>se_Getenv = (\<lambda>_. []), se_GitConfig = (\<lambda>_. []), se_RunOK = (\<lambda>_. False), se_Output = (\<lambda>_. Inl []),
     se_HTTP = (\<lambda>_ url. if url = ''https://r/ssh_info'' then Response 200 ''s.r 29418'' else NoResponse []),
     se_Unmarshal = (\<lambda>_. Inl []), se_Marshal = (\<lambda>_. []), se_MockResponse = [], se_MockStatus = 0, se_Now = 0, se_ZoneOffset = 0,
     se_ParseTime = (\<lambda>_. None), se_FormatTime = (\<lambda>_. [])\<rparr>"

definition sample_config :: "string \<rightharpoonup> string" where
  "sample_config = [''remote.a.url'' \<mapsto> ''https://r/a.git'', ''remote.b.url'' \<mapsto> ''https://r/b.git'',
     ''remote.c.url'' \<mapsto> ''/c'', ''remote.c.review'' \<mapsto> ''r'', ''remote.c.type'' \<mapsto> ''agit'']"

theorem LoadRemotes_order_witness:
  "\<exists>m m' is1 is2.
     Project_LoadRemotes 1 sample_ssh_env ''/cache'' False sample_config [''remote.a'', ''remote.b'', ''core'', ''remote.c''] None None (Map.empty, Map.empty)
        = Some (Inr (m, is1)) \<and>
     Project_LoadRemotes 1 sample_ssh_env ''/cache'' False sample_config [''remote.c'', ''remote.b'', ''remote.a'', ''core''] None None (Map.empty, Map.empty)
        = Some (Inr (m', is2)) \<and> RemoteMap_Get m = RemoteMap_Get m' \<and>
     map_option pr_Helper (RemoteMap_Get m ''a'') = Some (Some (NewProtoHelper (SSHInfo0\<lparr>si_Host := ''s.r'', si_Port := 29418, ProtoType := ''gerrit''\<rparr>)))"
proof -
  let ?ss = "[''remote.a'', ''remote.b'', ''core'', ''remote.c'']"
  let ?ans = "answerTo 1 sample_ssh_env ''/cache'' False (Map.empty, Map.empty)"
  let ?i = "SSHInfo0\<lparr>si_Host := ''s.r'', si_Port := 29418, ProtoType := ''gerrit''\<rparr>"
  have names: "remoteNames ?ss = [''a'', ''b'', ''c'']" by code_simp
  have ask: "asked sample_config None ''a'' = Some ''https://r''" "asked sample_config None ''b'' = Some ''https://r''"
    "asked sample_config None ''c'' = None" by code_simp+
  have "urlToKey ''https://r'' = ''https://r''" by code_simp
  moreover have "fileHit sample_ssh_env ''/cache'' False (Map.empty, Map.empty) ''https://r'' = None" by code_simp
  moreover have "querySSHInfo 1 sample_ssh_env ''https://r'' = Some (Inr ?i)" by code_simp
  ultimately have ans: "?ans ''https://r'' = Some (Inr ?i)" by (simp add: answerTo_cases)
  have h: "helperFor (?ans ''https://r'') = Some (NewProtoHelper ?i)" unfolding ans by (simp add: helperFor_def)
  have 1: "answered ?ans sample_config None (set (remoteNames ?ss))"
    unfolding names answered_def using ask ans by auto
  have 2: "key_determines 1 sample_ssh_env sample_config None (set (remoteNames ?ss))"
    unfolding names key_determines_def using ask by auto
  obtain st' where "loadAll (loadRemote 1 sample_ssh_env ''/cache'' False sample_config None) (NewRemoteMap, (Map.empty, Map.empty)) (remoteNames ?ss) =
      Some (Inr (foldl RemoteMap_Add NewRemoteMap (List.map_filter (loadedEntry ?ans sample_config None) (remoteNames ?ss)), st'))"
    using loadAll_entries [OF 1 2, of NewRemoteMap] by (rule exE)
  then have noerr: "Project_LoadRemotes 1 sample_ssh_env ''/cache'' False sample_config ?ss None None (Map.empty, Map.empty) \<noteq> Some (Inl e)" for e
    unfolding Project_LoadRemotes_def by (simp only: addManifestRemote_def) simp
  have "set ?ss = set [''remote.c'', ''remote.b'', ''remote.a'', ''core'']" by auto
  from LoadRemotes_order [OF this 1 2, of None] show ?thesis
  proof (elim disjE exE conjE)
    fix e assume "Project_LoadRemotes 1 sample_ssh_env ''/cache'' False sample_config ?ss None None (Map.empty, Map.empty) = Some (Inl e)"
    with noerr show ?thesis by simp
  next
    fix m m' is1 is2
    assume *: "Project_LoadRemotes 1 sample_ssh_env ''/cache'' False sample_config ?ss None None (Map.empty, Map.empty) = Some (Inr (m, is1))"
      "Project_LoadRemotes 1 sample_ssh_env ''/cache'' False sample_config [''remote.c'', ''remote.b'', ''remote.a'', ''core''] None None (Map.empty, Map.empty) = Some (Inr (m', is2))"
      "RemoteMap_Get m = RemoteMap_Get m'"
    assume "\<forall>n \<in> set (remoteNames ?ss). \<forall>a. asked sample_config None n = Some a \<longrightarrow>
        map_option pr_Helper (RemoteMap_Get m n) = Some (helperFor (?ans a))"
    then have "map_option pr_Helper (RemoteMap_Get m ''a'') = Some (Some (NewProtoHelper ?i))"
      using ask(1) h unfolding names by simp
    with * show ?thesis by (intro exI conjI)
  qed
qed

end
