(* ===== verification/Local_Half.thy ===== *)
theory Local_Half
  imports Remotes
begin

text \<open>
  The local half of a synchronisation (project/local-half.go): which of checkout, hard reset,
  rebase and merge brings the work tree of a project to the fetched revision, the tracking
  information, hooks (config/hooks.go), and the copied and linked files.
\<close>

section \<open>Git commands in the work tree\<close>

definition IsClean :: "machine \<Rightarrow> string \<Rightarrow> bool result" where
  "IsClean mc dir =
     (if \<not> Exist (mc_host mc) dir then Inl (Error (''dir '' @ dir @ '' does not exist''))
      else case mc_Output mc dir [''git'', ''status'', ''-uno'', ''--porcelain'', ''--''] of
          (out, Some e) \<Rightarrow> Inl (Error e)
        | (out, None) \<Rightarrow> Inr (outputLines out = []))"

text \<open>An error counts as not clean.\<close>

definition Project_IsClean :: "machine \<Rightarrow> WorkProject \<Rightarrow> bool" where
  "Project_IsClean mc v = (case IsClean mc (WorkDir v) of Inl _ \<Rightarrow> False | Inr b \<Rightarrow> b)"

definition CheckoutRevision :: "WorkProject \<Rightarrow> string list \<Rightarrow> unit op" where
  "CheckoutRevision v args = executeCommandIn (WorkDir v) ([''git'', ''checkout''] @ args @ [''--''])"

definition HardReset :: "WorkProject \<Rightarrow> string list \<Rightarrow> unit op" where
  "HardReset v args = executeCommandIn (WorkDir v) ([''git'', ''reset'', ''--hard''] @ args @ [''--''])"

definition Project_Rebase :: "WorkProject \<Rightarrow> string list \<Rightarrow> unit op" where
  "Project_Rebase v args = executeCommandIn (WorkDir v) ([''git'', ''rebase''] @ args @ [''--''])"

definition FastForward :: "WorkProject \<Rightarrow> string list \<Rightarrow> unit op" where
  "FastForward v args = executeCommandIn (WorkDir v)
     ([''git'', ''-c'', ''advice.diverging=false'', ''merge''] @ args @ [''--''])"

definition SubmoduleUpdate :: "WorkProject \<Rightarrow> string list \<Rightarrow> unit op" where
  "SubmoduleUpdate v args = executeCommandIn (WorkDir v)
     ([''git'', ''submodule'', ''update'', ''--init'', ''--recursive''] @ args @ [''--''])"

section \<open>Hooks\<close>

definition GetConfigDir :: "machine \<Rightarrow> string result" where
  "GetConfigDir mc = bind_result (mc_Home mc) (\<lambda>home. Inr (Join [home, ''.git-repo-go'']))"

definition GetRepoHooksDir :: "machine \<Rightarrow> string result" where
  "GetRepoHooksDir mc =
     (case GetConfigDir mc of
        Inl e \<Rightarrow> Inl (Error (''fail to get hooks dir: '' @ errText e))
      | Inr d \<Rightarrow> Inr (Join [d, ''hooks'']))"

definition gerritHookNames :: "string list" where "gerritHookNames = [''commit-msg'']"

definition installHook :: "string \<Rightarrow> string \<Rightarrow> string \<Rightarrow> unit op" where
  "installHook hooksDir localHooksDir name =
     (let src = Join [hooksDir, name]; target = Join [localHooksDir, name];
          srcRel = (case Rel localHooksDir src of None \<Rightarrow> src | Some r \<Rightarrow> r)
      in bnd (look (\<lambda>mc. (Exist (mc_host mc) target, mc_Readlink mc target))) (\<lambda>(there, linked).
         if there \<and> (case linked of Some l \<Rightarrow> Base l = name | None \<Rightarrow> False) then ret ()
         else andThen (doIf there (ignore (perform (Remove target)))) (perform (Symlink srcRel target))))"

definition InstallGerritHooks :: "WorkProject \<Rightarrow> unit op" where
  "InstallGerritHooks v =
     bnd (lookR GetRepoHooksDir) (\<lambda>hooksDir.
     bnd (look (\<lambda>mc. Exist (mc_host mc) hooksDir)) (\<lambda>there.
       if \<not> there then ret ()
       else bnd (look (\<lambda>mc. let d = Join [CommonDir mc v, ''hooks''] in
                   case h_EvalSymlinks (mc_host mc) d of Inl _ \<Rightarrow> d | Inr p \<Rightarrow> p)) (\<lambda>localHooksDir.
         andThen (ignore (perform (MkdirAll localHooksDir)))
           (each (installHook hooksDir localHooksDir) gerritHookNames))))"

section \<open>Copied and linked files\<close>

definition beyondRoot :: "string \<Rightarrow> string \<Rightarrow> string \<Rightarrow> go_error" where
  "beyondRoot root which name =
     Error (''fail to copy file, '' @ which @ '' file '' @ sq name @ '' beyond repo root '' @ sq root)"

text \<open>The names inside the work tree and the workspace, and the check that both are in the
  workspace.\<close>

definition srcAbs :: "WorkProject \<Rightarrow> string \<Rightarrow> string" where "srcAbs v src = Clean (Join [WorkDir v, src])"

definition destAbs :: "RepoSettings \<Rightarrow> string \<Rightarrow> string" where "destAbs s dest = Clean (Join [TopDir s, dest])"

definition insideRoot :: "RepoSettings \<Rightarrow> WorkProject \<Rightarrow> string \<Rightarrow> string \<Rightarrow> unit op" where
  "insideRoot s v src dest =
     (if \<not> HasPrefix (srcAbs v src) (TopDir s) then fail (beyondRoot (TopDir s) ''src'' src)
      else if \<not> HasPrefix (destAbs s dest) (TopDir s) then fail (beyondRoot (TopDir s) ''dest'' dest)
      else ret ())"

definition makeParent :: "string \<Rightarrow> unit op" where
  "makeParent f =
     bnd (look (\<lambda>mc. Exist (mc_host mc) (Dir f))) (\<lambda>there. doIf (\<not> there) (ignore (perform (MkdirAll (Dir f)))))"

text \<open>Opening either file and copying are one action, whose error tells which of them failed.\<close>

definition Project_CopyFile :: "RepoSettings \<Rightarrow> WorkProject \<Rightarrow> string \<Rightarrow> string \<Rightarrow> unit op" where
  "Project_CopyFile s v src dest =
     andThen (insideRoot s v src dest)
       (bnd (look (\<lambda>mc. Exist (mc_host mc) (srcAbs v src))) (\<lambda>there.
          if \<not> there then ret ()
          else andThen (makeParent (destAbs s dest))
            (perform (CopyTo (srcAbs v src) (destAbs s dest)))))"

definition Project_LinkFile :: "RepoSettings \<Rightarrow> WorkProject \<Rightarrow> string \<Rightarrow> string \<Rightarrow> unit op" where
  "Project_LinkFile s v src dest =
     andThen (insideRoot s v src dest)
       (bnd (look (\<lambda>mc. Exist (mc_host mc) (srcAbs v src))) (\<lambda>there.
          if \<not> there then ret ()
          else andThen (makeParent (destAbs s dest))
            (let srcRel = (case Rel (Dir (destAbs s dest)) (srcAbs v src) of None \<Rightarrow> srcAbs v src | Some r \<Rightarrow> r) in
             bnd (look (\<lambda>mc. (Exist (mc_host mc) (destAbs s dest), mc_Symlinks mc))) (\<lambda>(old, symlinks).
               andThen (doIf old (ignore (perform (Remove (destAbs s dest)))))
                 (if symlinks then perform (Symlink srcRel (destAbs s dest))
                  else perform (HardLink srcRel (destAbs s dest)))))))"

text \<open>Every file is tried; the errors are collected.\<close>

definition failures :: "(string + unit) list \<Rightarrow> string list" where
  "failures rs = concat (map (case_sum (\<lambda>e. [e]) (\<lambda>_. [])) rs)"

definition CopyAndLinkFiles :: "RepoSettings \<Rightarrow> WorkProject \<Rightarrow> unit op" where
  "CopyAndLinkFiles s v =
     (let tell = (\<lambda>what src dest e. ''fail to '' @ what @ '' file from '' @ src @ '' to '' @ dest @ '': '' @ e) in
      bnd (mapM_op (\<lambda>f. attempt (wrapErr (tell ''copy'' (cf_Src f) (cf_Dest f)) (Project_CopyFile s v (cf_Src f) (cf_Dest f))))
             (CopyFiles (mproject v))) (\<lambda>r1.
      bnd (mapM_op (\<lambda>f. attempt (wrapErr (tell ''link'' (lf_Src f) (lf_Dest f)) (Project_LinkFile s v (lf_Src f) (lf_Dest f))))
             (LinkFiles (mproject v))) (\<lambda>r2.
        let errs = failures r1 @ failures r2 in
        if errs \<noteq> [] then fail (Error (StrJoin errs [CHR 0x0A])) else ret ())))"

section \<open>SyncLocalHalf\<close>

record CheckoutOptions =
  co_Submodules :: bool
  co_DetachHead :: bool
  IsManifest :: bool
  CheckPublished :: bool

definition PostUpdate :: "RepoSettings \<Rightarrow> RemoteMap \<Rightarrow> WorkProject \<Rightarrow> CheckoutOptions \<Rightarrow> string \<Rightarrow> string \<Rightarrow> bool \<Rightarrow> unit op" where
  "PostUpdate s m v co branch track update =
     bnd (lookR (\<lambda>mc. GetDefaultRemote mc m v True)) (\<lambda>remote.
     andThen (doIf (branch \<noteq> [] \<and> track \<noteq> DefaultTrackingBranch v)
               (UpdateBranchTracking v branch (ProjectAttrs.RemoteName (mproject v)) (DefaultTrackingBranch v)))
     (andThen (doIf (update \<and> co_Submodules co) (SubmoduleUpdate v []))
     (andThen (doIf (case remote of Some r \<Rightarrow> PRemote_GetType r = ProtoTypeGerrit | None \<Rightarrow> False)
                (ignore (InstallGerritHooks v)))
       (CopyAndLinkFiles s v))))"

text \<open>What the decision rests on: the fetched commit, the current branch (empty on a detached or
  invalid HEAD), its commit and what it tracks.\<close>

record sync_state =
  ss_revid :: string
  ss_headid :: string
  ss_branch :: string
  ss_track :: string

definition readState :: "machine \<Rightarrow> WorkProject \<Rightarrow> sync_state result" where
  "readState mc v =
     (case ResolveRemoteTracking mc v (Revision (mproject v)) of
        Inl e \<Rightarrow> Inl (Error (''cannot checkout, invalid remote tracking branch '' @ sq (Revision (mproject v)) @ '': '' @ errText e))
      | Inr revid \<Rightarrow>
        if revid = [] then
          Inl (Error (''cannot checkout, invalid remote tracking branch '' @ sq (Revision (mproject v)) @ '': %!s(<nil>)''))
        else
          let head = GetHead mc v;
              headid = (case ResolveRevision mc v head of Inl _ \<Rightarrow> [] | Inr i \<Rightarrow> i);
              branch = (if headid \<noteq> [] \<and> IsHead head then TrimPrefix head RefsHeads else [])
          in bind_result (if branch \<noteq> [] then TrackBranch mc v branch else Inr []) (\<lambda>track.
               Inr \<lparr>ss_revid = revid, ss_headid = headid, ss_branch = branch, ss_track = track\<rparr>))"

definition revlistOrNone :: "machine \<Rightarrow> WorkProject \<Rightarrow> string list \<Rightarrow> string list" where
  "revlistOrNone mc v args = (case Revlist mc v args of Inl _ \<Rightarrow> [] | Inr cs \<Rightarrow> cs)"

definition published :: "machine \<Rightarrow> WorkProject \<Rightarrow> string \<Rightarrow> string" where
  "published mc v branch = PublishedRevision (resolveRaw mc v) branch"

text \<open>How the work tree is brought to the commit, and whether this counts as an update.\<close>

datatype step = Stay | Checkout | FastForwardTo | ResetTo | RebaseTo | MergeTo

definition applyStep :: "WorkProject \<Rightarrow> string \<Rightarrow> step \<Rightarrow> unit op" where
  "applyStep v revid st = (case st of
     Stay \<Rightarrow> ret () | Checkout \<Rightarrow> CheckoutRevision v [revid] | FastForwardTo \<Rightarrow> FastForward v [revid]
   | ResetTo \<Rightarrow> HardReset v [revid] | RebaseTo \<Rightarrow> Project_Rebase v [revid] | MergeTo \<Rightarrow> FastForward v [revid])"

definition counts :: "step \<Rightarrow> bool" where "counts st \<longleftrightarrow> st \<noteq> Stay \<and> st \<noteq> ResetTo"

text \<open>A branch that was published, has commits that are not merged, must not be moved.\<close>

definition publishCheck :: "machine \<Rightarrow> WorkProject \<Rightarrow> CheckoutOptions \<Rightarrow> sync_state \<Rightarrow> step option result" where
  "publishCheck mc v co st =
     (if IsManifest co \<or> \<not> CheckPublished co then Inr None
      else
        let pubid = published mc v (ss_branch st) in
        if pubid = [] then Inr None
        else case Revlist mc v [pubid, ''--not'', ss_revid st] of
            Inl e \<Rightarrow> Inl (Error (''fail to check publish status for branch '' @ sq (ss_branch st) @ '': '' @ errText e))
          | Inr notMerged \<Rightarrow>
              if notMerged \<noteq> [] then Inl (Error (''branch '' @ ss_branch st @ '' is published (but not merged)''))
              else Inr (if pubid = ss_headid st then Some FastForwardTo else None))"

definition switchManifest :: "machine \<Rightarrow> WorkProject \<Rightarrow> sync_state \<Rightarrow> step result" where
  "switchManifest mc v st =
     (let trackid = (case ResolveRemoteTracking mc v (ss_track st) of Inl _ \<Rightarrow> [] | Inr i \<Rightarrow> i) in
      if revlistOrNone mc v [ss_headid st, ''--not'', trackid] \<noteq> []
      then Inl (Error (''add --detach option to `git repo-go init` to throw away changes in '' @ sq ''.repo/manifests''))
      else Inr ResetTo)"

definition chooseStep :: "machine \<Rightarrow> WorkProject \<Rightarrow> CheckoutOptions \<Rightarrow> sync_state \<Rightarrow> step result" where
  "chooseStep mc v co st =
     (if ss_branch st = [] \<or> co_DetachHead co then
        if IsRebaseInProgress mc v then Inl (Error ''prior sync failed; rebase still in progress'')
        else if ss_headid st = ss_revid st \<and> \<not> co_DetachHead co then Inr Stay
        else Inr Checkout
      else if ss_headid st = ss_revid st then Inr Stay
      else if ss_track st = [] then Inr Checkout
      else if (\<not> IsManifest co \<or> DefaultTrackingBranch v = ss_track st) \<and>
              revlistOrNone mc v [ss_revid st, ''--not'', ss_headid st] = [] then Inr Stay
      else bind_result (publishCheck mc v co st) (\<lambda>ff. case ff of
          Some x \<Rightarrow> Inr x
        | None \<Rightarrow>
            if \<not> Project_IsClean mc v then Inl (Error (''worktree of '' @ pName v @ '' is dirty, checkout failed''))
            else if IsManifest co \<and> Revision (mproject v) \<noteq> ss_track st then switchManifest mc v st
            else if IsRebase (mproject v) then Inr RebaseTo else Inr MergeTo))"

definition SyncLocalHalf :: "RepoSettings \<Rightarrow> RemoteMap \<Rightarrow> WorkProject \<Rightarrow> CheckoutOptions \<Rightarrow> unit op" where
  "SyncLocalHalf s m v co =
     andThen (PrepareWorkdir v)
       (if Revision (mproject v) = [] then ret ()
        else andThen (Project_CleanPublishedCache v)
          (bnd (lookR (\<lambda>mc. readState mc v)) (\<lambda>st.
           bnd (lookR (\<lambda>mc. chooseStep mc v co st)) (\<lambda>x.
             andThen (applyStep v (ss_revid st) x)
               (PostUpdate s m v co (ss_branch st) (ss_track st) (counts x))))))"

end
