(* ===== verification/Project_Proofs.thy ===== *)
theory Project_Proofs
  imports Project_Pkg
begin

text \<open>
  Properties of project objects: where their directories lie, which manifests the constructor
  cannot handle, and that the tree of projects lists every project below its ancestors.
\<close>

section \<open>Directories\<close>

definition no_dotdot :: "string \<Rightarrow> bool" where
  "no_dotdot n \<longleftrightarrow> ''..'' \<notin> set (StrSplit n CHR ''/'')"

lemma no_dotdot_StrJoin: "(\<And>y. y \<in> set ys \<Longrightarrow> no_dotdot y) \<Longrightarrow> no_dotdot (StrJoin ys ''/'')"
  by (induction ys) (auto simp: no_dotdot_def StrJoin_Cons StrSplit_append_sep)

lemma under_Join_list:
  assumes "d \<noteq> []" and "\<And>x. x \<in> set xs \<Longrightarrow> no_dotdot x"
  shows "under d (Join (d # xs))"
proof (cases "xs = []")
  case True
  with assms(1) show ?thesis by (simp add: Join_def under_def)
next
  case False
  then have "Join (d # xs) = Join [d, StrJoin xs ''/'']"
    using assms(1) by (simp add: Join_def StrJoin_Cons)
  then show ?thesis using under_Join [OF assms(1)] no_dotdot_StrJoin [OF assms(2)] by (simp add: no_dotdot_def)
qed

lemma IsAbs_append: "d \<noteq> [] \<Longrightarrow> IsAbs (d @ t) = IsAbs d"
  by (cases d) (auto simp: IsAbs_def)

lemma Clean_Clean_slash: "a \<noteq> [] \<Longrightarrow> Clean (Clean a @ CHR ''/'' # n) = Clean (a @ CHR ''/'' # n)"
  by (simp add: Clean_eq_iff path_elems_slash IsAbs_append)

lemma Join_assoc:
  assumes "d \<noteq> []" and "ys \<noteq> []"
  shows "Join (d # xs @ ys) = Join (Join (d # xs) # ys)"
proof -
  have "StrJoin (d # xs @ ys) ''/'' = StrJoin (d # xs) ''/'' @ CHR ''/'' # StrJoin ys ''/''"
    using assms(2) by (induction xs arbitrary: d) (simp_all add: StrJoin_Cons)
  moreover have "StrJoin (d # xs) ''/'' \<noteq> []" using assms(1) by (simp add: StrJoin_Cons)
  ultimately show ?thesis
    using assms by (simp add: Join_def StrJoin_Cons [of "Clean _"] Clean_Clean_slash)
qed

lemma StrSplit_suffix:
  "c \<notin> set t \<Longrightarrow> StrSplit (s @ t) c = butlast (StrSplit s c) @ [last (StrSplit s c) @ t]"
proof (induction s)
  case Nil
  then show ?case by (simp add: StrSplit_single)
next
  case (Cons x s)
  then show ?case by (cases "StrSplit s c") auto
qed

lemma no_dotdot_git: "no_dotdot n \<Longrightarrow> no_dotdot (n @ ''.git'')"
proof -
  assume n: "no_dotdot n"
  have "w @ ''.git'' \<noteq> ''..''" for w by (auto dest: arg_cong [of _ _ length])
  then show ?thesis
    using n by (auto simp: no_dotdot_def StrSplit_suffix dest: in_set_butlastD)
qed

lemma no_dotdot_consts [simp]:
  "no_dotdot DotRepo" "no_dotdot ProjectsDir" "no_dotdot ProjectObjects" "no_dotdot ''.git''"
  by code_simp+

lemma fillDefaults_dirs:
  "fillDefaults mirror m v = Inr w \<Longrightarrow> WorkDir w = WorkDir v \<and> GitDir w = GitDir v \<and> ObjectsGitDir w = ObjectsGitDir v \<and>
     DotGit w = DotGit v \<and> isMetaProject (mproject w) = isMetaProject (mproject v)"
  by (auto simp: fillDefaults_def defaultAttrs_def deref_def result_simps split: option.splits if_splits)

lemma finishProject_dirs:
  "finishProject env s v = Inr (s', w) \<Longrightarrow> WorkDir w = WorkDir v \<and> GitDir w = GitDir v \<and>
     ObjectsGitDir w = ObjectsGitDir v \<and> DotGit w = DotGit v"
  by (auto simp: finishProject_def split: prod.splits sum.splits)

lemma NewProject_dirs:
  assumes "NewProject env mp s m = Inr (s', p)" and "\<not> isMetaProject mp"
  shows "WorkDir p = Join [TopDir s, Path mp]" "GitDir p = Join [TopDir s, DotRepo, ProjectsDir, Path mp @ ''.git'']"
    "ObjectsGitDir p = Join [TopDir s, DotRepo, ProjectObjects, Name mp @ ''.git'']"
    "DotGit p = Join [WorkDir p, ''.git'']"
  using assms
  by (auto simp: NewProject_def Let_def result_simps split: if_splits prod.splits dest!: fillDefaults_dirs finishProject_dirs)

text \<open>
  Property C39. The directories of a project lie inside the workspace. The working tree is under
  the top directory, the repository under its \<^verbatim>\<open>.repo/projects\<close> and the object store under its
  \<^verbatim>\<open>.repo/project-objects\<close>, provided the path and the name of the project have no \<^verbatim>\<open>..\<close>
  element; the second half shows that the proviso is needed, for nothing rejects such a path.
\<close>

theorem NewProject_layout:
  assumes "NewProject env mp s m = Inr (s', p)" and "\<not> isMetaProject mp" and "TopDir s \<noteq> []"
  shows "(no_dotdot (Path mp) \<longrightarrow> no_dotdot (Name mp) \<longrightarrow>
      under (TopDir s) (WorkDir p) \<and> under (Join [TopDir s, DotRepo, ProjectsDir]) (GitDir p) \<and>
      under (Join [TopDir s, DotRepo, ProjectObjects]) (ObjectsGitDir p)) \<and>
    (TopDir s = ''/top'' \<longrightarrow> Path mp = ''../etc'' \<longrightarrow> WorkDir p = ''/etc'')"
proof (intro conjI impI)
  note dirs = NewProject_dirs [OF assms(1,2)]
  assume nd: "no_dotdot (Path mp)" "no_dotdot (Name mp)"
  show "under (TopDir s) (WorkDir p)" using dirs(1) under_Join_list [of "TopDir s" "[Path mp]"] assms(3) nd by simp
  have sub: "under (Join [TopDir s, DotRepo, d]) (Join [TopDir s, DotRepo, d, n @ ''.git''])" if "no_dotdot n" "d \<noteq> []" for d n
  proof -
    have "Join [TopDir s, DotRepo, d, n @ ''.git''] = Join [Join [TopDir s, DotRepo, d], n @ ''.git'']"
      using Join_assoc [of "TopDir s" "[n @ ''.git'']" "[DotRepo, d]"] assms(3) by simp
    then show ?thesis using under_Join_list [of "Join [TopDir s, DotRepo, d]" "[n @ ''.git'']"] no_dotdot_git [OF that(1)]
      by (simp add: Join_def assms(3))
  qed
  show "under (Join [TopDir s, DotRepo, ProjectsDir]) (GitDir p)" using dirs(2) sub nd by (simp add: ProjectsDir_def)
  show "under (Join [TopDir s, DotRepo, ProjectObjects]) (ObjectsGitDir p)" using dirs(3) sub nd by (simp add: ProjectObjects_def)
next
  assume "TopDir s = ''/top''" "Path mp = ''../etc''"
  moreover have "Join [''/top'', ''../etc''] = ''/etc''" by code_simp
  ultimately show "WorkDir p = ''/etc''" using NewProject_dirs(1) [OF assms(1,2)] by simp
qed

definition sample_penv :: penv where
  "sample_penv = \<lparr>pe_host = sample_host, pe_ConfigHas = (\<lambda>_ _. False), pe_ConfigGet = (\<lambda>_ _. []),
     pe_RequestURI = (\<lambda>_. None)\<rparr>"

definition sample_attrs :: ProjectAttrs where
  "sample_attrs = empty_attrs\<lparr>Name := ''a/n'', Path := ''p'', Revision := ''m'', RemoteName := ''o'', ManifestRemote := Some sample_remote\<rparr>"

definition sample_settings :: RepoSettings where
  "sample_settings = RepoSettings0\<lparr>TopDir := ''/top'', ManifestURL := ''http://h/m''\<rparr>"

theorem NewProject_layout_witness:
  "\<exists>s' p. NewProject sample_penv sample_attrs sample_settings None = Inr (s', p) \<and> under ''/top'' (WorkDir p)"
proof -
  have "case NewProject sample_penv sample_attrs sample_settings None of Inr _ \<Rightarrow> True | _ \<Rightarrow> False" by code_simp
  then obtain s' p where 1: "NewProject sample_penv sample_attrs sample_settings None = Inr (s', p)"
    by (auto split: sum.splits)
  have "\<not> isMetaProject sample_attrs" "TopDir sample_settings \<noteq> []" "no_dotdot (Path sample_attrs)"
    "no_dotdot (Name sample_attrs)" "TopDir sample_settings = ''/top''" by code_simp+
  then show ?thesis using NewProject_layout [OF 1] 1 by auto
qed

section \<open>Manifests without a default element\<close>

text \<open>
  A manifest need not have a default element, and the flattening of its projects
  copes with that; constructing a project from such a manifest panics on the nil pointer as soon
  as the project lacks a destination branch or an upstream, with and without mirror mode.
\<close>

theorem NewProject_needs_default:
  assumes "mDefault m = None" and "DestBranch mp = [] \<or> Upstream mp = []" and "ManifestURL s \<noteq> []"
  shows "NewProject env mp s (Some m) = Inl (Panic ''nil pointer dereference'') \<and>
    NewMirrorProject env mp s (Some m) = Inl (Panic ''nil pointer dereference'')"
proof -
  have "defaultAttrs None mp = Inl (Panic ''nil pointer dereference'')"
    using assms(2) by (auto simp: defaultAttrs_def deref_def)
  then have "fillDefaults mirror (Some m) v = Inl (Panic ''nil pointer dereference'')" if "mproject v = mp" for mirror v
    using assms(1) that by (simp add: fillDefaults_def)
  then show ?thesis using assms(3) by (simp add: NewProject_def NewMirrorProject_def Let_def split: prod.splits)
qed

theorem NewProject_needs_default_witness:
  "\<exists>ps. Manifest_AllProjects (sample_manifest\<lparr>mDefault := None, Projects := [Project sample_attrs []], Remotes := [sample_remote\<lparr>rm_Name := ''o''\<rparr>]\<rparr>) = Inr ps \<and> ps \<noteq> [] \<and>
     (\<forall>env. NewProject env (attrs (hd ps)) sample_settings (Some (sample_manifest\<lparr>mDefault := None\<rparr>)) = Inl (Panic ''nil pointer dereference''))"
proof -
  let ?m = "sample_manifest\<lparr>mDefault := None, Projects := [Project sample_attrs []], Remotes := [sample_remote\<lparr>rm_Name := ''o''\<rparr>]\<rparr>"
  have "case Manifest_AllProjects ?m of Inr ps \<Rightarrow> ps \<noteq> [] \<and> DestBranch (attrs (hd ps)) = [] | _ \<Rightarrow> False" by code_simp
  then obtain ps where "Manifest_AllProjects ?m = Inr ps" "ps \<noteq> []" "DestBranch (attrs (hd ps)) = []"
    by (auto split: sum.splits)
  moreover have "ManifestURL sample_settings \<noteq> []" by code_simp
  ultimately show ?thesis
    using NewProject_needs_default [of "sample_manifest\<lparr>mDefault := None\<rparr>" "attrs (hd ps)" sample_settings] by auto
qed

section \<open>The tree of projects\<close>

primrec tree_paths :: "'p Tree \<Rightarrow> string list" where
  "tree_paths (Tree p v ts) = p # concat (map tree_paths ts)"

text \<open>Every tree below another has a path below it, and every node carries its project.\<close>

fun tree_ok :: "(string \<rightharpoonup> 'p) \<Rightarrow> 'p Tree \<Rightarrow> bool" where
  "tree_ok pMap (Tree p v ts) \<longleftrightarrow>
     v = pMap p \<and> list_all (\<lambda>t. HasPrefix (tree_Path t) (p @ ''/'')) ts \<and> list_all (tree_ok pMap) ts"

lemma attachLast_paths:
  "ts \<noteq> [] \<Longrightarrow> concat (map tree_paths (attachLast ts new)) = concat (map tree_paths ts) @ concat (map tree_paths new)"
proof -
  assume "ts \<noteq> []"
  then obtain us t where "ts = us @ [t]" by (cases ts rule: rev_cases) auto
  then show ?thesis by (cases t) (simp add: attachLast_def)
qed

lemma attachLast_not_Nil [simp]: "attachLast ts new = [] \<longleftrightarrow> ts = []"
  by (simp add: attachLast_def)

lemma attachLast_path: "ts \<noteq> [] \<Longrightarrow> tree_Path (last (attachLast ts new)) = tree_Path (last ts)"
  by (simp add: attachLast_def)

lemma treeAppend_paths:
  "(\<And>p. p \<in> set ps \<Longrightarrow> trimSlashes p = p) \<Longrightarrow> (prev \<noteq> None \<Longrightarrow> trees \<noteq> []) \<Longrightarrow>
     concat (map tree_paths (treeAppend pMap prev trees ps)) = concat (map tree_paths trees) @ ps"
proof (induction pMap prev trees ps rule: treeAppend.induct)
  case (1 pMap prev trees)
  then show ?case by simp
next
  case (2 pMap prev trees q ps)
  have q: "trimSlashes q = q" using 2(5) by simp
  show ?case
  proof (cases "\<exists>r. prev = Some r \<and> HasPrefix q (r @ ''/'')")
    case False
    have "concat (map tree_paths (treeAppend pMap (Some q) (trees @ [Tree q (pMap q) []]) ps)) =
        concat (map tree_paths (trees @ [Tree q (pMap q) []])) @ ps"
    proof (cases prev)
      case None
      then show ?thesis using 2(5) by (intro 2(1) [OF q [symmetric]]) auto
    next
      case (Some r)
      with False show ?thesis using 2(5) by (intro 2(4) [OF q [symmetric] Some]) auto
    qed
    with False q show ?thesis by (cases prev) (auto simp: Let_def)
  next
    case True
    then obtain r where r: "prev = Some r" "HasPrefix q (r @ ''/'')" by blast
    let ?ins = "takeWhile (\<lambda>x. HasPrefix x (r @ ''/'')) ps" and ?outs = "dropWhile (\<lambda>x. HasPrefix x (r @ ''/'')) ps"
    have in_ps: "x \<in> set ps" if "x \<in> set ?ins \<or> x \<in> set ?outs" for x
      using that by (auto dest: set_takeWhileD set_dropWhileD)
    have inner: "concat (map tree_paths (treeAppend pMap None [] (q # ?ins))) = q # ?ins"
      using 2(2) [OF q [symmetric] r refl refl] 2(5) in_ps by auto
    have "concat (map tree_paths (treeAppend pMap (Some (trimSlashes (last (q # ?ins))))
        (attachLast trees (treeAppend pMap None [] (q # ?ins))) ?outs)) =
      concat (map tree_paths (attachLast trees (treeAppend pMap None [] (q # ?ins)))) @ ?outs"
      using 2(3) [OF q [symmetric] r refl refl] 2(5,6) in_ps r by auto
    then show ?thesis using r q inner 2(6) by (simp add: Let_def attachLast_paths)
  qed
qed

lemma tree_Path_in: "tree_Path t \<in> set (tree_paths t)"
  by (cases t) simp

lemma HasPrefix_slash_trans: "HasPrefix r (p @ ''/'') \<Longrightarrow> HasPrefix x (r @ ''/'') \<Longrightarrow> HasPrefix x (p @ ''/'')"
  by (auto simp: HasPrefix_iff)

lemma tree_ok_attachLast:
  assumes "list_all (tree_ok pMap) trees" "list_all (tree_ok pMap) new" "trees \<noteq> []"
    and "list_all (\<lambda>t. HasPrefix (tree_Path t) (tree_Path (last trees) @ ''/'')) new"
  shows "list_all (tree_ok pMap) (attachLast trees new)"
proof -
  obtain us t where ts: "trees = us @ [t]" using assms(3) by (cases trees rule: rev_cases) auto
  with assms show ?thesis by (cases t) (simp add: attachLast_def)
qed

lemma treeAppend_ok:
  "(\<And>p. p \<in> set ps \<Longrightarrow> trimSlashes p = p) \<Longrightarrow> list_all (tree_ok pMap) trees \<Longrightarrow>
     (\<And>r. prev = Some r \<Longrightarrow> trees \<noteq> [] \<and> (r = tree_Path (last trees) \<or> HasPrefix r (tree_Path (last trees) @ ''/''))) \<Longrightarrow>
     list_all (tree_ok pMap) (treeAppend pMap prev trees ps)"
proof (induction pMap prev trees ps rule: treeAppend.induct)
  case (1 pMap prev trees)
  then show ?case by simp
next
  case (2 pMap prev trees q ps)
  have q: "trimSlashes q = q" using 2(5) by simp
  show ?case
  proof (cases "\<exists>r. prev = Some r \<and> HasPrefix q (r @ ''/'')")
    case False
    have "list_all (tree_ok pMap) (treeAppend pMap (Some q) (trees @ [Tree q (pMap q) []]) ps)"
    proof (cases prev)
      case None
      then show ?thesis using 2(5,6) by (intro 2(1) [OF q [symmetric]]) auto
    next
      case (Some r)
      with False show ?thesis using 2(5,6) by (intro 2(4) [OF q [symmetric] Some]) auto
    qed
    with False q show ?thesis by (cases prev) (auto simp: Let_def)
  next
    case True
    then obtain r where r: "prev = Some r" "HasPrefix q (r @ ''/'')" by blast
    let ?ins = "takeWhile (\<lambda>x. HasPrefix x (r @ ''/'')) ps" and ?outs = "dropWhile (\<lambda>x. HasPrefix x (r @ ''/'')) ps"
    let ?new = "treeAppend pMap None [] (q # ?ins)"
    let ?prev = "trimSlashes (last (q # ?ins))"
    have in_ps: "x \<in> set ps" if "x \<in> set ?ins \<or> x \<in> set ?outs" for x
      using that by (auto dest: set_takeWhileD set_dropWhileD)
    have tr: "trees \<noteq> []" "r = tree_Path (last trees) \<or> HasPrefix r (tree_Path (last trees) @ ''/'')"
      using 2(7) [OF r(1)] by auto
    have below: "HasPrefix x (tree_Path (last trees) @ ''/'')" if "x \<in> set (q # ?ins)" for x
      using that r(2) tr(2) HasPrefix_slash_trans by (auto dest: set_takeWhileD)
    have paths: "concat (map tree_paths ?new) = q # ?ins"
      using treeAppend_paths [of "q # ?ins" None "[]" pMap] 2(5) in_ps by auto
    have "tree_Path t \<in> set (q # ?ins)" if "t \<in> set ?new" for t
    proof -
      have "tree_Path t \<in> set (concat (map tree_paths ?new))" using that tree_Path_in [of t] by auto
      then show ?thesis by (simp only: paths)
    qed
    then have "list_all (\<lambda>t. HasPrefix (tree_Path t) (tree_Path (last trees) @ ''/'')) ?new"
      using below by (auto simp: list_all_iff)
    moreover have "list_all (tree_ok pMap) ?new"
      using 2(2) [OF q [symmetric] r refl refl] 2(5) in_ps by auto
    ultimately have ok: "list_all (tree_ok pMap) (attachLast trees ?new)"
      using 2(6) tr(1) by (intro tree_ok_attachLast)
    have l: "last (q # ?ins) \<in> set (q # ?ins)" by (rule last_in_set) simp
    then have "?prev = last (q # ?ins)" using 2(5) [of "last (q # ?ins)"] in_ps by auto
    then have "HasPrefix ?prev (tree_Path (last trees) @ ''/'')" using below [OF l] by (simp only:)
    then have "list_all (tree_ok pMap) (treeAppend pMap (Some ?prev) (attachLast trees ?new) ?outs)"
      using 2(3) [OF q [symmetric] r refl refl] 2(5) in_ps ok tr(1) by (auto simp: attachLast_path)
    then show ?thesis using r q by (simp add: Let_def)
  qed
qed

lemma IndexByPath_simps:
  "IndexByPath [] = Map.empty" "IndexByPath (ps @ [p]) = (IndexByPath ps)(pPath p \<mapsto> p)"
  by (simp_all add: IndexByPath_def)

lemma IndexByPath_iff:
  assumes "distinct (map pPath ps)"
  shows "IndexByPath ps q = Some p \<longleftrightarrow> p \<in> set ps \<and> pPath p = q"
  using assms
proof (induction ps rule: rev_induct)
  case Nil
  then show ?case by (simp add: IndexByPath_simps)
next
  case (snoc x ps)
  have "pPath p \<noteq> pPath x" if "p \<in> set ps"
  proof
    assume "pPath p = pPath x"
    with that have "pPath x \<in> set (map pPath ps)" by (metis imageI list.set_map)
    with snoc.prems show False by simp
  qed
  with snoc show ?case by (cases "pPath x = q") (auto simp: IndexByPath_simps)
qed

text \<open>
  Property C40. The tree of projects lists every path exactly once, in sorted order (the order in
  which projects may be created, parents first), for paths without trailing slashes. Every node
  carries its project, and every subtree lies below the directory of its parent.
\<close>

theorem ProjectsTree_complete:
  assumes "\<forall>p \<in> set ps. trimSlashes (pPath p) = pPath p"
  shows "concat (map tree_paths (tree_Trees (ProjectsTree ps))) = sort (map pPath ps) \<and>
     list_all (tree_ok (IndexByPath ps)) (tree_Trees (ProjectsTree ps))"
proof -
  have "trimSlashes q = q" if "q \<in> set (sort (map pPath ps))" for q using that assms by auto
  then show ?thesis
    using treeAppend_paths [of "sort (map pPath ps)" None "[]" "IndexByPath ps"]
      treeAppend_ok [of "sort (map pPath ps)" "IndexByPath ps" "[]" None]
    by (simp add: ProjectsTree_def)
qed

definition sample_project :: "string \<Rightarrow> WorkProject" where
  "sample_project p = \<lparr>mproject = sample_attrs\<lparr>Name := p, Path := p\<rparr>, DotGit = p @ ''/.git'', GitDir = p @ ''.git'',
     ObjectsGitDir = p @ ''.git'', ManifestDefaultRevision = [], IsBare = False, RemoteURL = ''u'', Reference = [], WorkDir = p\<rparr>"

theorem ProjectsTree_complete_witness:
  "concat (map tree_paths (tree_Trees (ProjectsTree (map sample_project [''b'', ''a/c'', ''a'']))))
     = sort (map pPath (map sample_project [''b'', ''a/c'', ''a'']))"
proof -
  have "\<forall>p \<in> set (map sample_project [''b'', ''a/c'', ''a'']). trimSlashes (pPath p) = pPath p"
    by (simp add: sample_project_def trimSlashes_def TrimRightIf_def)
  from ProjectsTree_complete [OF this] show ?thesis by blast
qed

text \<open>
  Subtrees are not complete: a nested project is found only if it directly follows
  its ancestor in the sorted list. A sibling whose name extends the ancestor's by a character below
  the slash comes in between, and the nested project is then a tree of its own beside its ancestor.
\<close>

theorem ProjectsTree_misplaces_nested:
  "map tree_Path (tree_Trees (ProjectsTree (map sample_project [''a'', ''a-b'', ''a/c'']))) = [''a'', ''a-b'', ''a/c''] \<and>
   map tree_Path (tree_Trees (ProjectsTree (map sample_project [''a'', ''a/c'']))) = [''a'']"
proof -
  have "sort (map pPath (map sample_project [''a'', ''a-b'', ''a/c''])) = [''a'', ''a-b'', ''a/c'']"
    "sort (map pPath (map sample_project [''a'', ''a/c''])) = [''a'', ''a/c'']"
    by (simp_all add: sample_project_def less_eq_char_def less_char_def)
  then show ?thesis
    by (simp add: ProjectsTree_def HasPrefix_def attachLast_def trimSlashes_def TrimRightIf_def Let_def)
qed

end
