(* ===== verification/Local_Half_Proofs.thy ===== *)
theory Local_Half_Proofs
  imports Local_Half Project_Proofs
begin

text \<open>
  What a synchronisation may do to a work tree: at most one command moves it, local work is
  protected, and the copied and linked files stay where their names say.
\<close>

section \<open>The actions of the steps\<close>

definition quiet :: "action \<Rightarrow> bool" where "quiet a \<longleftrightarrow> \<not> is_Run a"

lemma quiet_simps [simp]:
  "quiet (SaveConfig f c)" "quiet (RemoveRef d n)" "quiet (SetRef d n i)" "quiet (MkdirAll p)" "quiet (Remove p)"
  "quiet (WriteFile p t)" "quiet (CopyTo p q)" "quiet (Symlink p q)" "quiet (HardLink p q)" "\<not> quiet (Run d args)"
  by (simp_all add: quiet_def)

lemma emits_let [emits_intros]: "emits P (f x) \<Longrightarrow> emits P (let y = x in f y)"
  by simp

lemma emits_prod [emits_intros]: "(\<And>x y. emits P (f x y)) \<Longrightarrow> emits P (case p of (x, y) \<Rightarrow> f x y)"
  by (cases p) simp

lemma emits_sum [emits_intros]:
  "(\<And>x. emits P (f x)) \<Longrightarrow> (\<And>y. emits P (g y)) \<Longrightarrow> emits P (case s of Inl x \<Rightarrow> f x | Inr y \<Rightarrow> g y)"
  by (cases s) simp_all

lemma emits_option [emits_intros]:
  "emits P k \<Longrightarrow> (\<And>y. emits P (g y)) \<Longrightarrow> emits P (case s of None \<Rightarrow> k | Some y \<Rightarrow> g y)"
  by (cases s) simp_all

lemma emits_execute [emits_intros]: "P (Run d args) \<Longrightarrow> emits P (executeCommandIn d args)"
  by (cases args) (auto simp: executeCommandIn_def intro!: emits_intros)

lemma quiet_PrepareWorkdir: "emits quiet (PrepareWorkdir v)"
  unfolding PrepareWorkdir_def Let_def by (intro emits_intros) simp_all

lemma quiet_Clean: "emits quiet (Project_CleanPublishedCache v)"
  unfolding Project_CleanPublishedCache_def by (intro emits_intros) simp_all

lemma quiet_UpdateBranchTracking: "emits quiet (UpdateBranchTracking v b r t)"
  unfolding UpdateBranchTracking_def Repo_SaveConfig_def by (intro emits_intros) simp_all

lemma quiet_Hooks: "emits quiet (InstallGerritHooks v)"
  unfolding InstallGerritHooks_def installHook_def Let_def by (intro emits_intros) simp_all

lemma quiet_files: "emits quiet (CopyAndLinkFiles s v)"
  unfolding CopyAndLinkFiles_def Project_CopyFile_def Project_LinkFile_def insideRoot_def makeParent_def Let_def
  by (intro emits_intros) simp_all

definition submoduleCmd :: "WorkProject \<Rightarrow> action" where
  "submoduleCmd v = Run (WorkDir v) [''git'', ''submodule'', ''update'', ''--init'', ''--recursive'', ''--'']"

lemma emits_PostUpdate: "emits (\<lambda>a. quiet a \<or> (update \<and> a = submoduleCmd v)) (PostUpdate s m v co b t update)"
proof -
  have q: "emits quiet k \<Longrightarrow> emits (\<lambda>a. quiet a \<or> (update \<and> a = submoduleCmd v)) k" for k :: "'a op"
    by (erule emits_mono) simp
  show ?thesis
    unfolding PostUpdate_def SubmoduleUpdate_def
    by (intro emits_intros emits_mono [OF quiet_UpdateBranchTracking] emits_mono [OF quiet_Hooks] emits_mono [OF quiet_files])
      (auto simp: submoduleCmd_def)
qed

text \<open>The command of a step.\<close>

definition stepCmd :: "WorkProject \<Rightarrow> string \<Rightarrow> step \<Rightarrow> action list" where
  "stepCmd v revid x = (case x of
     Stay \<Rightarrow> [] | Checkout \<Rightarrow> [Run (WorkDir v) [''git'', ''checkout'', revid, ''--'']]
   | ResetTo \<Rightarrow> [Run (WorkDir v) [''git'', ''reset'', ''--hard'', revid, ''--'']]
   | RebaseTo \<Rightarrow> [Run (WorkDir v) [''git'', ''rebase'', revid, ''--'']]
   | _ \<Rightarrow> [Run (WorkDir v) [''git'', ''-c'', ''advice.diverging=false'', ''merge'', revid, ''--'']])"

lemma applyStep_acts: "fst (applyStep v revid x w tr) = tr @ stepCmd v revid x"
  by (cases x) (simp_all add: applyStep_def stepCmd_def CheckoutRevision_def HardReset_def Project_Rebase_def
      FastForward_def executeCommandIn_def op_simps)

section \<open>The shape of a synchronisation\<close>

definition decide :: "RepoSettings \<Rightarrow> RemoteMap \<Rightarrow> WorkProject \<Rightarrow> CheckoutOptions \<Rightarrow> unit op" where
  "decide s m v co =
     bnd (lookR (\<lambda>mc. readState mc v)) (\<lambda>st.
     bnd (lookR (\<lambda>mc. chooseStep mc v co st)) (\<lambda>x.
       andThen (applyStep v (ss_revid st) x)
         (PostUpdate s m v co (ss_branch st) (ss_track st) (counts x))))"

definition moved :: "machine \<Rightarrow> WorkProject \<Rightarrow> CheckoutOptions \<Rightarrow> action list \<Rightarrow> action list \<Rightarrow> bool" where
  "moved mc v co mv post \<longleftrightarrow> (\<exists>st x. readState mc v = Inr st \<and> chooseStep mc v co st = Inr x \<and>
     mv = stepCmd v (ss_revid st) x \<and> list_all (\<lambda>a. quiet a \<or> (counts x \<and> a = submoduleCmd v)) post)"

lemma decide_shape:
  assumes "decide s m v co w tr = (tr2, r)"
  shows "tr2 = tr \<and> (\<exists>e. r = Inl e) \<or> (\<exists>mv post. tr2 = tr @ mv @ post \<and> moved (w tr) v co mv post)"
proof (cases "\<exists>st x. readState (w tr) v = Inr st \<and> chooseStep (w tr) v co st = Inr x")
  case False
  then show ?thesis using assms
    by (cases "readState (w tr) v"; auto simp: decide_def op_simps split: sum.splits)
next
  case True
  then obtain st x where x: "readState (w tr) v = Inr st" "chooseStep (w tr) v co st = Inr x" by blast
  let ?mv = "stepCmd v (ss_revid st) x"
  have "bnd (applyStep v (ss_revid st) x) (\<lambda>_. PostUpdate s m v co (ss_branch st) (ss_track st) (counts x)) w tr = (tr2, r)"
    using assms x by (simp add: decide_def op_simps andThen_def)
  then have "\<exists>post. tr2 = tr @ ?mv @ post \<and> list_all (\<lambda>a. quiet a \<or> (counts x \<and> a = submoduleCmd v)) post"
  proof (cases rule: bndE)
    case (Failed e)
    then show ?thesis using applyStep_acts [of v "ss_revid st" x w tr] by simp
  next
    case (Went tr4 u)
    then have tr4: "tr4 = tr @ ?mv" using applyStep_acts [of v "ss_revid st" x w tr] by simp
    obtain post where "tr2 = tr4 @ post" "list_all (\<lambda>a. quiet a \<or> (counts x \<and> a = submoduleCmd v)) post"
      using emitsE [OF emits_PostUpdate Went(2)] by blast
    then show ?thesis using tr4 by simp
  qed
  then show ?thesis using x unfolding moved_def by blast
qed

text \<open>
  A run consists of quiet actions, the command of the chosen step if the decision succeeds, and
  the actions after the update. The decision is made on the machine found after the first part.
\<close>

definition prepared :: "WorkProject \<Rightarrow> unit op" where
  "prepared v = andThen (PrepareWorkdir v) (doIf (Revision (mproject v) \<noteq> []) (Project_CleanPublishedCache v))"

lemma quiet_prepared: "emits quiet (prepared v)"
  unfolding prepared_def by (intro emits_intros quiet_PrepareWorkdir quiet_Clean)

lemma SyncLocalHalf_parts:
  "SyncLocalHalf s m v co = andThen (prepared v) (if Revision (mproject v) = [] then ret () else decide s m v co)"
  by (simp add: SyncLocalHalf_def prepared_def decide_def andThen_def bnd_assoc doIf_def bnd_ret)

lemma SyncLocalHalf_shape:
  obtains (Nothing) "list_all quiet (acts (SyncLocalHalf s m v co) w tr)"
      "Revision (mproject v) = [] \<or> (\<exists>e. outcome (SyncLocalHalf s m v co) w tr = Inl e)"
  | (Moved) pre mv post where "acts (SyncLocalHalf s m v co) w tr = pre @ mv @ post" "list_all quiet pre"
      "moved (w (tr @ pre)) v co mv post"
proof -
  obtain tr2 r where run: "SyncLocalHalf s m v co w tr = (tr2, r)" by fastforce
  then have "bnd (prepared v) (\<lambda>_. if Revision (mproject v) = [] then ret () else decide s m v co) w tr = (tr2, r)"
    by (simp add: SyncLocalHalf_parts andThen_def)
  then show thesis
  proof (cases rule: bndE)
    case (Failed e)
    obtain xs where "tr2 = tr @ xs" "list_all quiet xs" using emitsE [OF quiet_prepared Failed(1)] .
    then show thesis using Nothing run Failed by (simp add: acts_def outcome_def)
  next
    case (Went tr1 u)
    obtain xs where xs: "tr1 = tr @ xs" "list_all quiet xs" using emitsE [OF quiet_prepared Went(1)] .
    show thesis
    proof (cases "Revision (mproject v) = []")
      case True
      then show thesis using Nothing run Went(2) xs by (auto simp: acts_def op_simps)
    next
      case False
      with Went(2) have "decide s m v co w tr1 = (tr2, r)" by simp
      from decide_shape [OF this] show thesis
        using Nothing Moved [of xs] run xs by (auto simp: acts_def outcome_def)
    qed
  qed
qed

section \<open>Local work is protected\<close>

text \<open>The commits of the current branch that the branch it tracks does not have, if they can be listed.\<close>

definition ownCommits :: "machine \<Rightarrow> WorkProject \<Rightarrow> sync_state \<Rightarrow> string list result" where
  "ownCommits mc v st =
     bind_result (ResolveRemoteTracking mc v (ss_track st)) (\<lambda>i. Revlist mc v [ss_headid st, ''--not'', i])"

lemma ownCommits_none:
  assumes "revlistOrNone mc v [ss_headid st, ''--not'', case ResolveRemoteTracking mc v (ss_track st) of Inl _ \<Rightarrow> [] | Inr i \<Rightarrow> i] = []"
  shows "ownCommits mc v st = Inr [] \<or> (\<exists>e. ownCommits mc v st = Inl e)"
proof (cases "ResolveRemoteTracking mc v (ss_track st)")
  case (Inr i)
  then show ?thesis using assms
    by (cases "Revlist mc v [ss_headid st, ''--not'', i]") (simp_all add: ownCommits_def revlistOrNone_def)
qed (simp add: ownCommits_def)

text \<open>The reasons for which a step may be chosen.\<close>

lemma chooseStep_reasons:
  assumes "chooseStep mc v co st = Inr x"
  shows "x = ResetTo \<Longrightarrow> IsManifest co \<and> Project_IsClean mc v \<and>
      (ownCommits mc v st = Inr [] \<or> (\<exists>e. ownCommits mc v st = Inl e))"
    and "x \<in> {RebaseTo, MergeTo} \<Longrightarrow> Project_IsClean mc v"
    and "x \<in> {RebaseTo, MergeTo, FastForwardTo, ResetTo} \<Longrightarrow> ss_branch st \<noteq> [] \<and> ss_track st \<noteq> [] \<and> \<not> co_DetachHead co"
    and "x \<in> {RebaseTo, MergeTo, FastForwardTo} \<Longrightarrow> \<not> IsManifest co \<Longrightarrow> CheckPublished co \<Longrightarrow>
      published mc v (ss_branch st) \<noteq> [] \<Longrightarrow> Revlist mc v [published mc v (ss_branch st), ''--not'', ss_revid st] = Inr []"
    and "x = FastForwardTo \<Longrightarrow> published mc v (ss_branch st) = ss_headid st"
    and "x = Checkout \<Longrightarrow> ss_branch st = [] \<or> co_DetachHead co \<or> ss_track st = []"
  using assms ownCommits_none [of mc v st]
  by (auto simp: chooseStep_def publishCheck_def switchManifest_def Let_def result_simps split: if_splits option.splits sum.splits)

text \<open>The commits of the current branch that no fetched or published reference has are lost by a
  hard reset, and so are the changes of the work tree; a rebase or a merge on a dirty tree may stop
  halfway.\<close>

lemma stepCmd_kind:
  "Run d args \<in> set (stepCmd v i x) \<Longrightarrow> d = WorkDir v \<and>
     (args = [''git'', ''checkout'', i, ''--''] \<and> x = Checkout \<or>
      args = [''git'', ''reset'', ''--hard'', i, ''--''] \<and> x = ResetTo \<or>
      args = [''git'', ''rebase'', i, ''--''] \<and> x = RebaseTo \<or>
      args = [''git'', ''-c'', ''advice.diverging=false'', ''merge'', i, ''--''] \<and> x \<in> {MergeTo, FastForwardTo})"
  by (cases x) (auto simp: stepCmd_def)

lemma quiet_no_Run: "list_all quiet xs \<Longrightarrow> Run d args \<notin> set xs"
  by (auto simp: list_all_iff)

text \<open>
  Property C6. When a synchronisation runs which command in a work tree. It runs git only in the work
  tree of the project, and whatever it runs apart from the update of submodules was chosen on the
  state found just before: a checkout only when no branch is current, the current one tracks
  nothing or the HEAD is to be detached; a hard reset only for the manifest project, on a clean
  tree, when the list of the commits of the branch that the tracked branch lacks is empty or could
  not be computed; a rebase or a merge only on a clean tree or, for a merge, when the whole branch
  is published, and, outside the manifest project and if published commits are to be checked,
  only when no published commit is missing from the fetched one. The hard reset after a
  failed listing can lose commits: see the lemma \<open>SyncLocalHalf_unlisted\<close> below.
\<close>

theorem SyncLocalHalf_protects:
  assumes "Run d args \<in> set (acts (SyncLocalHalf s m v co) w tr)" and "Run d args \<noteq> submoduleCmd v"
  shows "d = WorkDir v \<and> (\<exists>pre st. prefix pre (acts (SyncLocalHalf s m v co) w tr) \<and> readState (w (tr @ pre)) v = Inr st \<and>
    (let mc = w (tr @ pre); pub = published mc v (ss_branch st) in
     (args ! 1 = ''checkout'' \<and> (ss_branch st = [] \<or> co_DetachHead co \<or> ss_track st = [])) \<or>
     (args ! 1 = ''reset'' \<and> IsManifest co \<and> Project_IsClean mc v \<and>
        (ownCommits mc v st = Inr [] \<or> (\<exists>e. ownCommits mc v st = Inl e))) \<or>
     ((args ! 1 = ''rebase'' \<or> args ! 3 = ''merge'') \<and> (Project_IsClean mc v \<or> args ! 3 = ''merge'' \<and> pub = ss_headid st) \<and>
        (\<not> IsManifest co \<and> CheckPublished co \<and> pub \<noteq> [] \<longrightarrow> Revlist mc v [pub, ''--not'', ss_revid st] = Inr []))))"
proof (cases rule: SyncLocalHalf_shape [of s m v co w tr])
  case Nothing
  then show ?thesis using assms(1) by (simp add: quiet_no_Run)
next
  case (Moved pre mv post)
  then obtain st x where x: "readState (w (tr @ pre)) v = Inr st" "chooseStep (w (tr @ pre)) v co st = Inr x"
    and mv: "mv = stepCmd v (ss_revid st) x" and post: "list_all (\<lambda>a. quiet a \<or> (counts x \<and> a = submoduleCmd v)) post"
    by (auto simp: moved_def)
  have "Run d args \<in> set mv"
    using assms Moved(1,2) post quiet_no_Run [of pre d args] by (auto simp: list_all_iff)
  then have "d = WorkDir v \<and> (args = [''git'', ''checkout'', ss_revid st, ''--''] \<and> x = Checkout \<or>
      args = [''git'', ''reset'', ''--hard'', ss_revid st, ''--''] \<and> x = ResetTo \<or>
      args = [''git'', ''rebase'', ss_revid st, ''--''] \<and> x = RebaseTo \<or>
      args = [''git'', ''-c'', ''advice.diverging=false'', ''merge'', ss_revid st, ''--''] \<and> x \<in> {MergeTo, FastForwardTo})"
    unfolding mv by (rule stepCmd_kind)
  with chooseStep_reasons [OF x(2)] x(1) Moved(1) show ?thesis
    unfolding Let_def by (intro conjI exI [of _ pre] exI [of _ st]) auto
qed

definition sample_repo_host :: host where
  "sample_repo_host = \<lparr>h_GOOS = ''linux'', h_Getenv = (\<lambda>_. []), h_Getwd = Inr ''/w'',
     h_Stat = (\<lambda>p. if p = ''/w'' then Inr Directory else if p = ''/w/.git'' \<or> p = ''/g/HEAD'' then Inr RegularFile else Inl (Error p)),
     h_ReadFile = (\<lambda>p. if p = ''/g/HEAD'' then Inr ''ref: refs/heads/b'' else Inl (Error p)),
     h_EvalSymlinks = Inr, h_Walk = (\<lambda>_. [])\<rparr>"

definition sample_machine :: machine where
  "sample_machine = \<lparr>mc_host = sample_repo_host,
     mc_Config = (\<lambda>_. Inr [''branch.b.merge'' \<mapsto> ''refs/heads/m'']), mc_Sections = (\<lambda>_. []), mc_Open = (\<lambda>d. d = ''/g''),
     mc_Resolve = (\<lambda>d r. if r = ''refs/heads/b'' then Inr ''1'' else if r = ''refs/remotes/o/m'' then Inr ''2'' else Inl (Error r)),
     mc_Refs = (\<lambda>_. [(''refs/heads/b'', ''1'')]), mc_Head = (\<lambda>_. None),
     mc_Output = (\<lambda>d args. if args = [''git'', ''rev-list'', ''2'', ''--not'', ''1''] then (''2'', None) else ([], None)),
     mc_Fails = (\<lambda>_. None), mc_Readlink = (\<lambda>_. None), mc_Size = (\<lambda>_. 0), mc_Home = Inr ''/h'', mc_Symlinks = True, mc_Answer = []\<rparr>"

definition sample_work :: WorkProject where
  "sample_work = \<lparr>mproject = empty_attrs\<lparr>Name := ''p'', Path := ''w'', ProjectAttrs.RemoteName := ''o'', Revision := ''m''\<rparr>,
     DotGit = ''/w/.git'', GitDir = ''/g'', ObjectsGitDir = ''/o'', ManifestDefaultRevision = [], IsBare = False,
     Repository.RemoteURL = ''u'', Reference = [], WorkDir = ''/w''\<rparr>"

definition sample_checkout :: CheckoutOptions where
  "sample_checkout = \<lparr>co_Submodules = False, co_DetachHead = False, IsManifest = False, CheckPublished = True\<rparr>"

theorem SyncLocalHalf_protects_witness:
  "let A = acts (SyncLocalHalf (RepoSettings0\<lparr>TopDir := ''/w''\<rparr>) NewRemoteMap sample_work sample_checkout) (\<lambda>_. sample_machine) [] in
   Run ''/w'' [''git'', ''rebase'', ''2'', ''--''] \<in> set A \<and> (\<exists>pre st. prefix pre A \<and> readState sample_machine sample_work = Inr st \<and>
     Project_IsClean sample_machine sample_work)"
proof -
  let ?A = "acts (SyncLocalHalf (RepoSettings0\<lparr>TopDir := ''/w''\<rparr>) NewRemoteMap sample_work sample_checkout) (\<lambda>_. sample_machine) []"
  have "?A = [MkdirAll ''/w'', Run ''/w'' [''git'', ''rebase'', ''2'', ''--'']]" by code_simp
  then have run: "Run ''/w'' [''git'', ''rebase'', ''2'', ''--''] \<in> set ?A" by simp
  have "Run ''/w'' [''git'', ''rebase'', ''2'', ''--''] \<noteq> submoduleCmd sample_work" by (simp add: submoduleCmd_def)
  from SyncLocalHalf_protects [OF run this] run show ?thesis unfolding Let_def by auto
qed

text \<open>
  The hard reset of a manifest project whose tracked branch cannot be resolved: the listing of the
  own commits fails, which counts as an empty list, and the branch at commit 1 is reset to 2.
\<close>

definition unlisted_machine :: machine where
  "unlisted_machine = sample_machine\<lparr>
     mc_Resolve := (\<lambda>d r. if r = ''refs/heads/b'' then Inr ''1'' else if r = ''refs/remotes/o/n'' then Inr ''2'' else Inl (Error r)),
     mc_Output := (\<lambda>d args. if args = [''git'', ''rev-list'', ''1'', ''--not'', []] then ([], Some ''bad revision'') else ([], None))\<rparr>"

lemma SyncLocalHalf_unlisted:
  "let p = sample_work\<lparr>mproject := (mproject sample_work)\<lparr>Revision := ''n''\<rparr>\<rparr>;
       co = sample_checkout\<lparr>IsManifest := True\<rparr> in
   acts (SyncLocalHalf (RepoSettings0\<lparr>TopDir := ''/w''\<rparr>) NewRemoteMap p co) (\<lambda>_. unlisted_machine) [] =
     [MkdirAll ''/w'', Run ''/w'' [''git'', ''reset'', ''--hard'', ''2'', ''--''],
      SaveConfig ''/g/config'' [(''branch.b.merge'', Some ''refs/heads/n''), (''branch.b.remote'', Some ''o'')]]"
  by code_simp

text \<open>
  Property C13. At most one command moves the work tree: of all commands a synchronisation runs in
  it, at most one is not the update of submodules. Nothing is run at all when the current branch
  is at the fetched commit and the HEAD is not to be detached.
\<close>

theorem SyncLocalHalf_moves_once:
  "length (filter (\<lambda>a. is_Run a \<and> a \<noteq> submoduleCmd v) (acts (SyncLocalHalf s m v co) w tr)) \<le> 1 \<and>
   ((\<forall>tr' st. readState (w tr') v = Inr st \<longrightarrow> ss_headid st = ss_revid st) \<and> \<not> co_DetachHead co \<longrightarrow>
     filter is_Run (acts (SyncLocalHalf s m v co) w tr) = [])"
proof (cases rule: SyncLocalHalf_shape [of s m v co w tr])
  case Nothing
  then show ?thesis by (auto simp: list_all_iff quiet_def filter_empty_conv)
next
  case (Moved pre mv post)
  then obtain st x where x: "readState (w (tr @ pre)) v = Inr st" "chooseStep (w (tr @ pre)) v co st = Inr x"
    and mv: "mv = stepCmd v (ss_revid st) x" and post: "list_all (\<lambda>a. quiet a \<or> (counts x \<and> a = submoduleCmd v)) post"
    by (auto simp: moved_def)
  let ?f = "filter (\<lambda>a. is_Run a \<and> a \<noteq> submoduleCmd v)"
  have "?f pre = []" "?f post = []" using Moved(2) post by (auto simp: list_all_iff quiet_def filter_empty_conv)
  moreover have "length (?f mv) \<le> 1" unfolding mv by (cases x) (auto simp: stepCmd_def)
  ultimately have one: "length (?f (pre @ mv @ post)) \<le> 1" by simp
  have "filter is_Run (pre @ mv @ post) = []" if "ss_headid st = ss_revid st" "\<not> co_DetachHead co"
  proof -
    have "x = Stay" using x(2) that by (auto simp: chooseStep_def split: if_splits)
    then show ?thesis using mv post Moved(2) by (auto simp: list_all_iff quiet_def filter_empty_conv stepCmd_def counts_def)
  qed
  then show ?thesis using one x(1) Moved(1) by auto
qed

theorem SyncLocalHalf_moves_once_witness:
  "let A = acts (SyncLocalHalf RepoSettings0 NewRemoteMap sample_work sample_checkout) (\<lambda>_. sample_machine\<lparr>mc_Resolve := (\<lambda>_ _. Inr ''1'')\<rparr>) []
   in length (filter (\<lambda>a. is_Run a \<and> a \<noteq> submoduleCmd sample_work) A) \<le> 1 \<and> filter is_Run A = []"
proof -
  let ?mc = "sample_machine\<lparr>mc_Resolve := (\<lambda>_ _. Inr ''1'')\<rparr>"
  have "case readState ?mc sample_work of Inr st \<Rightarrow> ss_headid st = ss_revid st | Inl _ \<Rightarrow> True" by code_simp
  then have "\<forall>tr' st. readState ((\<lambda>_. ?mc) (tr' :: action list)) sample_work = Inr st \<longrightarrow> ss_headid st = ss_revid st" by auto
  moreover have "\<not> co_DetachHead sample_checkout" by code_simp
  ultimately show ?thesis
    using SyncLocalHalf_moves_once [of sample_work RepoSettings0 NewRemoteMap sample_checkout "\<lambda>_. ?mc" "[]"]
    unfolding Let_def by blast
qed

section \<open>Copied and linked files\<close>

fun target :: "action \<Rightarrow> string option" where
  "target (CopyTo p q) = Some q"
| "target (Symlink p q) = Some q"
| "target (HardLink p q) = Some q"
| "target (Remove q) = Some q"
| "target _ = None"

definition targets_in :: "string set \<Rightarrow> action \<Rightarrow> bool" where
  "targets_in D a = (case target a of None \<Rightarrow> True | Some q \<Rightarrow> q \<in> D)"

lemma emits_files: "destAbs s dest \<in> D \<Longrightarrow> emits (targets_in D) (Project_CopyFile s v src dest)"
    "destAbs s dest \<in> D \<Longrightarrow> emits (targets_in D) (Project_LinkFile s v src dest)"
  unfolding Project_CopyFile_def Project_LinkFile_def insideRoot_def makeParent_def Let_def
  by (intro emits_intros; simp add: targets_in_def)+

lemma destAbs_under: "TopDir s \<noteq> [] \<Longrightarrow> no_dotdot dest \<Longrightarrow> under (TopDir s) (destAbs s dest)"
  using under_Join_list [of "TopDir s" "[dest]"] by (simp add: destAbs_def Join_def)

text \<open>
  Property C24. Copied and linked files stay in the workspace: if no destination in the manifest
  has a \<^verbatim>\<open>..\<close> element, every file that is written, linked or removed lies under the top
  directory. (With such an element the check of the code, a comparison of strings, lets a
  neighbour of the top directory through, see below.)
\<close>

theorem CopyAndLinkFiles_inside:
  assumes "TopDir s \<noteq> []" and "\<forall>f \<in> set (CopyFiles (mproject v)). no_dotdot (cf_Dest f)"
    and "\<forall>f \<in> set (LinkFiles (mproject v)). no_dotdot (lf_Dest f)"
    and "a \<in> set (acts (CopyAndLinkFiles s v) w tr)" and "target a = Some q"
  shows "under (TopDir s) q"
proof -
  have "emits (targets_in {p. under (TopDir s) p}) (CopyAndLinkFiles s v)"
    unfolding CopyAndLinkFiles_def Let_def
    by (intro emits_intros emits_files) (use assms(1-3) in \<open>auto intro: destAbs_under\<close>)
  from emits_acts [OF this, of w tr] assms(4,5) show ?thesis by (auto simp: list_all_iff targets_in_def)
qed

definition sample_copy :: "string \<Rightarrow> WorkProject" where
  "sample_copy dest = sample_work\<lparr>mproject := (mproject sample_work)\<lparr>CopyFiles := [\<lparr>cf_Src = ''.git'', cf_Dest = dest\<rparr>]\<rparr>\<rparr>"

theorem CopyAndLinkFiles_inside_witness:
  "CopyTo ''/w/.git'' ''/w/y'' \<in> set (acts (CopyAndLinkFiles (RepoSettings0\<lparr>TopDir := ''/w''\<rparr>) (sample_copy ''y'')) (\<lambda>_. sample_machine) []) \<and>
   under ''/w'' ''/w/y''"
proof -
  have "acts (CopyAndLinkFiles (RepoSettings0\<lparr>TopDir := ''/w''\<rparr>) (sample_copy ''y'')) (\<lambda>_. sample_machine) [] = [CopyTo ''/w/.git'' ''/w/y'']"
    by code_simp
  then have 1: "CopyTo ''/w/.git'' ''/w/y'' \<in> set (acts (CopyAndLinkFiles (RepoSettings0\<lparr>TopDir := ''/w''\<rparr>) (sample_copy ''y'')) (\<lambda>_. sample_machine) [])"
    by simp
  have "no_dotdot ''y''" by code_simp
  then have "under (TopDir (RepoSettings0\<lparr>TopDir := ''/w''\<rparr>)) ''/w/y''"
    by (intro CopyAndLinkFiles_inside [OF _ _ _ 1]) (simp_all add: sample_copy_def sample_work_def empty_attrs_def)
  then show ?thesis using 1 by simp
qed

text \<open>The check compares strings, so a directory whose name extends that of the workspace is
  accepted as a destination.\<close>

lemma CopyFile_escapes:
  "acts (CopyAndLinkFiles (RepoSettings0\<lparr>TopDir := ''/w''\<rparr>) (sample_copy ''../w2/y'')) (\<lambda>_. sample_machine) [] =
     [MkdirAll ''/w2'', CopyTo ''/w/.git'' ''/w2/y'']"
  by code_simp

text \<open>A detached HEAD has no name, so its commit is never compared: the commit is checked out again
  even when it is the current one.\<close>

lemma detached_checkout:
  assumes "GetHead mc v = []" and "readState mc v = Inr st"
  shows "ss_headid st = [] \<and> (chooseStep mc v co st = Inr Checkout \<or> (\<exists>e. chooseStep mc v co st = Inl e))"
proof -
  have "ss_revid st \<noteq> [] \<and> ss_headid st = [] \<and> ss_branch st = []"
    using assms by (auto simp: readState_def ResolveRevision_def Let_def split: sum.splits if_splits)
  then show ?thesis by (auto simp: chooseStep_def)
qed

end
