(* ===== verification/Settings.thy ===== *)
theory Settings
  imports Local_Half_Proofs
begin

text \<open>
  The settings of a workspace, kept in the configuration of the manifest project
  (project/manifest\_project.go). Package goconfig prints and reads numbers and truth values; its
  two printers and two readers are the fields of \<open>cfg_codec\<close>, and \<open>codec_laws\<close> says that a reader
  inverts its printer.
\<close>

record cfg_codec =
  cc_PrintInt :: "int \<Rightarrow> string"
  cc_PrintBool :: "bool \<Rightarrow> string"
  cc_ReadInt :: "string \<Rightarrow> int option"
  cc_ReadBool :: "string \<Rightarrow> bool option"

definition codec_laws :: "cfg_codec \<Rightarrow> bool" where
  "codec_laws cc \<longleftrightarrow> (\<forall>n. minInt \<le> n \<and> n \<le> maxInt \<longrightarrow> cc_ReadInt cc (cc_PrintInt cc n) = Some n) \<and>
     (\<forall>b. cc_ReadBool cc (cc_PrintBool cc b) = Some b)"

definition GetInt :: "cfg_codec \<Rightarrow> (string \<rightharpoonup> string) \<Rightarrow> string \<Rightarrow> int \<Rightarrow> int" where
  "GetInt cc c key d = (case c key of None \<Rightarrow> d | Some x \<Rightarrow> (case cc_ReadInt cc x of None \<Rightarrow> d | Some n \<Rightarrow> n))"

definition GetBool :: "cfg_codec \<Rightarrow> (string \<rightharpoonup> string) \<Rightarrow> string \<Rightarrow> bool \<Rightarrow> bool" where
  "GetBool cc c key d = (case c key of None \<Rightarrow> d | Some x \<Rightarrow> (case cc_ReadBool cc x of None \<Rightarrow> d | Some b \<Rightarrow> b))"

section \<open>Reading and saving\<close>

definition ReadSettings :: "cfg_codec \<Rightarrow> (string \<rightharpoonup> string) \<Rightarrow> RepoSettings \<Rightarrow> RepoSettings" where
  "ReadSettings cc c s = s\<lparr>
     ManifestURL := getKey c CfgRemoteOriginURL,
     ManifestName := getKey c CfgManifestName,
     rs_Groups := getKey c CfgManifestGroups,
     rs_Reference := getKey c CfgRepoReference,
     Depth := GetInt cc c CfgRepoDepth 0,
     Archive := GetBool cc c CfgRepoArchive False,
     Dissociate := GetBool cc c CfgRepoDissociate False,
     Mirror := GetBool cc c CfgRepoMirror False,
     Submodules := GetBool cc c CfgRepoSubmodules False\<rparr>"

text \<open>A value to set, or the key to unset; some keys are only ever set.\<close>

definition setOrUnset :: "string \<Rightarrow> bool \<Rightarrow> string \<Rightarrow> (string \<times> string option) list" where
  "setOrUnset key b x = [(key, if b then Some x else None)]"

definition setOnly :: "string \<Rightarrow> bool \<Rightarrow> string \<Rightarrow> (string \<times> string option) list" where
  "setOnly key b x = (if b then [(key, Some x)] else [])"

definition settingsKeys :: "cfg_codec \<Rightarrow> RepoSettings \<Rightarrow> (string \<times> string option) list" where
  "settingsKeys cc s =
     setOnly CfgRemoteOriginURL (ManifestURL s \<noteq> []) (ManifestURL s) @
     setOnly CfgManifestName (ManifestName s \<noteq> []) (ManifestName s) @
     setOrUnset CfgManifestGroups (rs_Groups s \<noteq> []) (rs_Groups s) @
     setOrUnset CfgRepoReference (rs_Reference s \<noteq> []) (rs_Reference s) @
     setOrUnset CfgRepoDepth (Depth s > 0) (cc_PrintInt cc (Depth s)) @
     setOnly CfgRepoArchive (Archive s) (cc_PrintBool cc True) @
     setOrUnset CfgRepoDissociate (Dissociate s) (cc_PrintBool cc True) @
     setOnly CfgRepoMirror (Mirror s) (cc_PrintBool cc True) @
     setOrUnset CfgRepoSubmodules (Submodules s) (cc_PrintBool cc True)"

definition SaveSettings :: "cfg_codec \<Rightarrow> WorkProject \<Rightarrow> RepoSettings \<Rightarrow> unit op" where
  "SaveSettings cc v s = bnd (lookR (\<lambda>mc. Config mc v)) (\<lambda>_. Repo_SaveConfig v (settingsKeys cc s))"

definition MirrorEnabled :: "cfg_codec \<Rightarrow> machine \<Rightarrow> WorkProject \<Rightarrow> bool result" where
  "MirrorEnabled cc mc v = bind_result (Config mc v) (\<lambda>c. Inr (GetBool cc c CfgRepoMirror False))"

definition SubmoduleEnabled :: "cfg_codec \<Rightarrow> machine \<Rightarrow> WorkProject \<Rightarrow> bool result" where
  "SubmoduleEnabled cc mc v = bind_result (Config mc v) (\<lambda>c. Inr (GetBool cc c CfgRepoSubmodules False))"

definition ArchiveEnabled :: "cfg_codec \<Rightarrow> machine \<Rightarrow> WorkProject \<Rightarrow> bool result" where
  "ArchiveEnabled cc mc v = bind_result (Config mc v) (\<lambda>c. Inr (GetBool cc c CfgRepoArchive False))"

definition DissociateEnabled :: "cfg_codec \<Rightarrow> machine \<Rightarrow> WorkProject \<Rightarrow> bool result" where
  "DissociateEnabled cc mc v = bind_result (Config mc v) (\<lambda>c. Inr (GetBool cc c CfgRepoDissociate False))"

definition SetRevision :: "WorkProject \<Rightarrow> string \<Rightarrow> WorkProject" where
  "SetRevision v r = v\<lparr>mproject := (mproject v)\<lparr>Revision := r\<rparr>\<rparr>"

text \<open>The settings and the manifest project of a directory.\<close>

definition NewManifestProject :: "penv \<Rightarrow> cfg_codec \<Rightarrow> machine \<Rightarrow> string \<Rightarrow> string \<Rightarrow> (RepoSettings \<times> WorkProject) result" where
  "NewManifestProject env cc mc dir mURL =
     bind_result (NewProject env (attrs ManifestsProject) (RepoSettings0\<lparr>TopDir := dir, ManifestURL := mURL\<rparr>) None) (\<lambda>(s, p).
     bind_result (TrackBranch mc p []) (\<lambda>track.
     bind_result (Config mc p) (\<lambda>c.
       let s' = ReadSettings cc c s in
       Inr (if mURL \<noteq> [] \<and> ManifestURL s' = [] then s'\<lparr>ManifestURL := mURL\<rparr> else s',
            if track \<noteq> [] then SetRevision p track else p))))"

section \<open>Settings are read back\<close>

lemmas cfg_keys = CfgRemoteOriginURL_def CfgManifestName_def CfgManifestGroups_def CfgRepoReference_def CfgRepoDepth_def
  CfgRepoArchive_def CfgRepoDissociate_def CfgRepoMirror_def CfgRepoSubmodules_def

lemma applyKeys_append: "applyKeys (xs @ ys) c = applyKeys ys (applyKeys xs c)"
  by (simp add: applyKeys_def)

lemma applyKeys_setOrUnset: "applyKeys (setOrUnset k b x) c = c(k := if b then Some x else None)"
  by (simp add: applyKeys_def setOrUnset_def)

lemma applyKeys_setOnly: "applyKeys (setOnly k b x) c = c(k := if b then Some x else c k)"
  by (simp add: applyKeys_def setOnly_def)

lemma settingsKeys_lookup:
  "applyKeys (settingsKeys cc s) c CfgRemoteOriginURL = (if ManifestURL s \<noteq> [] then Some (ManifestURL s) else c CfgRemoteOriginURL)"
  "applyKeys (settingsKeys cc s) c CfgManifestName = (if ManifestName s \<noteq> [] then Some (ManifestName s) else c CfgManifestName)"
  "applyKeys (settingsKeys cc s) c CfgManifestGroups = (if rs_Groups s \<noteq> [] then Some (rs_Groups s) else None)"
  "applyKeys (settingsKeys cc s) c CfgRepoReference = (if rs_Reference s \<noteq> [] then Some (rs_Reference s) else None)"
  "applyKeys (settingsKeys cc s) c CfgRepoDepth = (if Depth s > 0 then Some (cc_PrintInt cc (Depth s)) else None)"
  "applyKeys (settingsKeys cc s) c CfgRepoArchive = (if Archive s then Some (cc_PrintBool cc True) else c CfgRepoArchive)"
  "applyKeys (settingsKeys cc s) c CfgRepoDissociate = (if Dissociate s then Some (cc_PrintBool cc True) else None)"
  "applyKeys (settingsKeys cc s) c CfgRepoMirror = (if Mirror s then Some (cc_PrintBool cc True) else c CfgRepoMirror)"
  "applyKeys (settingsKeys cc s) c CfgRepoSubmodules = (if Submodules s then Some (cc_PrintBool cc True) else None)"
  by (simp_all add: settingsKeys_def applyKeys_append applyKeys_setOrUnset applyKeys_setOnly cfg_keys)

text \<open>
  Property C20. Settings that were saved are read back. Groups, reference, depth (a depth that is
  not positive as 0), dissociation and submodules are as saved, even where this unsets them. The
  address and the name of the manifest are kept when they are saved empty, and the mirror and
  archive modes, once saved, stay on whatever is saved later. Top directory and revision are not
  part of the configuration.
\<close>

theorem SaveSettings_ReadSettings:
  assumes "codec_laws cc" and "Depth s \<le> maxInt"
  shows "ReadSettings cc (applyKeys (settingsKeys cc s) c) s0 =
    s\<lparr>TopDir := TopDir s0, rs_Revision := rs_Revision s0, Depth := max 0 (Depth s),
      ManifestURL := (if ManifestURL s \<noteq> [] then ManifestURL s else getKey c CfgRemoteOriginURL),
      ManifestName := (if ManifestName s \<noteq> [] then ManifestName s else getKey c CfgManifestName),
      Archive := (Archive s \<or> GetBool cc c CfgRepoArchive False),
      Mirror := (Mirror s \<or> GetBool cc c CfgRepoMirror False)\<rparr>"
proof -
  have "minInt \<le> Depth s" if "Depth s > 0" using that by (simp add: minInt_def)
  then show ?thesis using assms
    by (cases s; cases s0) (auto simp: ReadSettings_def getKey_def GetInt_def GetBool_def settingsKeys_lookup codec_laws_def max_def)
qed

definition plain_codec :: cfg_codec where
  "plain_codec = \<lparr>cc_PrintInt = Itoa, cc_PrintBool = (\<lambda>b. if b then ''true'' else ''false''), cc_ReadInt = Atoi,
     cc_ReadBool = (\<lambda>x. if x = ''true'' then Some True else if x = ''false'' then Some False else None)\<rparr>"

lemma plain_codec_laws: "codec_laws plain_codec"
  by (auto simp: codec_laws_def plain_codec_def Atoi_Itoa)

theorem SaveSettings_ReadSettings_witness:
  "ReadSettings plain_codec (applyKeys (settingsKeys plain_codec (RepoSettings0\<lparr>Depth := 3, Mirror := True\<rparr>)) [''repo.archive'' \<mapsto> ''true'']) RepoSettings0 =
     RepoSettings0\<lparr>Depth := 3, Mirror := True, Archive := True\<rparr>"
proof -
  have "Depth (RepoSettings0\<lparr>Depth := 3, Mirror := True\<rparr>) \<le> maxInt" by (simp add: maxInt_def)
  from SaveSettings_ReadSettings [OF plain_codec_laws this, of "[''repo.archive'' \<mapsto> ''true'']" RepoSettings0]
  show ?thesis by (simp add: RepoSettings0_def getKey_def GetBool_def cfg_keys plain_codec_def)
qed

end
