(* ===== verification/Manifest_Load.thy ===== *)
theory Manifest_Load
  imports Manifest_Proofs Path_Pkg
begin

text \<open>
  Loading manifests from disk (manifest/manifest.go, lines 529-742): reading one XML file,
  following includes with a depth limit, collecting the local manifests, and merging. The XML
  decoder is the parameter \<open>xml\<close> (the bytes of a file to a manifest or an error), the
  configured manifest name the parameter \<open>cfgName\<close>, the operating system the record \<open>host\<close>.
\<close>

section \<open>Reading and including\<close>

type_synonym decoder = "string \<Rightarrow> Manifest result"

definition unmarshalFile :: "host \<Rightarrow> decoder \<Rightarrow> string \<Rightarrow> Manifest result" where
  "unmarshalFile h xml fname =
     bind_result (h_Stat h fname) (\<lambda>_.
       case h_ReadFile h fname of
         Inl e \<Rightarrow> Inl (Error (''cannot read manifest file '' @ sq fname @ '': '' @ errText e))
       | Inr buf \<Rightarrow>
           (case xml buf of
              Inl e \<Rightarrow> Inl (Error (''fail to parse manifest file '' @ sq fname @ '': '' @ errText e))
            | Inr ms \<Rightarrow> Inr ms))"

definition include_depth_error :: "string \<Rightarrow> string \<Rightarrow> go_error" where
  "include_depth_error f fname =
     Error (''exceeded maximum include depth ('' @ Itoa (int maxRecursiveDepth) @
       '') while including'' @ [CHR 0x0A, CHR 0x09] @ f @ [CHR 0x0A] @ ''from'' @ [CHR 0x09] @ fname @
       [CHR 0x0A] @ ''This might be due to circular includes'')"

function parseXML :: "host \<Rightarrow> decoder \<Rightarrow> string \<Rightarrow> nat \<Rightarrow> Manifest list result" where
  "parseXML h xml fname depth =
     bind_result (unmarshalFile h xml fname) (\<lambda>m.
     bind_result (Manifest_CheckAndFixup m) (\<lambda>m.
     bind_result
       (mapM_result (\<lambda>i. bind_result (AbsJoin h (Dir fname) (in_Name i)) (\<lambda>f.
          if depth > maxRecursiveDepth then Inl (include_depth_error f fname)
          else parseXML h xml f (depth + 1))) (Includes m))
       (\<lambda>subMs. Inr (m\<lparr>SourceFile := fname\<rparr> # concat subMs))))"
  by pat_completeness auto
termination
  by (relation "measure (\<lambda>(h, xml, fname, depth). Suc maxRecursiveDepth - depth)") auto

declare parseXML.simps [simp del]

section \<open>Entry points\<close>

definition localManifests :: "host \<Rightarrow> string \<Rightarrow> string list" where
  "localManifests h repoDir =
     (let fname = Join [repoDir, LocalManifestXML]; dir = Join [repoDir, LocalManifests] in
      (if Exist h fname then [fname] else []) @
      (if Exist h dir
       then map fst (filter (\<lambda>(name, k). dir \<noteq> name \<and> k \<noteq> Directory \<and> HasSuffix name ''.xml'')
              (h_Walk h dir))
       else []))"

text \<open>The result \<open>Inr None\<close> is the nil manifest of an uninitialised workspace.\<close>

definition LoadFile :: "host \<Rightarrow> decoder \<Rightarrow> string \<Rightarrow> string \<Rightarrow> Manifest option result" where
  "LoadFile h xml repoDir fname =
     (let fname = (if IsAbs fname then fname else Join [repoDir, Manifests, fname]) in
      if \<not> Exist h fname then Inr None
      else bind_result (parseXML h xml fname 1) (\<lambda>ms.
           bind_result (mapM_result (\<lambda>f. parseXML h xml f 1) (localManifests h repoDir)) (\<lambda>locals.
           bind_result (mergeManifests (ms @ concat locals)) (\<lambda>m. Inr (Some m)))))"

text \<open>
  \<open>cfgName dir\<close> is the configured \<^verbatim>\<open>manifest.name\<close> of the git configuration in \<open>dir\<close>: an
  error, \<open>None\<close> when there is no configuration, or its (possibly empty) value.
\<close>

definition Load ::
  "host \<Rightarrow> decoder \<Rightarrow> (string \<Rightarrow> string option result) \<Rightarrow> string \<Rightarrow> Manifest option result" where
  "Load h xml cfgName repoDir =
     (let fname = Join [repoDir, ManifestXML] in
      if Exist h fname then LoadFile h xml repoDir fname
      else let manifestsDir = Join [repoDir, Manifests] in
      (case cfgName manifestsDir of
         Inl e \<Rightarrow> Inl (Error (''fail to read config from '' @ manifestsDir @ '': '' @ errText e))
       | Inr c \<Rightarrow>
         let defaultXML = (case c of None \<Rightarrow> [] | Some n \<Rightarrow> n);
             defaultXML = (if defaultXML = [] then DefaultXML else defaultXML);
             fname = Join [manifestsDir, defaultXML]
         in case h_Stat h fname of Inl e \<Rightarrow> Inl e | Inr _ \<Rightarrow> LoadFile h xml repoDir fname))"

section \<open>Correctness\<close>

lemma Manifest_CheckAndFixup_Includes:
  "Manifest_CheckAndFixup m = Inr m' \<Longrightarrow> wf_manifest (m'\<lparr>SourceFile := f\<rparr>)"
  using CheckAndFixup_wf_lemma [of m m'] by (simp add: wf_manifest_def)

lemma parseXML_wf:
  "parseXML h xml fname depth = Inr ms \<Longrightarrow> list_all wf_manifest ms"
proof (induction h xml fname depth arbitrary: ms rule: parseXML.induct)
  case (1 h xml fname depth)
  from "1.prems" obtain m m' subs where m: "unmarshalFile h xml fname = Inr m"
    and m': "Manifest_CheckAndFixup m = Inr m'"
    and subs: "mapM_result (\<lambda>i. bind_result (AbsJoin h (Dir fname) (in_Name i)) (\<lambda>f.
          if depth > maxRecursiveDepth then Inl (include_depth_error f fname)
          else parseXML h xml f (depth + 1))) (Includes m') = Inr subs"
    and ms: "ms = m'\<lparr>SourceFile := fname\<rparr> # concat subs"
    by (auto simp: parseXML.simps [of h xml fname depth] result_simps)
  have "list_all wf_manifest s" if s: "s \<in> set subs" for s
  proof -
    from mapM_result_elem [OF subs s] obtain i f where "i \<in> set (Includes m')"
      "AbsJoin h (Dir fname) (in_Name i) = Inr f" "\<not> depth > maxRecursiveDepth"
      "parseXML h xml f (depth + 1) = Inr s"
      by (auto simp: result_simps split: if_splits)
    with "1.IH" m m' show ?thesis by blast
  qed
  with ms Manifest_CheckAndFixup_Includes [OF m'] show ?case
    by (auto simp: list_all_iff)
qed

text \<open>
  Property C27. Circular includes cannot hang the loader nor slip through: if every file of a
  set \<open>C\<close> includes some file of \<open>C\<close>, then parsing any of them ends, at any depth, with an error
  and never returns manifests.
\<close>

theorem parseXML_circular_include:
  assumes "fname \<in> C"
    and "\<And>f m m'. f \<in> C \<Longrightarrow> unmarshalFile h xml f = Inr m \<Longrightarrow> Manifest_CheckAndFixup m = Inr m' \<Longrightarrow>
      \<exists>i \<in> set (Includes m'). \<exists>g \<in> C. AbsJoin h (Dir f) (in_Name i) = Inr g"
  shows "\<exists>e. parseXML h xml fname depth = Inl e"
  using assms(1)
proof (induction "Suc maxRecursiveDepth - depth" arbitrary: fname depth rule: less_induct)
  case less
  show ?case
  proof (rule ccontr)
    assume "\<not> (\<exists>e. parseXML h xml fname depth = Inl e)"
    then obtain ms where "parseXML h xml fname depth = Inr ms"
      by (cases "parseXML h xml fname depth") auto
    then obtain m m' subs where m: "unmarshalFile h xml fname = Inr m"
      and m': "Manifest_CheckAndFixup m = Inr m'"
      and subs: "mapM_result (\<lambda>i. bind_result (AbsJoin h (Dir fname) (in_Name i)) (\<lambda>f.
          if depth > maxRecursiveDepth then Inl (include_depth_error f fname)
          else parseXML h xml f (depth + 1))) (Includes m') = Inr subs"
      by (auto simp: parseXML.simps [of h xml fname depth] result_simps)
    from assms(2) [OF less.prems m m'] obtain i g where i: "i \<in> set (Includes m')"
      and g: "g \<in> C" "AbsJoin h (Dir fname) (in_Name i) = Inr g" by blast
    from i subs obtain s where s: "bind_result (AbsJoin h (Dir fname) (in_Name i)) (\<lambda>f.
          if depth > maxRecursiveDepth then Inl (include_depth_error f fname)
          else parseXML h xml f (depth + 1)) = Inr s"
      by (auto simp: mapM_result_Inr_iff list_all2_conv_all_nth in_set_conv_nth)
    with g have "\<not> depth > maxRecursiveDepth" and "parseXML h xml g (depth + 1) = Inr s"
      by (auto split: if_splits)
    moreover from this(1) have "\<exists>e. parseXML h xml g (depth + 1) = Inl e"
      by (intro less.hyps) (use g in auto)
    ultimately show False by simp
  qed
qed

text \<open>A file that includes itself.\<close>

definition loop_host :: host where
  "loop_host = sample_host\<lparr>h_Stat := (\<lambda>p. if p = ''/m/a.xml'' then Inr RegularFile else Inl (Error ''none'')),
     h_ReadFile := (\<lambda>p. if p = ''/m/a.xml'' then Inr ''a'' else Inl (Error ''none''))\<rparr>"

definition loop_xml :: decoder where
  "loop_xml s = Inr (empty_manifest\<lparr>Includes := [\<lparr>in_Name = ''a.xml''\<rparr>]\<rparr>)"

theorem parseXML_circular_include_witness:
  "\<exists>e. parseXML loop_host loop_xml ''/m/a.xml'' 1 = Inl e"
proof (rule parseXML_circular_include [where C = "{''/m/a.xml''}"])
  fix f m m' assume f: "f \<in> {''/m/a.xml''}" and m: "unmarshalFile loop_host loop_xml f = Inr m"
    and m': "Manifest_CheckAndFixup m = Inr m'"
  have "unmarshalFile loop_host loop_xml ''/m/a.xml'' = Inr (empty_manifest\<lparr>Includes := [\<lparr>in_Name = ''a.xml''\<rparr>]\<rparr>)"
    by code_simp
  with f m have "m = empty_manifest\<lparr>Includes := [\<lparr>in_Name = ''a.xml''\<rparr>]\<rparr>" by simp
  with m' have "Includes m' = [\<lparr>in_Name = ''a.xml''\<rparr>]"
    by (auto simp: Manifest_CheckAndFixup_def empty_manifest_def Include_CheckAndFixup_def)
  moreover have "AbsJoin loop_host (Dir ''/m/a.xml'') ''a.xml'' = Inr ''/m/a.xml''" by code_simp
  ultimately show "\<exists>i \<in> set (Includes m'). \<exists>g \<in> {''/m/a.xml''}. AbsJoin loop_host (Dir f) (in_Name i) = Inr g"
    using f by simp
qed simp

text \<open>
  Property C26. End to end: whatever is on disk and whatever the XML decoder returns, a manifest
  that \<open>Load\<close> returns satisfies the merge invariant (unique project paths, unique remote names,
  flat clean projects), and every file that took part passed the well-formedness check.
\<close>

theorem Load_merge_inv:
  assumes "Load h xml cfgName repoDir = Inr (Some m)"
  shows "merge_inv m \<and> (\<exists>ms. mergeManifests ms = Inr m \<and> list_all wf_manifest ms)"
proof -
  obtain fname where "LoadFile h xml repoDir fname = Inr (Some m)"
    using assms by (auto simp: Load_def Let_def split: if_splits sum.splits)
  then obtain fname' ms locals where ms: "parseXML h xml fname' 1 = Inr ms"
    and ls: "mapM_result (\<lambda>f. parseXML h xml f 1) (localManifests h repoDir) = Inr locals"
    and m: "mergeManifests (ms @ concat locals) = Inr m"
    by (auto simp: LoadFile_def Let_def result_simps split: if_splits)
  have "list_all wf_manifest l" if "l \<in> set locals" for l
    using mapM_result_elem [OF ls that] by (auto dest: parseXML_wf)
  with parseXML_wf [OF ms] have "list_all wf_manifest (ms @ concat locals)"
    by (auto simp: list_all_iff)
  with m show ?thesis using mergeManifests_inv_lemma by blast
qed

definition load_host :: host where
  "load_host = sample_host\<lparr>h_Stat := (\<lambda>p. if p = ''/w/.repo/manifest.xml'' then Inr RegularFile else Inl (Error ''none'')),
     h_ReadFile := (\<lambda>p. Inr ''x'')\<rparr>"

theorem Load_merge_inv_witness:
  "\<exists>m. Load load_host (\<lambda>_. Inr sample_manifest) (\<lambda>_. Inr None) ''/w/.repo'' = Inr (Some m) \<and>
     merge_inv m \<and> length (Projects m) = 2"
proof -
  have "Load load_host (\<lambda>_. Inr sample_manifest) (\<lambda>_. Inr None) ''/w/.repo'' = Inr (Some
     (empty_manifest\<lparr>Remotes := [sample_remote], Projects :=
       [Project (empty_attrs\<lparr>Name := ''p'', Path := ''p'', RemoteName := ''origin''\<rparr>) [],
        Project (empty_attrs\<lparr>Name := ''p/q'', Path := ''p/q'', RemoteName := ''origin''\<rparr>) []]\<rparr>))"
    by code_simp
  from this Load_merge_inv [OF this] show ?thesis
    by (intro exI conjI) (auto simp: empty_manifest_def)
qed

end
