(* ===== verification/Workspace.thy ===== *)
theory Workspace
  imports Settings Manifest_Load "HOL-Library.Multiset"
begin

text \<open>
  Workspaces (workspace/repo-workspace.go, workspace/git-workspace.go, workspace/remote.go): loading
  the projects of a manifest, selecting projects, freezing a manifest, and the list of projects
  with the removal of obsolete ones.
\<close>

section \<open>Data\<close>

record RepoWorkSpace =
  RootDir :: string
  ws_Manifest :: "Manifest option"
  ws_Settings :: RepoSettings
  ManifestProject :: WorkProject
  ws_Projects :: "WorkProject list"
  projectByName :: "string \<rightharpoonup> WorkProject list"
  projectByPath :: "string \<rightharpoonup> WorkProject"

definition Workspace_Exists :: "machine \<Rightarrow> string \<Rightarrow> bool" where
  "Workspace_Exists mc dir =
     (let manifestsDir = Join [dir, DotRepo, Manifests] in
      Exist (mc_host mc) (Join [manifestsDir, ''.git'']) \<and>
      (case mc_Config mc manifestsDir of Inl _ \<Rightarrow> False | Inr c \<Rightarrow> getKey c ''remote.origin.url'' \<noteq> []))"

definition AdminDir :: "RepoWorkSpace \<Rightarrow> string" where "AdminDir v = Join [RootDir v, DotRepo]"

definition LinkManifest :: "RepoWorkSpace \<Rightarrow> unit op" where
  "LinkManifest v =
     (let name = ManifestName (ws_Settings v);
          srcAbs = Join [RootDir v, DotRepo, Manifests, name]; srcRel = Join [Manifests, name];
          target = Join [RootDir v, DotRepo, ManifestXML]
      in bnd (look (\<lambda>mc. (Exist (mc_host mc) srcAbs, mc_Symlinks mc, mc_Readlink mc target))) (\<lambda>(there, symlinks, linked).
         if \<not> there then fail (Error (''link manifest failed, cannot find file '' @ sq srcRel))
         else if name \<noteq> [] \<and> symlinks \<and> \<not> (case linked of Some l \<Rightarrow> Base l = name | None \<Rightarrow> False)
         then andThen (ignore (perform (Remove target))) (perform (Symlink srcRel target))
         else ret ()))"

section \<open>Loading\<close>

text \<open>The level of the manifest project among the projects of the server.\<close>

definition fetchLevel :: "string \<Rightarrow> int" where
  "fetchLevel fetch =
     foldl (\<lambda>l dir. if dir = ''..'' then l + 1 else if dir \<noteq> [] \<and> dir \<noteq> ''.'' then l - 1 else l) 1
       (StrSplit fetch CHR ''/'')"

definition afterScheme :: "string \<Rightarrow> string" where
  "afterScheme url = (case CutFirst url ''://'' of None \<Rightarrow> url | Some (_, rest) \<Rightarrow> rest)"

definition manifestsProjectName :: "string \<Rightarrow> string \<Rightarrow> string result" where
  "manifestsProjectName url0 fetch =
     (let url = TrimSuffix (afterScheme url0) ''.git'' in
      if url = [] \<or> fetch = [] then Inr ''manifests''
      else
        let dirs = StrSplit url CHR ''/'';
            level = min (fetchLevel fetch) (int (length dirs))
        in if level = 0 then Inr ''manifests''
           else if level < 0 then Inl (Panic ''slice bounds out of range'')
           else Inr (Join (drop (length dirs - nat level) dirs)))"

definition longestDotFetch :: "Remote list \<Rightarrow> string" where
  "longestDotFetch rs =
     foldl (\<lambda>f r. if rm_Fetch r \<noteq> [] \<and> hd (rm_Fetch r) = CHR ''.'' \<and> length f < length (rm_Fetch r) then rm_Fetch r else f) [] rs"

definition ws_manifestsProjectName :: "RepoSettings \<Rightarrow> Manifest option \<Rightarrow> string result" where
  "ws_manifestsProjectName s m =
     (case m of None \<Rightarrow> Inr ''manifests'' | Some mf \<Rightarrow> manifestsProjectName (ManifestURL s) (longestDotFetch (Remotes mf)))"

text \<open>One round of the loop over the elements of the manifest; in a mirror only the first project
  of a name is kept. The settings are shared and may be completed by the constructor.\<close>

definition addProject :: "RepoWorkSpace \<Rightarrow> WorkProject \<Rightarrow> RepoWorkSpace" where
  "addProject v p = v\<lparr>ws_Projects := ws_Projects v @ [p],
     projectByName := (projectByName v)(pName p \<mapsto> (case projectByName v (pName p) of None \<Rightarrow> [] | Some ps \<Rightarrow> ps) @ [p]),
     projectByPath := (projectByPath v)(pPath p \<mapsto> p)\<rparr>"

definition loadStep :: "penv \<Rightarrow> bool \<Rightarrow> RepoWorkSpace \<Rightarrow> Project \<Rightarrow> RepoWorkSpace result" where
  "loadStep env mirror v mp =
     bind_result ((if mirror then NewMirrorProject else NewProject) env (attrs mp) (ws_Settings v) (ws_Manifest v)) (\<lambda>(s, p).
       let v' = v\<lparr>ws_Settings := s\<rparr> in
       Inr (if mirror \<and> projectByName v (pName p) \<noteq> None then v' else addProject v' p))"

definition loadProjects :: "penv \<Rightarrow> cfg_codec \<Rightarrow> machine \<Rightarrow> string \<Rightarrow> Manifest option \<Rightarrow> string \<Rightarrow> RepoWorkSpace result" where
  "loadProjects env cc mc root m manifestURL =
     bind_result (NewManifestProject env cc mc root manifestURL) (\<lambda>(s, mp).
     bind_result (Config mc mp) (\<lambda>c.
       if GetBool cc c ''app.git.repo.disabled'' False
       then Inl (Error ''git-repo-go is disabled for this workspace, use repo-go instead'')
       else
         let v = \<lparr>RootDir = root, ws_Manifest = m, ws_Settings = s, ManifestProject = mp, ws_Projects = [],
                  projectByName = Map.empty, projectByPath = Map.empty\<rparr>
         in case m of None \<Rightarrow> Inr v
            | Some mf \<Rightarrow>
              bind_result (Manifest_AllProjects mf) (\<lambda>ps.
              bind_result (if Mirror s then bind_result (ws_manifestsProjectName s m) (\<lambda>n.
                             Inr (ps @ [Project ((attrs ManifestsProject)\<lparr>Name := n\<rparr>) []])) else Inr ps) (\<lambda>all.
                foldM_result (loadStep env (Mirror s)) v all))))"

definition ws_load :: "penv \<Rightarrow> cfg_codec \<Rightarrow> decoder \<Rightarrow> (string \<Rightarrow> string option result) \<Rightarrow> machine \<Rightarrow> string \<Rightarrow> string \<Rightarrow> RepoWorkSpace result" where
  "ws_load env cc xml cfgName mc root manifestURL =
     bind_result (Load (mc_host mc) xml cfgName (Join [root, DotRepo])) (\<lambda>m. loadProjects env cc mc root m manifestURL)"

definition Override :: "penv \<Rightarrow> cfg_codec \<Rightarrow> decoder \<Rightarrow> machine \<Rightarrow> RepoWorkSpace \<Rightarrow> string \<Rightarrow> RepoWorkSpace result" where
  "Override env cc xml mc v name =
     (let f = Join [RootDir v, DotRepo, Manifests, name] in
      if \<not> Exist (mc_host mc) f then Inl (Error (''cannot find manifest: '' @ name))
      else bind_result (LoadFile (mc_host mc) xml (Join [RootDir v, DotRepo]) f) (\<lambda>m. loadProjects env cc mc (RootDir v) m []))"

definition NewRepoWorkSpace :: "penv \<Rightarrow> cfg_codec \<Rightarrow> decoder \<Rightarrow> (string \<Rightarrow> string option result) \<Rightarrow> machine \<Rightarrow> string \<Rightarrow> RepoWorkSpace result" where
  "NewRepoWorkSpace env cc xml cfgName mc dir =
     bind_result (FindTopDir (mc_host mc) dir) (\<lambda>root.
     bind_result (if root = [] then Abs (mc_host mc) root else Inr root) (\<lambda>root.
       ws_load env cc xml cfgName mc root []))"

definition NewEmptyRepoWorkSpace :: "penv \<Rightarrow> cfg_codec \<Rightarrow> machine \<Rightarrow> string \<Rightarrow> string \<Rightarrow> RepoWorkSpace result" where
  "NewEmptyRepoWorkSpace env cc mc dir0 manifestURL =
     bind_result (if dir0 = [] then Abs (mc_host mc) dir0 else Inr dir0) (\<lambda>dir. loadProjects env cc mc dir None manifestURL)"

section \<open>Selecting projects\<close>

record GetProjectsOptions =
  gp_Groups :: string
  MissingOK :: bool
  SubmodulesOK :: bool

definition NoSuchProjectError :: "string \<Rightarrow> go_error" where
  "NoSuchProjectError name = Error (''cannot find project with name/path '' @ sq name)"

definition ProjectNoExistError :: "string \<Rightarrow> go_error" where
  "ProjectNoExistError name = Error (''project '' @ sq name @ '' does not exist'')"

definition ProjectNotBelongToGroupsError :: "string \<Rightarrow> string \<Rightarrow> go_error" where
  "ProjectNotBelongToGroupsError name groups = Error (''project '' @ sq name @ '' not belong to groups '' @ sq groups)"

definition effectiveGroups :: "machine \<Rightarrow> RepoWorkSpace \<Rightarrow> string \<Rightarrow> string result" where
  "effectiveGroups mc v groups =
     (if groups \<noteq> [] then Inr groups
      else bind_result (ConfigGet mc (ManifestProject v) CfgManifestGroups) (\<lambda>g.
        Inr (if g \<noteq> [] then g else ''default,platform-'' @ h_GOOS (mc_host mc))))"

text \<open>The directory of the process, relative to the workspace; empty if it cannot be told.\<close>

definition relativeDir :: "host \<Rightarrow> string \<Rightarrow> string" where
  "relativeDir h root =
     (let cwd = (case h_Getwd h of Inl _ \<Rightarrow> [] | Inr d \<Rightarrow> d);
          real = (case h_EvalSymlinks h cwd of Inl _ \<Rightarrow> [] | Inr d \<Rightarrow> d)
      in case Rel root real of None \<Rightarrow> [] | Some d \<Rightarrow> d)"

definition findProjects :: "RepoWorkSpace \<Rightarrow> string \<Rightarrow> string \<Rightarrow> WorkProject list result" where
  "findProjects v pDir arg =
     (case projectByName v arg of
        Some (p # ps) \<Rightarrow> Inr (p # ps)
      | _ \<Rightarrow>
        (let a = (if pDir \<noteq> [] then Clean (Join [pDir, arg]) else arg) in
         case projectByPath v a of None \<Rightarrow> Inl (NoSuchProjectError a) | Some p \<Rightarrow> Inr [p]))"

definition selectProject :: "host \<Rightarrow> GetProjectsOptions \<Rightarrow> string \<Rightarrow> bool \<Rightarrow> WorkProject \<Rightarrow> WorkProject list result" where
  "selectProject h opts groups named p =
     (if \<not> MissingOK opts \<and> \<not> Project_Exists h p
      then if named then Inl (ProjectNoExistError (pName p)) else Inr []
      else if Project_MatchGroups p groups then Inr [p]
      else if named then Inl (ProjectNotBelongToGroupsError (pName p) groups) else Inr [])"

text \<open>The submodules of a project are not implemented: asking for them ends the program.\<close>

definition GetProjects :: "machine \<Rightarrow> RepoWorkSpace \<Rightarrow> GetProjectsOptions \<Rightarrow> string list \<Rightarrow> WorkProject list result" where
  "GetProjects mc v opts args =
     bind_result (effectiveGroups mc v (gp_Groups opts)) (\<lambda>groups.
       let h = mc_host mc in
       bind_result (if args = [] then Inr (ws_Projects v)
                    else bind_result (mapM_result (findProjects v (relativeDir h (RootDir v))) args) (\<lambda>pss. Inr (concat pss))) (\<lambda>all.
         if \<exists>p \<in> set all. SubmodulesOK opts \<or> IsSyncS (mproject p) then Inl (Fatal ''not implement GitSubmodules'')
         else bind_result (mapM_result (selectProject h opts groups (args \<noteq> [])) all) (\<lambda>pss. Inr (concat pss))))"

section \<open>Freezing a manifest\<close>

definition frozenAttrs :: "bool \<Rightarrow> WorkProject \<Rightarrow> string \<Rightarrow> ProjectAttrs \<Rightarrow> ProjectAttrs" where
  "frozenAttrs fillUpstream p i a =
     (let a1 = (if fillUpstream
                then a\<lparr>Upstream := (if Upstream (mproject p) \<noteq> [] then Upstream (mproject p) else Revision (mproject p))\<rparr>
                else a)
      in a1\<lparr>Revision := i\<rparr>)"

definition freezeProject_Process :: "machine \<Rightarrow> RepoWorkSpace \<Rightarrow> bool \<Rightarrow> handler" where
  "freezeProject_Process mc v fillUpstream mp parentDir =
     (let path = (if parentDir = [] then Path (attrs mp) else Join [parentDir, Path (attrs mp)]) in
      case projectByPath v path of None \<Rightarrow> Inr mp
      | Some p \<Rightarrow>
        (case ResolveRevision mc p (if Mirror (ws_Settings v) then Revision (mproject p) else ''HEAD'') of
           Inl _ \<Rightarrow> Inr mp
         | Inr i \<Rightarrow> Inr (Project (frozenAttrs fillUpstream p i (attrs mp)) (subprojects mp))))"

definition FreezeManifest :: "machine \<Rightarrow> RepoWorkSpace \<Rightarrow> bool \<Rightarrow> RepoWorkSpace result" where
  "FreezeManifest mc v fillUpstream =
     (case ws_Manifest v of None \<Rightarrow> Inl nilPointer
      | Some m \<Rightarrow> bind_result (ProjectHandle (freezeProject_Process mc v fillUpstream) m) (\<lambda>m'.
          Inr (v\<lparr>ws_Manifest := Some m'\<rparr>)))"

section \<open>The list of projects\<close>

definition ShortGitObjectsDir :: "RepoWorkSpace \<Rightarrow> string \<Rightarrow> string" where
  "ShortGitObjectsDir v name =
     (if name = [] then [] else if Mirror (ws_Settings v) then name @ ''.git''
      else Join [DotRepo, ProjectObjects, name @ ''.git''])"

definition ShortGitDir :: "RepoWorkSpace \<Rightarrow> string \<Rightarrow> string" where
  "ShortGitDir v pathName =
     (if pathName = [] then [] else if Mirror (ws_Settings v) then []
      else Join [DotRepo, ProjectsDir, pathName @ ''.git''])"

text \<open>The walk over the two sorted lists.\<close>

fun obsoleteWalk :: "string list \<Rightarrow> string list \<Rightarrow> string list" where
  "obsoleteWalk [] ns = []"
| "obsoleteWalk os [] = os"
| "obsoleteWalk (x # os) (n # ns) =
     (if x < n then x # obsoleteWalk os (n # ns) else if n < x then obsoleteWalk (x # os) ns else obsoleteWalk os ns)"

definition findObsoletePaths :: "string list \<Rightarrow> string list \<Rightarrow> string list" where
  "findObsoletePaths oldPaths newPaths = obsoleteWalk (sort oldPaths) (sort newPaths)"

text \<open>The directories \<open>removeEmptyDirs\<close> tries to remove, from the innermost to the root.\<close>

function upwards :: "string \<Rightarrow> string \<Rightarrow> string list" where
  "upwards root dir =
     (if \<not> HasPrefix dir root then [] else dir # (if Dir dir = dir then [] else upwards root (Dir dir)))"
  by pat_completeness auto
termination
proof (relation "measure (\<lambda>(root, dir). up_measure dir)")
  fix root dir assume "Dir dir \<noteq> dir"
  then show "((root, Dir dir), (root, dir)) \<in> measure (\<lambda>(root, dir). up_measure dir)"
    using Dir_up_measure [of dir] by simp
qed simp

declare upwards.simps [simp del]

definition removeEmptyDirs :: "RepoWorkSpace \<Rightarrow> string \<Rightarrow> unit op" where
  "removeEmptyDirs v dir = each (\<lambda>d. ignore (perform (Remove d))) (upwards (RootDir v) dir)"

definition badPath :: "string \<Rightarrow> bool" where
  "badPath p \<longleftrightarrow> p = [] \<or> p = ''.'' \<or> p = ''..'' \<or> HasPrefix p ''./'' \<or> HasPrefix p ''../''"

text \<open>What is left of an obsolete path (at most the path itself) and the message about it.\<close>

definition obsoleteStep :: "RepoWorkSpace \<Rightarrow> string \<Rightarrow> (string list \<times> string list) op" where
  "obsoleteStep v obsoletePath =
     (let p = Clean obsoletePath; workdirAbs = Clean (Join [RootDir v, p]); gitdir = ShortGitDir v p;
          gitdirAbs = (if gitdir \<noteq> [] then Clean (Join [RootDir v, gitdir]) else [])
      in if badPath p then ret ([], [''bad project path '' @ sq obsoletePath @ '', ignored''])
         else if \<not> HasPrefix workdirAbs (RootDir v) then
           ret ([], [''project '' @ sq p @ '', which beyond repo root '' @ sq (RootDir v) @ '', ignored''])
         else if TrimPrefix workdirAbs (RootDir v) = [] then ret ([], [])
         else bnd (look (\<lambda>mc. (Exist (mc_host mc) workdirAbs, Exist (mc_host mc) gitdirAbs,
                               Exist (mc_host mc) (Join [workdirAbs, ''.git'']), IsClean mc workdirAbs))) (\<lambda>(there, gitThere, isTree, clean).
           if \<not> there then
             if gitdirAbs \<noteq> [] \<and> gitThere then
               bnd (attempt (perform (RemoveAll gitdirAbs))) (\<lambda>r. case r of
                 Inl e \<Rightarrow> ret ([p], [''fail to remove '' @ sq gitdir @ '': '' @ e])
               | Inr _ \<Rightarrow> andThen (removeEmptyDirs v gitdirAbs) (ret ([], [])))
             else ret ([], [])
           else if \<not> isTree then ret ([p], [''obsolete path '' @ sq p @ '' does not seem like a git worktree''])
           else if clean \<noteq> Inr True then
             ret ([p], [''cannot remove project '' @ dq p @ '': uncommitted changes are present.'' @ [CHR 0x0A] @
               ''Please commit changes, upload then run syc again''])
           else ret ([p], [])))"

definition removeObsoletePaths :: "RepoWorkSpace \<Rightarrow> string list \<Rightarrow> string list \<Rightarrow> (string list \<times> string list) op" where
  "removeObsoletePaths v oldPaths newPaths =
     bnd (mapM_op (obsoleteStep v) (findObsoletePaths oldPaths newPaths)) (\<lambda>rs.
       ret (concat (map fst rs), concat (map snd rs)))"

definition UpdateProjectList :: "RepoWorkSpace \<Rightarrow> bool \<Rightarrow> string list op" where
  "UpdateProjectList v submodulesOK =
     bnd (lookR (\<lambda>mc. GetProjects mc v \<lparr>gp_Groups = [], MissingOK = True, SubmodulesOK = submodulesOK\<rparr> [])) (\<lambda>ps.
       let newPaths = map pPath ps; listFile = Join [RootDir v, DotRepo, ''project.list'']; lock = listFile @ ''.lock'' in
       bnd (lookR (\<lambda>mc. if \<not> Exist (mc_host mc) listFile then Inr []
                        else case h_ReadFile (mc_host mc) listFile of
                            Inl e \<Rightarrow> Inl (Fatal (''fail to open '' @ listFile @ '': '' @ errText e))
                          | Inr text \<Rightarrow> Inr (outputLines text))) (\<lambda>oldPaths.
       bnd (removeObsoletePaths v oldPaths newPaths) (\<lambda>(remains, _).
       andThen (wrapErr (\<lambda>e. ''fail to create lockfile '' @ sq lock @ '': '' @ e)
                 (perform (WriteFile lock (concat (map (\<lambda>p. p @ [CHR 0x0A]) (sort newPaths @ remains))))))
       (andThen (wrapErr (\<lambda>e. ''fail to rename lockfile to '' @ sq listFile @ '': '' @ e) (perform (Rename lock listFile)))
         (ret remains)))))"

section \<open>Remotes of a workspace (workspace/remote.go)\<close>

text \<open>The shared table, the state of the information, and the names of the remotes that failed.\<close>

definition shareStep :: "nat \<Rightarrow> ssh_env \<Rightarrow> bool \<Rightarrow> RemoteMap \<times> SSHInfoQuery \<times> string list \<Rightarrow> Remote \<Rightarrow>
    (RemoteMap \<times> SSHInfoQuery \<times> string list) result option" where
  "shareStep fuel env noCache st r = (case st of (m, q, failed) \<Rightarrow>
     if rm_Review r = [] then Some (Inr (RemoteMap_Add m (NewRemote r (Some (NewProtoHelper SSHInfo0))), q, failed))
     else case GetSSHInfo fuel env q (rm_Review r) (\<not> noCache) of
         None \<Rightarrow> None
       | Some (q', Inr i) \<Rightarrow> Some (Inr (RemoteMap_Add m (NewRemote r (Some (NewProtoHelper i))), q', failed))
       | Some (q', Inl (Error e)) \<Rightarrow> Some (Inr (m, q', failed @ [rm_Name r]))
       | Some (q', Inl e) \<Rightarrow> Some (Inl e))"

definition loadStepRemotes :: "nat \<Rightarrow> ssh_env \<Rightarrow> machine \<Rightarrow> bool \<Rightarrow> RemoteMap \<Rightarrow> RemoteMap list \<times> info_state \<Rightarrow> WorkProject \<Rightarrow>
    (RemoteMap list \<times> info_state) result option" where
  "loadStepRemotes fuel env mc noCache shared st p = (case Config mc p of
     Inl e \<Rightarrow> Some (Inl e)
   | Inr c \<Rightarrow>
     (case Project_LoadRemotes fuel env (SSHInfoCacheFile mc p) noCache c (mc_Sections mc (configFile mc p)) (Some shared)
             (ManifestRemote (mproject p)) (snd st) of
        None \<Rightarrow> None
      | Some (Inl e) \<Rightarrow> Some (Inl e)
      | Some (Inr (m, is)) \<Rightarrow>
        (case ManifestRemote (mproject p) of
           None \<Rightarrow> Some (Inl nilPointer)
         | Some r \<Rightarrow> Some (Inr (fst st @ [if rm_Name r = [] then m else SetDefault m (rm_Name r)], is)))))"

definition ws_LoadRemotes :: "nat \<Rightarrow> ssh_env \<Rightarrow> machine \<Rightarrow> bool \<Rightarrow> RepoWorkSpace \<Rightarrow> info_state \<Rightarrow>
    (RemoteMap list \<times> info_state \<times> go_error option) result option" where
  "ws_LoadRemotes fuel env mc noCache v is =
     (case ws_Manifest v of None \<Rightarrow> Some (Inr ([], is, None))
      | Some mf \<Rightarrow>
        if Remotes mf = [] then Some (Inr ([], is, None))
        else
          let f = SSHInfoCacheFile mc (ManifestProject v) in
          (case loadAll (shareStep fuel env noCache) (NewRemoteMap, NewSSHInfoQuery (fst is) (snd is) f, []) (Remotes mf) of
             None \<Rightarrow> None
           | Some (Inl e) \<Rightarrow> Some (Inl e)
           | Some (Inr (shared, q, failed)) \<Rightarrow>
             let is' = (case saved q of None \<Rightarrow> fst is | Some c \<Rightarrow> (fst is)(f := Some c), internalCache q) in
             (case loadAll (loadStepRemotes fuel env mc noCache shared) ([], is') (ws_Projects v) of
                None \<Rightarrow> None
              | Some (Inl e) \<Rightarrow> Some (Inl e)
              | Some (Inr (ms, is'')) \<Rightarrow>
                  Some (Inr (ms, is'', if failed = [] then None
                                       else Some (Error (''fail to load remotes: '' @ StrJoin failed '', '')))))))"

section \<open>A single repository (workspace/git-workspace.go)\<close>

record GitWorkSpace =
  gw_RootDir :: string
  gw_GitDir :: string
  gw_Projects :: "WorkProject list"
  gw_projectByName :: "string \<rightharpoonup> WorkProject list"
  gw_projectByPath :: "string \<rightharpoonup> WorkProject"

definition gw_newProject :: "string \<Rightarrow> string \<Rightarrow> WorkProject" where
  "gw_newProject worktree gitdir =
     \<lparr>mproject = empty_attrs\<lparr>Name := Base worktree, Path := ''.''\<rparr>, DotGit = gitdir, GitDir = gitdir, ObjectsGitDir = [],
      ManifestDefaultRevision = [], IsBare = False, Repository.RemoteURL = [], Reference = [], WorkDir = worktree\<rparr>"

definition newGitWorkSpace :: "string \<Rightarrow> string \<Rightarrow> GitWorkSpace" where
  "newGitWorkSpace worktree gitdir =
     (let p = gw_newProject worktree gitdir in
      \<lparr>gw_RootDir = worktree, gw_GitDir = gitdir, gw_Projects = [p], gw_projectByName = [pName p \<mapsto> [p]],
       gw_projectByPath = [pPath p \<mapsto> p]\<rparr>)"

definition NewGitWorkSpace :: "host \<Rightarrow> string \<Rightarrow> GitWorkSpace result" where
  "NewGitWorkSpace h dir = bind_result (FindGitWorkSpace h dir) (\<lambda>(w, g). Inr (newGitWorkSpace w g))"

definition gw_LoadRemotes :: "nat \<Rightarrow> ssh_env \<Rightarrow> machine \<Rightarrow> bool \<Rightarrow> GitWorkSpace \<Rightarrow> info_state \<Rightarrow> (RemoteMap \<times> info_state) result option" where
  "gw_LoadRemotes fuel env mc noCache v is =
     (case gw_Projects v of
        [p] \<Rightarrow>
          (case Config mc p of Inl e \<Rightarrow> Some (Inl e)
           | Inr c \<Rightarrow> Project_LoadRemotes fuel env (SSHInfoCacheFile mc p) noCache c (mc_Sections mc (configFile mc p)) None
               (ManifestRemote (mproject p)) is)
      | _ \<Rightarrow> Some (Inl (Error ''git workspace should contain only one project'')))"

end
