(* ===== verification/Workspace_Proofs.thy ===== *)
theory Workspace_Proofs
  imports Workspace
begin

text \<open>
  Properties of workspaces: the indexes agree with the list of projects, a frozen manifest pins
  every project, obsolete paths are a difference of multisets, and the removal of obsolete
  projects touches nothing but the repositories below \<^verbatim>\<open>.repo/projects\<close>.
\<close>

section \<open>Paths without parent elements\<close>

lemma foldl_clean_filter:
  "''..'' \<notin> set es \<Longrightarrow> foldl (clean_step r) st es = rev (filter (\<lambda>e. e \<noteq> [] \<and> e \<noteq> ''.'') es) @ st"
  by (induction es arbitrary: st) (auto simp: clean_step_def)

lemma path_elems_Join_no_dotdot:
  assumes "d \<noteq> []" and "no_dotdot x"
  shows "path_elems (Join [d, x]) = path_elems d @ path_elems x"
proof -
  have "''..'' \<notin> set (StrSplit x CHR ''/'')" using assms(2) by (simp add: no_dotdot_def)
  then show ?thesis
    using assms(1) by (simp add: Join_two path_elems_slash foldl_clean_filter path_elems_def [of x] clean_elems_def)
qed

lemma Join_not_Nil [simp]: "d \<noteq> [] \<Longrightarrow> Join (d # xs) \<noteq> []"
  by (simp add: Join_def)

lemma no_dotdot_Clean:
  assumes "''..'' \<notin> set (path_elems x)"
  shows "no_dotdot (Clean x)"
proof -
  have sep: "\<forall>e \<in> set (path_elems x). CHR ''/'' \<notin> set e"
    using plain_path_elems [of x] by (auto simp: list_all_iff plain_elem_def)
  have split: "StrSplit (StrJoin (path_elems x) ''/'') CHR ''/'' = (if path_elems x = [] then [[]] else path_elems x)"
    using sep by (auto intro: StrSplit_StrJoin)
  show ?thesis using assms
    by (auto simp: no_dotdot_def Clean_def render_def split StrSplit_single)
qed

lemma good_path:
  assumes "\<not> badPath (Clean x)"
  shows "no_dotdot (Clean x)"
proof (rule no_dotdot_Clean)
  obtain n as where es: "path_elems x = replicate n ''..'' @ as" "''..'' \<notin> set as" "IsAbs x \<longrightarrow> n = 0"
    using normal_elemsE [OF normal_path_elems [of x]] by metis
  have "n = 0"
  proof (rule ccontr)
    assume "n \<noteq> 0"
    then obtain k where k: "n = Suc k" by (cases n) auto
    then have "Clean x = StrJoin (''..'' # replicate k ''..'' @ as) ''/''" using es by (simp add: Clean_def render_def)
    then have "badPath (Clean x)" by (auto simp: badPath_def StrJoin_Cons HasPrefix_def)
    with assms show False by simp
  qed
  with es show "''..'' \<notin> set (path_elems x)" by simp
qed

section \<open>Removing obsolete projects\<close>

lemma upwards_prefix: "d \<in> set (upwards root dir) \<Longrightarrow> HasPrefix d root"
proof (induction root dir rule: upwards.induct)
  case (1 root dir)
  from "1.prems" show ?case
    unfolding upwards.simps [of root dir] using "1.IH" by (auto split: if_splits)
qed

definition repositoriesDir :: "RepoWorkSpace \<Rightarrow> string" where
  "repositoriesDir v = Join [RootDir v, DotRepo, ProjectsDir]"

lemma gitdir_under:
  assumes "RootDir v \<noteq> []" and "\<not> badPath (Clean x)" and "ShortGitDir v (Clean x) \<noteq> []"
  shows "under (repositoriesDir v) (Clean (Join [RootDir v, ShortGitDir v (Clean x)]))"
proof -
  let ?p = "Clean x @ ''.git''"
  have p: "no_dotdot ?p" using good_path [OF assms(2)] by (rule no_dotdot_git)
  have g: "ShortGitDir v (Clean x) = Join [Join [DotRepo, ProjectsDir], ?p]"
    using assms(3) Join_assoc [of DotRepo "[?p]" "[ProjectsDir]"] by (auto simp: ShortGitDir_def DotRepo_def split: if_splits)
  have base: "path_elems (Join [DotRepo, ProjectsDir]) = path_elems DotRepo @ path_elems ProjectsDir"
    by (rule path_elems_Join_no_dotdot) (simp_all add: DotRepo_def no_dotdot_consts [unfolded ProjectsDir_def])
  have ge: "path_elems (ShortGitDir v (Clean x)) = path_elems DotRepo @ path_elems ProjectsDir @ path_elems ?p"
    unfolding g using path_elems_Join_no_dotdot [OF _ p, of "Join [DotRepo, ProjectsDir]"] base by (simp add: Join_def DotRepo_def)
  have "''..'' \<notin> set (path_elems (ShortGitDir v (Clean x)))"
  proof -
    have "''..'' \<notin> set (path_elems y)" if "no_dotdot y" for y
      using that foldl_clean_filter [of "StrSplit y CHR ''/''"] by (simp add: path_elems_def clean_elems_def no_dotdot_def)
    then show ?thesis using ge p by simp
  qed
  then have nd: "no_dotdot (ShortGitDir v (Clean x))" using no_dotdot_Clean [of "ShortGitDir v (Clean x)"] g by (simp add: Join_def DotRepo_def)
  have "repositoriesDir v = Join [Join [RootDir v, DotRepo], ProjectsDir]"
    using Join_assoc [of "RootDir v" "[ProjectsDir]" "[DotRepo]"] assms(1) by (simp add: repositoriesDir_def)
  then have "path_elems (repositoriesDir v) = path_elems (RootDir v) @ path_elems DotRepo @ path_elems ProjectsDir"
    "IsAbs (repositoriesDir v) = IsAbs (RootDir v)"
    using path_elems_Join_no_dotdot [of "Join [RootDir v, DotRepo]" ProjectsDir] path_elems_Join_no_dotdot [of "RootDir v" DotRepo] assms(1) Join_not_Nil [of "RootDir v"]
    by simp_all
  then show ?thesis
    using path_elems_Join_no_dotdot [OF assms(1) nd] ge assms(1) by (simp add: under_def)
qed

text \<open>What the removal may do: delete repositories below \<^verbatim>\<open>.repo/projects\<close> and try to remove
  directories (which succeeds for empty ones only) inside the workspace.\<close>

fun removal_ok :: "RepoWorkSpace \<Rightarrow> action \<Rightarrow> bool" where
  "removal_ok v (RemoveAll q) \<longleftrightarrow> under (repositoriesDir v) q"
| "removal_ok v (Remove q) \<longleftrightarrow> HasPrefix q (RootDir v)"
| "removal_ok v _ \<longleftrightarrow> False"

lemma emits_obsoleteStep:
  assumes "RootDir v \<noteq> []"
  shows "emits (removal_ok v) (obsoleteStep v x)"
  unfolding obsoleteStep_def removeEmptyDirs_def Let_def
  by (intro emits_intros emits_let emits_prod emits_sum) (use assms gitdir_under in \<open>auto dest: upwards_prefix split: if_splits\<close>)

text \<open>
  Property C16. Removing obsolete projects is safe. Whatever the list of projects of an earlier
  synchronisation says, the only trees that are deleted are repositories under \<^verbatim>\<open>.repo/projects\<close>
  of the workspace, directories that are removed one by one have the root as a prefix, and nothing
  else is done: work trees are never deleted.
\<close>

theorem removeObsoletePaths_safe:
  assumes "RootDir v \<noteq> []"
  shows "list_all (removal_ok v) (acts (removeObsoletePaths v oldPaths newPaths) w tr)"
proof -
  have "emits (removal_ok v) (removeObsoletePaths v oldPaths newPaths)"
    unfolding removeObsoletePaths_def by (intro emits_intros emits_obsoleteStep [OF assms])
  then show ?thesis by (rule emits_acts)
qed

definition sample_ws :: RepoWorkSpace where
  "sample_ws = \<lparr>RootDir = ''/t'', ws_Manifest = None, ws_Settings = RepoSettings0, ManifestProject = sample_work,
     ws_Projects = [], projectByName = Map.empty, projectByPath = Map.empty\<rparr>"

definition sample_left :: machine where
  "sample_left = sample_machine\<lparr>mc_host := (sample_repo_host\<lparr>h_Stat := (\<lambda>p. if p = ''/t/.repo/projects/b.git'' then Inr Directory else Inl (Error p))\<rparr>)\<rparr>"

theorem removeObsoletePaths_safe_witness:
  "let A = acts (removeObsoletePaths sample_ws [''b'', ''..'', ''a''] [''a'']) (\<lambda>_. sample_left) [] in
   RemoveAll ''/t/.repo/projects/b.git'' \<in> set A \<and> list_all (removal_ok sample_ws) A"
proof -
  let ?A = "acts (removeObsoletePaths sample_ws [''b'', ''..'', ''a''] [''a'']) (\<lambda>_. sample_left) []"
  have "hd ?A = RemoveAll ''/t/.repo/projects/b.git'' \<and> ?A \<noteq> []" by code_simp
  then have "RemoveAll ''/t/.repo/projects/b.git'' \<in> set ?A" by (metis hd_in_set)
  moreover have "RootDir sample_ws \<noteq> []" by (simp add: sample_ws_def)
  ultimately show ?thesis using removeObsoletePaths_safe [of sample_ws] unfolding Let_def by blast
qed

section \<open>Obsolete paths\<close>

lemma obsoleteWalk_mset:
  "sorted xs \<Longrightarrow> sorted ns \<Longrightarrow> mset (obsoleteWalk xs ns) = mset xs - mset ns"
proof (induction xs ns rule: obsoleteWalk.induct)
  case (3 x os n ns)
  consider "x < n" | "n < x" | "x = n" by (rule linorder_cases)
  then show ?case
  proof cases
    case 1
    then have "x \<notin># mset (n # ns)" using "3.prems"(2) by auto
    then show ?thesis using 1 "3.IH"(1) "3.prems" by (simp add: diff_add_mset_swap)
  next
    case 2
    then have "n \<notin># mset (x # os)" using "3.prems"(1) by auto
    then show ?thesis using 2 order_less_not_sym [OF 2] "3.IH"(2) "3.prems" by simp
  next
    case 3
    then show ?thesis using "3.IH"(3) "3.prems" by simp
  qed
qed simp_all

lemma obsoleteWalk_subset: "set (obsoleteWalk xs ns) \<subseteq> set xs"
  by (induction xs ns rule: obsoleteWalk.induct) auto

lemma obsoleteWalk_sorted: "sorted xs \<Longrightarrow> sorted (obsoleteWalk xs ns)"
proof (induction xs ns rule: obsoleteWalk.induct)
  case (3 x os n ns)
  then show ?case using obsoleteWalk_subset [of os "n # ns"] by (auto simp del: obsoleteWalk.simps simp: obsoleteWalk.simps(3))
qed simp_all

text \<open>
  Property C17. The merge-like walk over the two sorted lists computes the difference of the lists
  as multisets: a path is obsolete as many times as it occurs more often in the old list than in
  the new one, and the result is sorted.
\<close>

theorem findObsoletePaths_difference:
  "mset (findObsoletePaths oldPaths newPaths) = mset oldPaths - mset newPaths \<and> sorted (findObsoletePaths oldPaths newPaths)"
  by (simp add: findObsoletePaths_def obsoleteWalk_mset obsoleteWalk_sorted)

section \<open>The indexes\<close>

definition indexed :: "RepoWorkSpace \<Rightarrow> bool" where
  "indexed v \<longleftrightarrow> projectByName v = IndexByName (ws_Projects v) \<and> projectByPath v = IndexByPath (ws_Projects v)"

lemma IndexByName_simps:
  "IndexByName [] = Map.empty"
  "IndexByName (ps @ [p]) = (IndexByName ps)(pName p \<mapsto> (case IndexByName ps (pName p) of None \<Rightarrow> [p] | Some qs \<Rightarrow> qs @ [p]))"
  by (simp_all add: IndexByName_def)

lemma IndexByName_filter:
  "IndexByName ps n = (case filter (\<lambda>p. pName p = n) ps of [] \<Rightarrow> None | qs \<Rightarrow> Some qs)"
  by (induction ps rule: rev_induct) (auto simp: IndexByName_simps split: list.splits)

lemma indexed_add: "indexed v \<Longrightarrow> indexed (addProject v p)"
  by (auto simp: indexed_def addProject_def IndexByName_simps IndexByPath_simps fun_eq_iff split: option.splits)

lemma indexed_settings [simp]: "indexed (v\<lparr>ws_Settings := s\<rparr>) = indexed v"
  by (simp add: indexed_def)

lemma referencePath_Mirror: "referencePath env mp s = (s', r) \<Longrightarrow> Mirror s' = Mirror s"
  by (auto simp: referencePath_def Let_def split: if_splits sum.splits)

lemma GetRemoteURL_Mirror: "GetRemoteURL env s v = (s', r) \<Longrightarrow> Mirror s' = Mirror s"
  by (auto simp: GetRemoteURL_def Let_def split: if_splits)

lemma finishProject_keeps:
  "finishProject env s v = Inr (s', w) \<Longrightarrow> mproject w = mproject v \<and> Mirror s' = Mirror s"
  by (auto simp: finishProject_def dest: GetRemoteURL_Mirror split: prod.splits sum.splits)

lemma fillDefaults_keeps:
  "fillDefaults mirror m v = Inr w \<Longrightarrow> pName w = pName v \<and> pPath w = pPath v"
  by (auto simp: fillDefaults_def defaultAttrs_def deref_def result_simps split: option.splits if_splits)

lemma NewProject_keeps:
  "NewProject env mp s m = Inr (s', p) \<Longrightarrow> pName p = Name mp \<and> pPath p = Path mp \<and> Mirror s' = Mirror s"
  "NewMirrorProject env mp s m = Inr (s', p) \<Longrightarrow> pName p = Name mp \<and> pPath p = Path mp \<and> Mirror s' = Mirror s"
  by (auto simp: NewProject_def NewMirrorProject_def Let_def result_simps split: if_splits prod.splits
      dest!: fillDefaults_keeps finishProject_keeps referencePath_Mirror)

definition loaded :: "bool \<Rightarrow> RepoWorkSpace \<Rightarrow> bool" where
  "loaded mirror v \<longleftrightarrow> indexed v \<and> Mirror (ws_Settings v) = mirror \<and> (mirror \<longrightarrow> distinct (map pName (ws_Projects v)))"

lemma loadStep_loaded:
  assumes "loaded mirror v" and "loadStep env mirror v mp = Inr v'"
  shows "loaded mirror v'"
proof -
  obtain s p where new: "(if mirror then NewMirrorProject else NewProject) env (attrs mp) (ws_Settings v) (ws_Manifest v) = Inr (s, p)"
    and v': "v' = (if mirror \<and> projectByName v (pName p) \<noteq> None then v\<lparr>ws_Settings := s\<rparr> else addProject (v\<lparr>ws_Settings := s\<rparr>) p)"
  proof (cases "(if mirror then NewMirrorProject else NewProject) env (attrs mp) (ws_Settings v) (ws_Manifest v)")
    case (Inr sp)
    then show thesis using assms(2) that [of "fst sp" "snd sp"]
      by (simp add: loadStep_def Let_def case_prod_unfold del: if_split)
  qed (use assms(2) in \<open>simp add: loadStep_def\<close>)
  have "Mirror s = mirror" using new assms(1) NewProject_keeps by (auto simp: loaded_def split: if_splits)
  moreover have "pName p \<notin> pName ` set (ws_Projects v)" if "projectByName v (pName p) = None"
    using that assms(1) by (auto simp: loaded_def indexed_def IndexByName_filter filter_empty_conv split: list.splits)
  ultimately show ?thesis
    using assms(1) indexed_add [of "v\<lparr>ws_Settings := s\<rparr>" p] v' by (auto simp: loaded_def addProject_def)
qed

definition emptyWorkspace :: "string \<Rightarrow> Manifest option \<Rightarrow> RepoSettings \<Rightarrow> WorkProject \<Rightarrow> RepoWorkSpace" where
  "emptyWorkspace root m s mp = \<lparr>RootDir = root, ws_Manifest = m, ws_Settings = s, ManifestProject = mp, ws_Projects = [],
     projectByName = Map.empty, projectByPath = Map.empty\<rparr>"

lemma emptyWorkspace_loaded: "loaded (Mirror s) (emptyWorkspace root m s mp)"
  by (simp add: loaded_def indexed_def IndexByName_simps IndexByPath_simps emptyWorkspace_def)

lemma loadProjects_fold:
  assumes "loadProjects env cc mc root m url = Inr v"
  shows "\<exists>s mp all. foldM_result (loadStep env (Mirror s)) (emptyWorkspace root m s mp) all = Inr v"
proof (cases m)
  case None
  then obtain s mp where "v = emptyWorkspace root m s mp" using assms
    by (auto simp: loadProjects_def Let_def result_simps emptyWorkspace_def split: if_splits)
  then show ?thesis by (intro exI [of _ s] exI [of _ mp] exI [of _ "[]"]) simp
next
  case (Some mf)
  obtain s mp c where n: "NewManifestProject env cc mc root url = Inr (s, mp)" "Config mc mp = Inr c"
    using assms by (auto simp: loadProjects_def result_simps)
  have "\<exists>all. foldM_result (loadStep env (Mirror s)) (emptyWorkspace root m s mp) all = Inr v"
    using assms n Some by (cases "Mirror s") (auto simp: loadProjects_def Let_def result_simps emptyWorkspace_def split: if_splits)
  then show ?thesis by blast
qed

lemma loadProjects_loaded: "loadProjects env cc mc root m url = Inr v \<Longrightarrow> \<exists>mirror. loaded mirror v"
proof -
  assume "loadProjects env cc mc root m url = Inr v"
  then obtain s mp all where "foldM_result (loadStep env (Mirror s)) (emptyWorkspace root m s mp) all = Inr v"
    using loadProjects_fold by blast
  from foldM_result_invariant [where P = "loaded (Mirror s)", OF this emptyWorkspace_loaded] loadStep_loaded
  show ?thesis by blast
qed

text \<open>
  Property C18. After loading, the two indexes of a workspace are exactly the indexes of its list
  of projects: a name is mapped to all projects of that name in their order, a path to its
  project. In a mirror no two projects have the same name.
\<close>

theorem loadProjects_indexes:
  assumes "loadProjects env cc mc root m url = Inr v"
  shows "projectByName v = IndexByName (ws_Projects v) \<and> projectByPath v = IndexByPath (ws_Projects v) \<and>
    (\<forall>n. projectByName v n = (case filter (\<lambda>p. pName p = n) (ws_Projects v) of [] \<Rightarrow> None | ps \<Rightarrow> Some ps)) \<and>
    (Mirror (ws_Settings v) \<longrightarrow> distinct (map pName (ws_Projects v)))"
proof -
  obtain mirror where "loaded mirror v" using loadProjects_loaded [OF assms] by blast
  then show ?thesis by (auto simp: loaded_def indexed_def IndexByName_filter)
qed

definition two_projects :: Manifest where
  "two_projects = empty_manifest\<lparr>Remotes := [sample_remote], mDefault := Some \<lparr>df_RemoteName = rm_Name sample_remote, df_Revision = ''m'',
     df_DestBranch = [], df_Upstream = [], df_Override = False, df_SyncJ = 0, df_SyncC = [], df_SyncS = [], df_SyncTags = []\<rparr>,
     Projects := [Project (empty_attrs\<lparr>Name := ''a'', Path := ''p''\<rparr>) [], Project (empty_attrs\<lparr>Name := ''b'', Path := ''q''\<rparr>) []]\<rparr>"

theorem loadProjects_indexes_witness:
  "\<exists>v. loadProjects sample_penv plain_codec sample_machine ''/t'' (Some two_projects) ''http://h/m'' = Inr v \<and>
     length (ws_Projects v) = 2 \<and> projectByPath v = IndexByPath (ws_Projects v)"
proof -
  have "case loadProjects sample_penv plain_codec sample_machine ''/t'' (Some two_projects) ''http://h/m'' of
      Inr v \<Rightarrow> length (ws_Projects v) = 2 | Inl _ \<Rightarrow> False" by code_simp
  then obtain v where v: "loadProjects sample_penv plain_codec sample_machine ''/t'' (Some two_projects) ''http://h/m'' = Inr v"
    "length (ws_Projects v) = 2" by (auto split: sum.splits)
  from loadProjects_indexes [OF v(1)] v show ?thesis by blast
qed

section \<open>Freezing\<close>

interpretation freeze: project_visitor "freezeProject_Process mc v fillUpstream" for mc v fillUpstream
  by unfold_locales
    (auto simp: freezeProject_Process_def frozenAttrs_def Let_def split: option.splits sum.splits)

text \<open>The revision a project of the manifest is pinned to.\<close>

definition pinned :: "machine \<Rightarrow> RepoWorkSpace \<Rightarrow> ProjectAttrs \<Rightarrow> string" where
  "pinned mc v a =
     (case projectByPath v (Path a) of None \<Rightarrow> Revision a
      | Some p \<Rightarrow>
        (case ResolveRevision mc p (if Mirror (ws_Settings v) then Revision (mproject p) else ''HEAD'') of
           Inl _ \<Rightarrow> Revision a | Inr i \<Rightarrow> i))"

lemma freeze_top:
  assumes "execute (freezeProject_Process mc v fill) [] 0 p = Inr q"
  shows "Revision (attrs q) = pinned mc v (attrs p) \<and> Name (attrs q) = Name (attrs p) \<and> Path (attrs q) = Path (attrs p)"
  using assms
  by (auto simp: execute.simps [of _ "[]"] freezeProject_Process_def pinned_def frozenAttrs_def Let_def result_simps
      split: option.splits sum.splits if_splits)

text \<open>
  Property C19. Freezing a manifest pins its projects: unless projects are nested more than eleven
  deep (an error), the result has the same projects at the same places, and the revision of each
  top-level project is the commit of its HEAD (in a mirror, of its revision), or what it was when
  the project is not in the workspace or its commit cannot be found.
\<close>

theorem FreezeManifest_pins:
  assumes "ws_Manifest v = Some m"
  shows "if \<forall>p \<in> set (Projects m). project_depth p \<le> Suc maxRecursiveDepth
    then \<exists>m'. FreezeManifest mc v fill = Inr (v\<lparr>ws_Manifest := Some m'\<rparr>) \<and>
       list_all2 same_shape (Projects m) (Projects m') \<and>
       map (\<lambda>p. Revision (attrs p)) (Projects m') = map (\<lambda>p. pinned mc v (attrs p)) (Projects m)
    else FreezeManifest mc v fill = Inl (Error ''recursive is to deep'')"
proof -
  note out = freeze.visit_outcome [of m mc v fill]
  have pins: "map (\<lambda>p. Revision (attrs p)) qs = map (\<lambda>p. pinned mc v (attrs p)) ps"
    if "mapM_result (execute (freezeProject_Process mc v fill) [] 0) ps = Inr qs" for ps qs
    using that by (induction ps arbitrary: qs) (auto simp: result_simps dest: freeze_top)
  have "ProjectHandle (freezeProject_Process mc v fill) m = Inr m' \<Longrightarrow>
      map (\<lambda>p. Revision (attrs p)) (Projects m') = map (\<lambda>p. pinned mc v (attrs p)) (Projects m)" for m'
    using pins by (auto simp: ProjectHandle_def result_simps)
  then show ?thesis using out assms by (auto simp: FreezeManifest_def split: if_splits)
qed

theorem FreezeManifest_pins_witness:
  "let v = sample_ws\<lparr>ws_Manifest := Some two_projects, projectByPath := [''p'' \<mapsto> sample_work]\<rparr>;
       mc = sample_machine\<lparr>mc_Resolve := (\<lambda>_ _. Inr ''7'')\<rparr>
   in \<exists>m'. FreezeManifest mc v False = Inr (v\<lparr>ws_Manifest := Some m'\<rparr>) \<and> map (\<lambda>p. Revision (attrs p)) (Projects m') = [''7'', []]"
proof -
  let ?v = "sample_ws\<lparr>ws_Manifest := Some two_projects, projectByPath := [''p'' \<mapsto> sample_work]\<rparr>"
  let ?mc = "sample_machine\<lparr>mc_Resolve := (\<lambda>_ _. Inr ''7'')\<rparr>"
  have "\<forall>p \<in> set (Projects two_projects). project_depth p \<le> Suc maxRecursiveDepth" by code_simp
  moreover have "map (\<lambda>p. pinned ?mc ?v (attrs p)) (Projects two_projects) = [''7'', []]" by code_simp
  ultimately show ?thesis
    using FreezeManifest_pins [of ?v two_projects ?mc False] by (auto simp: Let_def)
qed

end
