(* ===== verification/Event_Pool.thy ===== *)
theory Event_Pool
  imports "HOL-Library.Multiset"
begin

text \<open>
  Goroutines as an event system: a step function says in which state an event is possible and
  what it does, and a run is any sequence of possible events, that is any interleaving. The
  locale \<open>terminating_pool\<close> is the contract of a pool of goroutines with a main goroutine that
  waits for it: an invariant, a rank that every event lowers, and an enabled event as long as
  main has not got what it waits for. Its lemmas are the facts the two halves of a
  synchronisation share: every run keeps the invariant, is bounded, and can only stop when main
  is through.
\<close>

fun runs :: "('e \<Rightarrow> 's \<Rightarrow> 's option) \<Rightarrow> 'e list \<Rightarrow> 's \<Rightarrow> 's option" where
  "runs step [] s = Some s"
| "runs step (e # es) s = (case step e s of None \<Rightarrow> None | Some s' \<Rightarrow> runs step es s')"

text \<open>No event is possible.\<close>

definition stuck :: "('e \<Rightarrow> 's \<Rightarrow> 's option) \<Rightarrow> 's \<Rightarrow> bool" where
  "stuck step s \<longleftrightarrow> (\<forall>e. step e s = None)"

lemma runs_append:
  "runs step (es @ fs) s = (case runs step es s of None \<Rightarrow> None | Some s' \<Rightarrow> runs step fs s')"
  by (induction es arbitrary: s) (auto split: option.splits)

text \<open>A property of states that every event keeps.\<close>

lemma runs_keeps:
  assumes "\<And>e s s'. good s \<Longrightarrow> step e s = Some s' \<Longrightarrow> good s'"
  shows "good s \<Longrightarrow> runs step es s = Some s' \<Longrightarrow> good s'"
  using assms by (induction es arbitrary: s) (auto split: option.splits)

locale terminating_pool =
  fixes step :: "'e \<Rightarrow> 's \<Rightarrow> 's option" and good :: "'s \<Rightarrow> bool" and rank :: "'s \<Rightarrow> nat" and over :: "'s \<Rightarrow> bool"
  assumes keeps: "good s \<Longrightarrow> step e s = Some s' \<Longrightarrow> good s'"
    and lowers: "good s \<Longrightarrow> step e s = Some s' \<Longrightarrow> rank s' < rank s"
    and enabled: "good s \<Longrightarrow> \<not> over s \<Longrightarrow> \<exists>e. step e s \<noteq> None"
begin

lemma run_inv: "good s \<Longrightarrow> runs step es s = Some s' \<Longrightarrow> good s'"
  by (rule runs_keeps [of good step]) (rule keeps)

lemma run_bounded: "good s \<Longrightarrow> runs step es s = Some s' \<Longrightarrow> length es + rank s' \<le> rank s"
proof (induction es arbitrary: s)
  case (Cons e es)
  then obtain s1 where s1: "step e s = Some s1" "runs step es s1 = Some s'" by (auto split: option.splits)
  from Cons.IH [OF keeps [OF Cons.prems(1) s1(1)] s1(2)] lowers [OF Cons.prems(1) s1(1)] show ?case by simp
qed simp

lemma run_stops: "good s \<Longrightarrow> runs step es s = Some s' \<Longrightarrow> stuck step s' \<Longrightarrow> over s'"
  using enabled [OF run_inv [of s es s']] by (auto simp: stuck_def)

text \<open>From every state main can get through.\<close>

lemma run_completes: "good s \<Longrightarrow> \<exists>es s'. runs step es s = Some s' \<and> over s'"
proof (induction "rank s" arbitrary: s rule: less_induct)
  case less
  show ?case
  proof (cases "over s")
    case True
    then have "runs step [] s = Some s \<and> over s" by simp
    then show ?thesis by blast
  next
    case False
    then obtain e s1 where e: "step e s = Some s1" using enabled [OF less.prems] by auto
    obtain es s' where "runs step es s1 = Some s'" "over s'"
      using less.hyps [OF lowers [OF less.prems e] keeps [OF less.prems e]] by auto
    with e have "runs step (e # es) s = Some s' \<and> over s'" by simp
    then show ?thesis by blast
  qed
qed

end

end
