(* ===== verification/Network_Half.thy ===== *)
theory Network_Half
  imports Local_Half_Proofs
begin

text \<open>
  Creating repositories (project/init.go) and the network half of a synchronisation
  (project/network-half.go): the fetch command, archives, and the property that what is fetched
  is what the local half resolves.
\<close>

section \<open>Initialisation (project/init.go)\<close>

definition IsRepoInitialized :: "machine \<Rightarrow> WorkProject \<Rightarrow> bool" where
  "IsRepoInitialized mc v \<longleftrightarrow>
     (ObjectsGitDir v \<noteq> [] \<longrightarrow> IsGitDir (mc_host mc) (ObjectsGitDir v)) \<and> IsGitDir (mc_host mc) (GitDir v)"

definition makeMissing :: "action \<Rightarrow> string \<Rightarrow> unit op" where
  "makeMissing a p = bnd (look (\<lambda>mc. Exist (mc_host mc) p)) (\<lambda>there. doIf (\<not> there) (perform a))"

text \<open>The files are those of a map of the code, which has no order.\<close>

definition initMissing :: "'a Repository_scheme \<Rightarrow> unit op" where
  "initMissing v =
     bnd (look (\<lambda>mc. h_Stat (mc_host mc) (GitDir v))) (\<lambda>st. case st of
       Inl e \<Rightarrow> fail e
     | Inr _ \<Rightarrow>
         andThen (each (\<lambda>d. let p = Join [GitDir v, d] in makeMissing (MkdirAll p) p)
                    [''hooks'', ''branches'', ''hooks'', ''info'', ''refs''])
         (andThen (each (\<lambda>(n, content). let p = Join [GitDir v, n] in makeMissing (WriteFile p content) p)
                    [(''description'', ''Repository: '' @ pName v @ '', path: '' @ GitDir v @ [CHR 0x0A]),
                     (''config'', ''[core]'' @ [CHR 0x0A, CHR 0x09] @ ''repositoryformatversion = 0'' @ [CHR 0x0A]),
                     (''HEAD'', ''ref: refs/heads/master'' @ [CHR 0x0A])])
           (if IsBare v then ret ()
            else bnd (lookR (\<lambda>mc. Config mc v)) (\<lambda>_. ignore (Repo_SaveConfig v (workTreeKeys v))))))"

text \<open>The error, if there is one, and the object, which keeps the address even if it could not be saved.\<close>

definition Repository_Init :: "'a Repository_scheme \<Rightarrow> string \<Rightarrow> string \<Rightarrow> string \<Rightarrow> (string option \<times> 'a Repository_scheme) op" where
  "Repository_Init v remoteName remoteURL0 referenceGitDir =
     bnd (attempt (perform (Run [] [''git'', ''init'', ''-q'', ''--bare'', GitDir v]))) (\<lambda>r. case r of
       Inl e \<Rightarrow> ret (Some e, v)
     | Inr _ \<Rightarrow>
       andThen (if IsBare v then ret ()
                else bnd (lookR (\<lambda>mc. Config mc v)) (\<lambda>_. ignore (Repo_SaveConfig v (workTreeKeys v))))
       (bnd (if remoteName \<noteq> [] \<and> remoteURL0 \<noteq> [] then
               let url = withDotGit remoteURL0 in
               bnd (lookR (\<lambda>mc. GitConfigRemoteURL mc v remoteName)) (\<lambda>u.
                 if u \<noteq> url then
                   bnd (attempt (setRemote v remoteName url)) (\<lambda>r2.
                     ret (case r2 of Inl e \<Rightarrow> Some e | Inr _ \<Rightarrow> None, v\<lparr>Repository.RemoteURL := url\<rparr>))
                 else ret (None, v))
             else ret (None, v)) (\<lambda>(err, v').
         andThen (doIf (err = None) (setAlternates v' referenceGitDir)) (ret (err, v')))))"

text \<open>Links to the parts of the shared repository; the first that cannot be made ends the loop.\<close>

fun linkItems :: "string \<Rightarrow> string \<Rightarrow> string list \<Rightarrow> unit op" where
  "linkItems fromDir toDir [] = ret ()"
| "linkItems fromDir toDir (item # items) =
     (let source = Join [fromDir, item]; target = Join [toDir, item] in
      bnd (look (\<lambda>mc. Exist (mc_host mc) source)) (\<lambda>there.
        if \<not> there then linkItems fromDir toDir items
        else bnd (attempt (perform (Symlink (case Rel toDir source of None \<Rightarrow> source | Some r \<Rightarrow> r) target)))
          (\<lambda>r. case r of Inl _ \<Rightarrow> ret () | Inr _ \<Rightarrow> linkItems fromDir toDir items)))"

definition InitByLink :: "'a Repository_scheme \<Rightarrow> string \<Rightarrow> string \<Rightarrow> Repository \<Rightarrow> 'a Repository_scheme op" where
  "InitByLink v remoteName remoteURL repo =
     bnd (look (\<lambda>mc. Repository_Exists mc repo)) (\<lambda>there.
       if \<not> there then fail (Error (''attach a non-exist repo: '' @ GitDir repo))
       else andThen (ignore (initMissing repo))
         (if GitDir repo = GitDir v then ret v
          else andThen (perform (MkdirAll (GitDir v)))
            (andThen (linkItems (GitDir repo) (GitDir v) [''objects'', ''description'', ''info'', ''hooks'', ''svn'', ''rr-cache''])
              (bnd (Repository_Init v remoteName remoteURL []) (\<lambda>(_, v'). ret v')))))"

text \<open>The errors of the initialisation are dropped; the fetch that follows finds them.\<close>

definition orElse :: "'a op \<Rightarrow> 'a \<Rightarrow> 'a op" where
  "orElse m x = bnd (attempt m) (\<lambda>r. case r of Inl _ \<Rightarrow> ret x | Inr y \<Rightarrow> ret y)"

definition GitInit :: "penv \<Rightarrow> RepoSettings \<Rightarrow> WorkProject \<Rightarrow> WorkProject op" where
  "GitInit env s v =
     (case snd (GetRemoteURL env s v) of
        Inl e \<Rightarrow> fail e
      | Inr url \<Rightarrow>
        (case ObjectsRepository v of
           Some objectsRepo \<Rightarrow>
             if GitDir v \<noteq> GitDir objectsRepo then
               andThen (ignore (Repository_Init objectsRepo [] [] []))
                 (orElse (InitByLink v (ProjectAttrs.RemoteName (mproject v)) url objectsRepo) v)
             else bnd (Repository_Init v (ProjectAttrs.RemoteName (mproject v)) url []) (\<lambda>(_, v'). ret v')
         | None \<Rightarrow> bnd (Repository_Init v (ProjectAttrs.RemoteName (mproject v)) url []) (\<lambda>(_, v'). ret v')))"

section \<open>Fetching (project/network-half.go)\<close>

record FetchOptions =
  fo_Depth :: int
  fo_Archive :: bool
  fo_Mirror :: bool
  fo_Submodules :: bool
  fo_Quiet :: bool
  CurrentBranchOnly :: bool
  CloneBundle :: bool
  NoTags :: bool
  OptimizedFetch :: bool
  fo_Prune :: bool

definition FetchOptions0 :: FetchOptions where
  "FetchOptions0 = \<lparr>fo_Depth = 0, fo_Archive = False, fo_Mirror = False, fo_Submodules = False, fo_Quiet = False,
     CurrentBranchOnly = False, CloneBundle = False, NoTags = False, OptimizedFetch = False, fo_Prune = False\<rparr>"

text \<open>No depth in a mirror; a depth implies the current branch only.\<close>

definition normOptions :: "FetchOptions \<Rightarrow> FetchOptions" where
  "normOptions fo =
     (let fo1 = (if fo_Mirror fo \<and> fo_Depth fo > 0 then fo\<lparr>fo_Depth := 0\<rparr> else fo) in
      if fo_Depth fo1 > 0 then fo1\<lparr>CurrentBranchOnly := True\<rparr> else fo1)"

definition linkReference :: "'a Repository_scheme \<Rightarrow> unit op" where
  "linkReference v =
     (let altFile = Join [GitDir v, ''objects'', ''info'', ''alternates'']; objects = Join [Reference v, ''objects''] in
      andThen (ignore (perform (MkdirAll (Dir altFile))))
        (ignore (perform (WriteFile altFile
           ((case Rel (Join [GitDir v, ''objects'']) objects of None \<Rightarrow> objects | Some r \<Rightarrow> r) @ [CHR 0x0A])))))"

definition fetchSpec :: "'a Repository_scheme \<Rightarrow> FetchOptions \<Rightarrow> string \<Rightarrow> string" where
  "fetchSpec v fo revision =
     (let remote = ProjectAttrs.RemoteName (mproject v) in
      if CurrentBranchOnly fo then
        if IsSha revision then revision
        else if IsTag revision then ''+'' @ revision @ '':'' @ revision
        else if HasPrefix revision ''refs/heads/'' \<or> \<not> HasPrefix revision ''refs/'' then
          let branch = TrimPrefix revision ''refs/heads/'' in
          if IsBare v then ''+refs/heads/'' @ branch @ '':refs/heads/'' @ branch
          else ''+refs/heads/'' @ branch @ '':refs/remotes/'' @ remote @ ''/'' @ branch
        else ''+'' @ revision @ '':'' @ revision
      else if IsBare v then ''+refs/heads/*:refs/heads/*''
      else ''+refs/heads/*:refs/remotes/'' @ remote @ ''/*'')"

definition fetchArgs :: "bool \<Rightarrow> 'a Repository_scheme \<Rightarrow> FetchOptions \<Rightarrow> string \<Rightarrow> string list" where
  "fetchArgs shallow v fo revision =
     [''git'', ''fetch''] @
     (if fo_Depth fo > 0 then [''--depth='' @ Itoa (fo_Depth fo)] else if shallow then [''--unshallow''] else []) @
     (if fo_Quiet fo then [''--quiet''] else []) @
     (if NoTags fo \<or> fo_Depth fo > 0 then [''--no-tags''] else [''--tags'']) @
     (if fo_Prune fo then [''--prune''] else []) @
     (if fo_Submodules fo then [''--recurse-submodules=on-demand''] else []) @
     [Repository.RemoteURL v, fetchSpec v fo revision]"

text \<open>Whether nothing has to be fetched for a fixed revision that is present.\<close>

definition alreadyThere :: "machine \<Rightarrow> 'a Repository_scheme \<Rightarrow> FetchOptions \<Rightarrow> string \<Rightarrow> bool" where
  "alreadyThere mc v fo revision \<longleftrightarrow>
     RevisionIsValid mc v revision \<and>
     (OptimizedFetch fo \<and> IsSha revision \<or>
      CurrentBranchOnly (normOptions fo) \<and> (IsSha revision \<or> IsTag revision))"

definition Fetch :: "bool \<Rightarrow> 'a Repository_scheme \<Rightarrow> string \<Rightarrow> FetchOptions \<Rightarrow> unit op" where
  "Fetch dissociate v remote fo =
     bnd (look (\<lambda>mc. isUnborn mc v \<and> Reference v \<noteq> [] \<and> IsGitDir (mc_host mc) (Reference v))) (\<lambda>link.
     bnd (look (\<lambda>mc. link \<or> HasAlternates mc v)) (\<lambda>hasAlternates.
     andThen (doIf link (linkReference v))
     (if Repository.RemoteURL v = []
      then fail (Error (''don'' @ [CHR 0x27] @ ''t know where to fetch repo '' @ pName v @ '' from remote '' @ remote))
      else bnd (if Revision (mproject v) = [] then lookR (\<lambda>mc. TrackBranch mc v []) else ret (Revision (mproject v))) (\<lambda>r.
        let revision = (if r = [] then ''master'' else r) in
        bnd (look (\<lambda>mc. alreadyThere mc v fo revision)) (\<lambda>there.
        if there then ret ()
        else bnd (look (\<lambda>mc. (RepoDir mc v, Exist (mc_host mc) (Join [RepoDir mc v, ''shallow''])))) (\<lambda>(dir, shallow).
          andThen (wrapErr (\<lambda>e. ''fail to fetch project '' @ sq (pName v) @ '': '' @ e)
                    (executeCommandIn dir (fetchArgs shallow v (normOptions fo) revision)))
            (doIf (hasAlternates \<and> dissociate)
              (bnd (look (\<lambda>mc. RepoDir mc v)) (\<lambda>d.
                 wrapErr (\<lambda>e. ''fail to repack '' @ sq (pName v) @ '': '' @ e)
                   (executeCommandIn d [''git'', ''repack'', ''-a'', ''-d''])))))))))) "

definition fetchArchive :: "RepoSettings \<Rightarrow> WorkProject \<Rightarrow> string \<Rightarrow> string \<Rightarrow> unit op" where
  "fetchArchive s v url tarpath =
     executeCommandIn (TopDir s) [''git'', ''archive'', ''-v'', ''-o'', tarpath, ''--remote='' @ url,
       ''--prefix='' @ pPath v, Revision (mproject v)]"

definition extractArchive :: "RepoSettings \<Rightarrow> string \<Rightarrow> unit op" where
  "extractArchive s tarpath = executeCommandIn (TopDir s) [''tar'', ''-x'', ''-f'', tarpath]"

definition SyncNetworkHalf :: "penv \<Rightarrow> RepoSettings \<Rightarrow> WorkProject \<Rightarrow> FetchOptions option \<Rightarrow> unit op" where
  "SyncNetworkHalf env s v opts =
     (let fo = (case opts of None \<Rightarrow> FetchOptions0 | Some x \<Rightarrow> x) in
      case snd (GetRemoteURL env s v) of
        Inl e \<Rightarrow> fail e
      | Inr url \<Rightarrow>
        if fo_Archive fo \<and> \<not> isMetaProject (mproject v) then
          if HasPrefix url ''http://'' \<or> HasPrefix url ''https://''
          then fail (Error (pName v @ '': Cannot fetch archives from http/https remotes''))
          else
            let tarpath = map (\<lambda>c. if c = CHR ''/'' then CHR ''_'' else c) (pName v) @ ''.tar'' in
            andThen (wrapErr (\<lambda>e. ''fail to fetch tarball '' @ tarpath @ '': '' @ e) (fetchArchive s v url tarpath))
            (andThen (wrapErr (\<lambda>e. ''fail to extract tarball '' @ tarpath @ '': '' @ e) (extractArchive s tarpath))
            (andThen (wrapErr (\<lambda>e. ''cannot remove tarball '' @ tarpath @ '': '' @ e) (perform (Remove (Join [TopDir s, tarpath]))))
              (CopyAndLinkFiles s v)))
        else bnd (look (\<lambda>mc. Repository_Exists mc v)) (\<lambda>there.
          bnd (if there then ret v else orElse (GitInit env s v) v) (\<lambda>v'.
            Fetch (Dissociate s) v' (ProjectAttrs.RemoteName (mproject v)) fo)))"

section \<open>What is fetched is what is resolved\<close>

text \<open>The reference a fetch specification \<open>+src:dst\<close> writes for the reference \<open>src\<close>; a star stands
  for the part of a name.\<close>

definition fetchTarget :: "string \<Rightarrow> string \<Rightarrow> string option" where
  "fetchTarget spec ref =
     (case CutFirst spec '':'' of
        None \<Rightarrow> None
      | Some (lhs, rhs) \<Rightarrow>
        let src = TrimPrefix lhs ''+'' in
        if HasSuffix src ''*'' then
          (if HasPrefix ref (butlast src) then Some (butlast rhs @ TrimPrefix ref (butlast src)) else None)
        else if ref = src then Some rhs else None)"

text \<open>The reference on the server that a revision of the manifest names.\<close>

definition serverRef :: "string \<Rightarrow> string" where
  "serverRef r = (if IsRef r then r else RefsHeads @ r)"

lemma CutFirst_colon:
  "CHR '':'' \<notin> set a \<Longrightarrow> CutFirst (a @ '':'' @ b) '':'' = Some (a, b)"
  by (induction a) (auto simp: HasPrefix_def)

lemma fetchTarget_single:
  assumes "CHR '':'' \<notin> set src" and "\<not> HasSuffix src ''*''"
  shows "fetchTarget (''+'' @ src @ '':'' @ dst) src = Some dst"
  using CutFirst_colon [of "''+'' @ src" dst] assms by (simp add: fetchTarget_def TrimPrefix_def HasPrefix_def)

lemma fetchTarget_heads:
  "fetchTarget (''+refs/heads/*:refs/remotes/'' @ remote @ ''/*'') ref =
     (if HasPrefix ref RefsHeads then Some (RefsRemotes @ remote @ ''/'' @ TrimPrefix ref RefsHeads) else None)"
proof -
  have "CutFirst (''+refs/heads/*'' @ '':'' @ ''refs/remotes/'' @ remote @ ''/*'') '':'' =
      Some (''+refs/heads/*'', ''refs/remotes/'' @ remote @ ''/*'')"
    by (rule CutFirst_colon) simp
  moreover have "TrimPrefix ''+refs/heads/*'' ''+'' = ''refs/heads/*''" "HasSuffix ''refs/heads/*'' ''*''" by code_simp+
  ultimately show ?thesis
    by (simp add: fetchTarget_def RefsHeads_def RefsRemotes_def butlast_append)
qed

lemma trackingRef_branch:
  assumes "\<not> IsSha r" and "\<not> IsRef (TrimPrefix r RefsHeads)"
  shows "trackingRef v r = RefsRemotes @ ProjectAttrs.RemoteName (mproject v) @ ''/'' @ TrimPrefix r RefsHeads"
proof -
  have "(if IsHead r then TrimPrefix r RefsHeads else r) = TrimPrefix r RefsHeads"
    by (simp add: IsHead_def TrimPrefix_no)
  then show ?thesis using assms by (simp add: trackingRef_def IsRef_def RefsPrefix_def)
qed

lemma trackingRef_other: "IsRef r \<Longrightarrow> \<not> IsHead r \<Longrightarrow> trackingRef v r = r"
  by (auto simp: trackingRef_def IsRef_def RefsPrefix_def dest: IsSha_not_IsRef)

lemma serverRef_branch: "IsHead r \<or> \<not> IsRef r \<Longrightarrow> serverRef r = RefsHeads @ TrimPrefix r RefsHeads"
  by (cases "HasPrefix r RefsHeads")
    (use IsHead_IsRef [of r] in \<open>auto simp: serverRef_def IsHead_def append_TrimPrefix TrimPrefix_no\<close>)

lemma HasSuffix_star: "HasSuffix s ''*'' \<longleftrightarrow> s \<noteq> [] \<and> last s = CHR ''*''"
  by (cases s rule: rev_cases) (auto simp: HasSuffix_def suffix_def)

text \<open>
  Property C14. The network half and the local half agree. For a project with a work tree whose
  revision is the name of a branch, the reference the fetch command writes for it is the reference
  the local half resolves, whether all branches or only the current one are fetched. For a tag or
  another reference this holds if only the current revision is fetched; a fetch of all branches
  does not name it (tags are left to the option \<open>--tags\<close>, other references are not fetched).
\<close>

theorem Fetch_updates_tracking:
  assumes "\<not> IsBare v" and "\<not> IsSha r" and "r \<noteq> []" and "CHR '':'' \<notin> set r" and "last r \<noteq> CHR ''*''"
    and "IsHead r \<longrightarrow> \<not> IsRef (TrimPrefix r RefsHeads)"
  shows "fetchTarget (fetchSpec v fo r) (serverRef r) =
     (if CurrentBranchOnly fo \<or> IsHead r \<or> \<not> IsRef r then Some (trackingRef v r) else None)"
proof (cases "IsHead r \<or> \<not> IsRef r")
  case branch: True
  let ?b = "TrimPrefix r RefsHeads"
  have b: "\<not> IsRef ?b" using branch assms(6) by (auto simp: IsHead_def TrimPrefix_no)
  have tags: "\<not> IsTag r" using branch by (auto dest: IsHead_not_IsTag IsTag_IsRef)
  have r: "serverRef r = RefsHeads @ ?b" using branch by (rule serverRef_branch)
  have last: "last (RefsHeads @ ?b) = (if ?b = [] then CHR ''/'' else last r)"
    by (auto simp: TrimPrefix_def HasPrefix_def RefsHeads_def prefix_def)
  have colon: "CHR '':'' \<notin> set (RefsHeads @ ?b)" using assms(4)
    by (auto simp: TrimPrefix_def RefsHeads_def dest: in_set_dropD)
  show ?thesis
  proof (cases "CurrentBranchOnly fo")
    case True
    then have "fetchSpec v fo r = ''+'' @ (RefsHeads @ ?b) @ '':'' @ (RefsRemotes @ ProjectAttrs.RemoteName (mproject v) @ ''/'' @ ?b)"
      using branch assms(1,2) tags
      by (auto simp: fetchSpec_def IsHead_def IsRef_def RefsHeads_def RefsRemotes_def Let_def)
    then show ?thesis
      using fetchTarget_single [OF colon] last assms(5) branch trackingRef_branch [OF assms(2) b]
      by (simp add: r HasSuffix_star split: if_splits)
  next
    case False
    then have "fetchSpec v fo r = ''+refs/heads/*:refs/remotes/'' @ ProjectAttrs.RemoteName (mproject v) @ ''/*''"
      using assms(1) by (simp add: fetchSpec_def Let_def)
    then show ?thesis using branch trackingRef_branch [OF assms(2) b] by (simp only: r fetchTarget_heads) simp
  qed
next
  case False
  then have ref: "serverRef r = r" "IsRef r" "\<not> IsHead r" by (auto simp: serverRef_def)
  show ?thesis
  proof (cases "CurrentBranchOnly fo")
    case True
    then have "fetchSpec v fo r = ''+'' @ r @ '':'' @ r"
      using ref assms(2) by (auto simp: fetchSpec_def IsHead_def IsRef_def RefsHeads_def Let_def)
    then show ?thesis using True fetchTarget_single [OF assms(4)] assms(3,5) ref trackingRef_other [OF ref(2,3)]
      by (simp add: HasSuffix_star)
  next
    case False
    then have "fetchSpec v fo r = ''+refs/heads/*:refs/remotes/'' @ ProjectAttrs.RemoteName (mproject v) @ ''/*''"
      using assms(1) by (simp add: fetchSpec_def Let_def)
    then show ?thesis using False ref by (simp only: ref(1) fetchTarget_heads) (simp add: IsHead_def)
  qed
qed

theorem Fetch_updates_tracking_witness:
  "fetchTarget (fetchSpec sample_work FetchOptions0 ''main'') (serverRef ''main'') = Some (trackingRef sample_work ''main'')"
proof -
  have "\<not> IsBare sample_work" "\<not> IsSha ''main''" "\<not> IsHead ''main''" "\<not> IsRef ''main''" by code_simp+
  then show ?thesis using Fetch_updates_tracking [of sample_work "''main''" FetchOptions0] by simp
qed

end
