(* ===== verification/Sync_Network.thy ===== *)
theory Sync_Network
  imports Event_Pool Network_Half Workspace_Proofs
begin

text \<open>
  The network half of the command sync (cmd/sync.go, NetworkHalf): a goroutine sends the names
  of the projects into a channel, workers fetch the projects of the names they receive and send
  one result per project into a second channel, and the main goroutine receives as many results
  as there are names. The channels hold as many elements as there are workers. A call of
  SyncNetworkHalf is one event, performed at the actions done so far by all workers.
\<close>

section \<open>The goroutines\<close>

text \<open>A worker waits for a name, has projects to fetch, or has a result to send and further
  projects to fetch.\<close>

datatype 'p net_worker = NWaiting | NBusy 'p "'p list" | NHolding "string option" "'p list" | NStopped

record 'p net_pool =
  np_Left :: "string list"             \<comment> \<open>names still to be sent\<close>
  np_Closed :: bool                    \<comment> \<open>close(jobTasks)\<close>
  np_Tasks :: "string list"            \<comment> \<open>jobTasks\<close>
  np_Workers :: "'p net_worker list"
  np_Results :: "string option list"   \<comment> \<open>jobResults; None is a nil error\<close>
  np_Received :: nat
  np_Errs :: "string list"
  np_Trace :: "action list"
  np_Synced :: "('p \<times> string option) list"  \<comment> \<open>the finished calls and their errors\<close>
  np_Exit :: "go_error option"         \<comment> \<open>a fatal error or a panic ended the process\<close>

datatype net_event = NFeed | NClose | NTake nat | NStop nat | NSync nat | NSend nat | NReceive

definition atWork :: "'p list \<Rightarrow> 'p net_worker" where
  "atWork ps = (case ps of [] \<Rightarrow> NWaiting | p # qs \<Rightarrow> NBusy p qs)"

text \<open>The call of SyncNetworkHalf for one project; \<open>job\<close> is the operation.\<close>

definition netSync :: "world \<Rightarrow> ('p \<Rightarrow> unit op) \<Rightarrow> nat \<Rightarrow> 'p \<Rightarrow> 'p list \<Rightarrow> 'p net_pool \<Rightarrow> 'p net_pool" where
  "netSync w job i p ps s =
     (case job p w (np_Trace s) of
        (tr, Inr _) \<Rightarrow> s\<lparr>np_Trace := tr, np_Workers := (np_Workers s)[i := NHolding None ps], np_Synced := np_Synced s @ [(p, None)]\<rparr>
      | (tr, Inl (Error e)) \<Rightarrow> s\<lparr>np_Trace := tr, np_Workers := (np_Workers s)[i := NHolding (Some e) ps], np_Synced := np_Synced s @ [(p, Some e)]\<rparr>
      | (tr, Inl e) \<Rightarrow> s\<lparr>np_Trace := tr, np_Exit := Some e\<rparr>)"

fun net_step :: "world \<Rightarrow> ('p \<Rightarrow> unit op) \<Rightarrow> (string \<Rightarrow> 'p list) \<Rightarrow> nat \<Rightarrow> nat \<Rightarrow> net_event \<Rightarrow> 'p net_pool \<Rightarrow> 'p net_pool option" where
  "net_step w job byName jobs wanted NFeed s =
     (case np_Left s of
        n # ns \<Rightarrow> if np_Exit s = None \<and> length (np_Tasks s) < jobs then Some (s\<lparr>np_Left := ns, np_Tasks := np_Tasks s @ [n]\<rparr>) else None
      | [] \<Rightarrow> None)"
| "net_step w job byName jobs wanted NClose s =
     (if np_Exit s = None \<and> np_Left s = [] \<and> \<not> np_Closed s then Some (s\<lparr>np_Closed := True\<rparr>) else None)"
| "net_step w job byName jobs wanted (NTake i) s =
     (case np_Tasks s of
        n # ns \<Rightarrow> if np_Exit s = None \<and> i < length (np_Workers s) \<and> np_Workers s ! i = NWaiting
                  then Some (s\<lparr>np_Tasks := ns, np_Workers := (np_Workers s)[i := atWork (byName n)]\<rparr>) else None
      | [] \<Rightarrow> None)"
| "net_step w job byName jobs wanted (NStop i) s =
     (if np_Exit s = None \<and> i < length (np_Workers s) \<and> np_Workers s ! i = NWaiting \<and> np_Tasks s = [] \<and> np_Closed s
      then Some (s\<lparr>np_Workers := (np_Workers s)[i := NStopped]\<rparr>) else None)"
| "net_step w job byName jobs wanted (NSync i) s =
     (if np_Exit s = None \<and> i < length (np_Workers s) then
        (case np_Workers s ! i of NBusy p ps \<Rightarrow> Some (netSync w job i p ps s) | _ \<Rightarrow> None)
      else None)"
| "net_step w job byName jobs wanted (NSend i) s =
     (if np_Exit s = None \<and> i < length (np_Workers s) \<and> length (np_Results s) < jobs then
        (case np_Workers s ! i of
           NHolding r ps \<Rightarrow> Some (s\<lparr>np_Workers := (np_Workers s)[i := atWork ps], np_Results := np_Results s @ [r]\<rparr>)
         | _ \<Rightarrow> None)
      else None)"
| "net_step w job byName jobs wanted NReceive s =
     (case np_Results s of
        r # rs \<Rightarrow> if np_Exit s = None \<and> np_Received s < wanted
                  then Some (s\<lparr>np_Results := rs, np_Received := np_Received s + 1,
                               np_Errs := np_Errs s @ (case r of None \<Rightarrow> [] | Some e \<Rightarrow> [e])\<rparr>) else None
      | [] \<Rightarrow> None)"

text \<open>Go iterates over the map of names in any order, here \<open>order\<close>.\<close>

definition jobCount :: "int \<Rightarrow> nat" where "jobCount jobs = (if jobs < 1 then 1 else nat jobs)"

definition net_start :: "nat \<Rightarrow> string list \<Rightarrow> action list \<Rightarrow> 'p net_pool" where
  "net_start jobs order tr =
     \<lparr>np_Left = order, np_Closed = False, np_Tasks = [], np_Workers = replicate jobs NWaiting, np_Results = [],
      np_Received = 0, np_Errs = [], np_Trace = tr, np_Synced = [], np_Exit = None\<rparr>"

definition net_returned :: "nat \<Rightarrow> 'p net_pool \<Rightarrow> bool" where
  "net_returned wanted s \<longleftrightarrow> np_Exit s = None \<and> np_Received s = wanted"

definition errorLines :: "string list \<Rightarrow> unit result" where
  "errorLines errs = (if errs = [] then Inr () else Inl (Error (concat (map (\<lambda>e. e @ [CHR 0x0A]) errs))))"

definition byName :: "WorkProject list \<Rightarrow> string \<Rightarrow> WorkProject list" where
  "byName ps n = (case IndexByName ps n of None \<Rightarrow> [] | Some qs \<Rightarrow> qs)"

text \<open>The state in which NetworkHalf returns with its result, for the events \<open>es\<close>.\<close>

definition NetworkHalf :: "world \<Rightarrow> penv \<Rightarrow> RepoSettings \<Rightarrow> FetchOptions \<Rightarrow> int \<Rightarrow> WorkProject list \<Rightarrow> string list \<Rightarrow> net_event list \<Rightarrow> action list \<Rightarrow> WorkProject net_pool option" where
  "NetworkHalf w env st fo jobs ps order es tr =
     runs (net_step w (\<lambda>p. SyncNetworkHalf env st p (Some fo)) (byName ps) (jobCount jobs) (length order)) es
       (net_start (jobCount jobs) order tr)"

section \<open>What is on its way\<close>

fun worker_left :: "'p net_worker \<Rightarrow> 'p list" where
  "worker_left (NBusy p ps) = p # ps"
| "worker_left (NHolding r ps) = ps"
| "worker_left _ = []"

fun worker_result :: "'p net_worker \<Rightarrow> string option list" where
  "worker_result (NHolding r ps) = [r]"
| "worker_result _ = []"

definition gather :: "('a \<Rightarrow> 'b list) \<Rightarrow> 'a list \<Rightarrow> 'b multiset" where
  "gather f xs = mset (concat (map f xs))"

lemma gather_simps [simp]:
  "gather f [] = {#}" "gather f (x # xs) = mset (f x) + gather f xs" "gather f (xs @ ys) = gather f xs + gather f ys"
  "gather f (replicate n x) = repeat_mset n (mset (f x))"
  by (simp_all add: gather_def) (induction n, auto)

lemma gather_update:
  assumes "i < length xs"
  shows "gather f (xs[i := x]) + mset (f (xs ! i)) = gather f xs + mset (f x)"
  using assms
proof (induction xs arbitrary: i)
  case (Cons y ys)
  then show ?case by (cases i) (auto simp: ac_simps)
qed simp

lemma gather_empty: "gather f xs = {#} \<longleftrightarrow> (\<forall>x \<in> set xs. f x = [])"
  by (induction xs) auto

lemma gather_ge: "\<forall>x \<in> set xs. f x \<noteq> [] \<Longrightarrow> length xs \<le> size (gather f xs)"
proof (induction xs)
  case (Cons x xs)
  then have "1 \<le> length (f x)" by (simp add: Suc_le_eq)
  with Cons show ?case by simp
qed simp

text \<open>The projects not fetched yet, the results that main has not received, and the errors of
  the finished calls.\<close>

definition pendingProjects :: "(string \<Rightarrow> 'p list) \<Rightarrow> 'p net_pool \<Rightarrow> 'p multiset" where
  "pendingProjects by s = gather worker_left (np_Workers s) + gather by (np_Tasks s) + gather by (np_Left s)"

definition pendingResults :: "'p net_pool \<Rightarrow> string option multiset" where
  "pendingResults s = mset (np_Results s) + gather worker_result (np_Workers s)"

definition errorsOf :: "string option multiset \<Rightarrow> string multiset" where
  "errorsOf rs = image_mset the (filter_mset (\<lambda>r. r \<noteq> None) rs)"

lemma errorsOf_simps [simp]:
  "errorsOf {#} = {#}" "errorsOf (A + B) = errorsOf A + errorsOf B"
  "errorsOf {#r#} = (case r of None \<Rightarrow> {#} | Some e \<Rightarrow> {#e#})"
  "errorsOf (add_mset r A) = (case r of None \<Rightarrow> {#} | Some e \<Rightarrow> {#e#}) + errorsOf A"
  by (auto simp: errorsOf_def split: option.splits)

lemma errorsOf_none: "errorsOf (mset rs) = {#} \<longleftrightarrow> (\<forall>r \<in> set rs. r = None)"
  by (induction rs) (auto split: option.splits)

text \<open>The invariant: nothing is lost between the channels.\<close>

definition net_good :: "(string \<Rightarrow> 'p list) \<Rightarrow> nat \<Rightarrow> string list \<Rightarrow> 'p net_pool \<Rightarrow> bool" where
  "net_good by jobs order s \<longleftrightarrow>
     0 < jobs \<and> length (np_Workers s) = jobs \<and> (\<forall>n \<in> set order. by n \<noteq> []) \<and>
     (NStopped \<in> set (np_Workers s) \<longrightarrow> np_Closed s \<and> np_Tasks s = []) \<and> (np_Closed s \<longrightarrow> np_Left s = []) \<and>
     (np_Exit s = None \<longrightarrow>
        pendingProjects by s + mset (map fst (np_Synced s)) = gather by order \<and>
        np_Received s + size (pendingResults s) = length (np_Synced s) \<and>
        mset (np_Errs s) + errorsOf (pendingResults s) = errorsOf (mset (map snd (np_Synced s))))"

text \<open>One worker singled out.\<close>

lemma worker_at:
  assumes "i < length xs" and "xs ! i = y"
  obtains us vs where "xs = us @ y # vs" and "\<And>x. xs[i := x] = us @ x # vs"
  using assms that [of "take i xs" "drop (Suc i) xs"] by (metis id_take_nth_drop upd_conv_take_nth_drop)

lemma worker_left_atWork [simp]: "worker_left (atWork ps) = ps" "worker_result (atWork ps) = []"
  by (simp_all add: atWork_def split: list.splits)

lemma atWork_runs [simp]: "atWork ps \<noteq> NStopped" "NStopped \<noteq> atWork ps"
  by (simp_all add: atWork_def split: list.splits)

text \<open>The events, with the worker that takes part singled out.\<close>

lemma net_stepE:
  assumes "net_step w job by jobs wanted e s = Some s'"
  obtains (Feed) n ns where "np_Exit s = None" "np_Left s = n # ns" "s' = s\<lparr>np_Left := ns, np_Tasks := np_Tasks s @ [n]\<rparr>"
  | (Close) "np_Exit s = None" "np_Left s = []" "\<not> np_Closed s" "s' = s\<lparr>np_Closed := True\<rparr>"
  | (Take) n ns us vs where "np_Exit s = None" "np_Tasks s = n # ns" "np_Workers s = us @ NWaiting # vs"
      "s' = s\<lparr>np_Tasks := ns, np_Workers := us @ atWork (by n) # vs\<rparr>"
  | (Stop) us vs where "np_Exit s = None" "np_Tasks s = []" "np_Closed s" "np_Workers s = us @ NWaiting # vs"
      "s' = s\<lparr>np_Workers := us @ NStopped # vs\<rparr>"
  | (Sync) i p ps us vs where "np_Exit s = None" "np_Workers s = us @ NBusy p ps # vs"
      "\<And>x. (us @ NBusy p ps # vs)[i := x] = us @ x # vs" "s' = netSync w job i p ps s"
  | (Send) r ps us vs where "np_Exit s = None" "np_Workers s = us @ NHolding r ps # vs"
      "s' = s\<lparr>np_Workers := us @ atWork ps # vs, np_Results := np_Results s @ [r]\<rparr>"
  | (Receive) r rs where "np_Exit s = None" "np_Results s = r # rs"
      "s' = s\<lparr>np_Results := rs, np_Received := np_Received s + 1, np_Errs := np_Errs s @ (case r of None \<Rightarrow> [] | Some x \<Rightarrow> [x])\<rparr>"
proof (cases e)
  case (NTake i)
  with assms have "i < length (np_Workers s)" "np_Workers s ! i = NWaiting" by (auto split: list.splits if_splits)
  with NTake assms Take show thesis by (elim worker_at) (auto split: list.splits if_splits)
next
  case (NStop i)
  with assms have "i < length (np_Workers s)" "np_Workers s ! i = NWaiting" by (auto split: if_splits)
  with NStop assms Stop show thesis by (elim worker_at) (auto split: if_splits)
next
  case (NSync i)
  with assms obtain p ps where "i < length (np_Workers s)" "np_Workers s ! i = NBusy p ps"
    by (auto split: if_splits net_worker.splits)
  with NSync assms Sync [of _ p ps _ i] show thesis by (elim worker_at) (auto split: if_splits)
next
  case (NSend i)
  with assms obtain r ps where "i < length (np_Workers s)" "np_Workers s ! i = NHolding r ps"
    by (auto split: if_splits net_worker.splits)
  with NSend assms Send show thesis by (elim worker_at) (auto split: if_splits)
qed (use assms Feed Close Receive in \<open>auto split: list.splits if_splits\<close>)

lemmas net_defs = net_good_def pendingProjects_def pendingResults_def netSync_def

lemma net_keeps:
  assumes "net_good by jobs order s" and "net_step w job by jobs wanted e s = Some s'"
  shows "net_good by jobs order s'"
  using assms(2,1)
  by (cases rule: net_stepE) (auto simp: net_defs ac_simps split: prod.splits sum.splits go_error.splits option.splits)

section \<open>Progress\<close>

definition net_rank :: "(string \<Rightarrow> 'p list) \<Rightarrow> 'p net_pool \<Rightarrow> nat" where
  "net_rank by s =
     (if np_Exit s \<noteq> None then 0
      else 1 + 2 * length (np_Left s) + length (np_Tasks s) + (if np_Closed s then 0 else 1) +
        length (filter (\<lambda>x. x \<noteq> NStopped) (np_Workers s)) + 3 * size (pendingProjects by s) +
        2 * size (gather worker_result (np_Workers s)) + length (np_Results s))"

lemma net_lowers:
  assumes "net_step w job by jobs wanted e s = Some s'"
  shows "net_rank by s' < net_rank by s"
  using assms
  by (cases rule: net_stepE)
    (auto simp: net_rank_def pendingProjects_def netSync_def split: prod.splits sum.splits go_error.splits)

text \<open>As long as main waits, some goroutine can go on: a full channel always has a receiver.\<close>

lemma net_enabled:
  assumes good: "net_good by jobs order s" and running: "np_Exit s = None" "np_Received s < length order"
  shows "\<exists>e. net_step w job by jobs (length order) e s \<noteq> None"
proof (rule ccontr)
  assume "\<nexists>e. net_step w job by jobs (length order) e s \<noteq> None"
  then have none: "net_step w job by jobs (length order) e s = None" for e by blast
  have jobs: "0 < jobs" "length (np_Workers s) = jobs" using good by (simp_all add: net_good_def)
  have results: "np_Results s = []" using none [of NReceive] running by (auto split: list.splits)
  have idle: "np_Workers s ! i = NWaiting \<or> np_Workers s ! i = NStopped" if "i < jobs" for i
    using none [of "NSync i"] none [of "NSend i"] that jobs results running by (cases "np_Workers s ! i") auto
  have "np_Tasks s = []"
  proof (rule ccontr)
    assume t: "np_Tasks s \<noteq> []"
    then have "NStopped \<notin> set (np_Workers s)" using good by (auto simp: net_good_def)
    then have "np_Workers s ! 0 \<noteq> NStopped" using jobs by (metis nth_mem)
    with idle jobs have "np_Workers s ! 0 = NWaiting" by blast
    with t none [of "NTake 0"] jobs running show False by (auto split: list.splits)
  qed
  moreover from this have "np_Left s = []" using none [of NFeed] jobs running by (auto split: list.splits)
  moreover have "worker_left x = [] \<and> worker_result x = []" if "x \<in> set (np_Workers s)" for x
  proof -
    have "x = NWaiting \<or> x = NStopped" using that idle jobs by (metis in_set_conv_nth)
    then show ?thesis by auto
  qed
  ultimately have "pendingProjects by s = {#}" "pendingResults s = {#}"
    using results by (auto simp: pendingProjects_def pendingResults_def gather_empty)
  then have "np_Received s = size (gather by order)"
    using good running by (auto simp: net_good_def dest: arg_cong [where f = size])
  moreover have "length order \<le> size (gather by order)"
    using good by (intro gather_ge) (simp add: net_good_def)
  ultimately show False using running by simp
qed

text \<open>Main waits until it has one result per name, or the process has ended.\<close>

definition net_over :: "nat \<Rightarrow> 'p net_pool \<Rightarrow> bool" where
  "net_over wanted s \<longleftrightarrow> np_Exit s \<noteq> None \<or> wanted \<le> np_Received s"

interpretation net: terminating_pool "net_step w job by jobs (length order)" "net_good by jobs order" "net_rank by" "net_over (length order)"
  using net_enabled by unfold_locales (auto simp: net_over_def not_le intro: net_keeps net_lowers)

section \<open>The network half\<close>

lemma byName_filter: "byName ps n = filter (\<lambda>p. pName p = n) ps"
  by (auto simp: byName_def IndexByName_filter split: list.splits)

lemma gather_append: "gather (\<lambda>n. f n @ g n) ns = gather f ns + gather g ns"
  by (induction ns) (auto simp: ac_simps)

lemma gather_one: "distinct ns \<Longrightarrow> gather (\<lambda>n. if x = n then [y] else []) ns = (if x \<in> set ns then {#y#} else {#})"
  by (induction ns) auto

text \<open>Every project belongs to exactly one name.\<close>

lemma gather_byName:
  assumes "distinct order" and "set order = set (map pName ps)"
  shows "gather (byName ps) order = mset ps"
proof -
  have "gather (\<lambda>n. filter (\<lambda>p. pName p = n) qs) order = mset qs" if "set (map pName qs) \<subseteq> set order" for qs
    using that
  proof (induction qs)
    case Nil
    then show ?case by (simp add: gather_empty)
  next
    case (Cons q qs)
    have "(\<lambda>n. filter (\<lambda>p. pName p = n) (q # qs)) = (\<lambda>n. (if pName q = n then [q] else []) @ filter (\<lambda>p. pName p = n) qs)"
      by auto
    then show ?case using Cons assms(1) by (simp only: gather_append gather_one) simp
  qed
  from this [of ps] show ?thesis using assms(2) by (simp add: byName_filter [abs_def])
qed

lemma jobCount_pos: "0 < jobCount jobs"
  by (simp add: jobCount_def)

lemma net_start_good:
  assumes "set order = set (map pName ps)"
  shows "net_good (byName ps) (jobCount jobs) order (net_start (jobCount jobs) order tr)"
  using assms jobCount_pos [of jobs]
  by (auto simp: net_good_def net_start_def pendingProjects_def pendingResults_def byName_filter filter_empty_conv)

lemma net_complete:
  assumes "distinct (map pName ps)" and "distinct order" and "set order = set (map pName ps)"
    and "NetworkHalf w env st fo jobs ps order es tr = Some s" and "net_returned (length order) s"
  shows "mset (map fst (np_Synced s)) = mset ps \<and>
    mset (np_Errs s) = errorsOf (mset (map snd (np_Synced s))) \<and>
    (errorLines (np_Errs s) = Inr () \<longleftrightarrow> (\<forall>(p, r) \<in> set (np_Synced s). r = None))"
proof -
  have "net_good (byName ps) (jobCount jobs) order s"
    using net.run_inv [OF net_start_good [OF assms(3)]] assms(4) unfolding NetworkHalf_def by blast
  then have good: "pendingProjects (byName ps) s + mset (map fst (np_Synced s)) = mset ps"
      "np_Received s + size (pendingResults s) = length (np_Synced s)"
      "mset (np_Errs s) + errorsOf (pendingResults s) = errorsOf (mset (map snd (np_Synced s)))"
    using assms(5) by (auto simp: net_good_def net_returned_def gather_byName [OF assms(2,3)])
  have "length order = length ps" using assms(1-3) by (metis distinct_card length_map)
  then have "length ps \<le> length (np_Synced s)" using good(2) assms(5) by (simp add: net_returned_def)
  moreover have "size (pendingProjects (byName ps) s) + length (np_Synced s) = length ps"
    using arg_cong [OF good(1), of size] by simp
  ultimately have "size (pendingProjects (byName ps) s) = 0" "size (pendingResults s) = 0"
    using good(2) assms(5) \<open>length order = length ps\<close> unfolding net_returned_def by linarith+
  then have none: "pendingProjects (byName ps) s = {#}" "pendingResults s = {#}" by (simp_all only: size_eq_0_iff_empty)
  have errs: "mset (np_Errs s) = errorsOf (mset (map snd (np_Synced s)))" using good(3) none(2) by simp
  then have "np_Errs s = [] \<longleftrightarrow> errorsOf (mset (map snd (np_Synced s))) = {#}" by (metis mset_zero_iff)
  also have "\<dots> \<longleftrightarrow> (\<forall>(p, r) \<in> set (np_Synced s). r = None)"
    by (simp only: errorsOf_none) auto
  finally show ?thesis using good(1) none errs by (simp add: errorLines_def)
qed

text \<open>
  Property C4. When the names of the projects are different, NetworkHalf returns only after
  every project was fetched, exactly once, and it reports exactly the errors of these fetches,
  whatever the interleaving of the workers, the order of the map of names and the number of jobs.
\<close>

theorem NetworkHalf_complete:
  assumes "distinct (map pName ps)" and "distinct order" and "set order = set (map pName ps)"
    and "NetworkHalf w env st fo jobs ps order es tr = Some s" and "net_returned (length order) s"
  shows "mset (map fst (np_Synced s)) = mset ps \<and>
    mset (np_Errs s) = errorsOf (mset (map snd (np_Synced s))) \<and>
    (errorLines (np_Errs s) = Inr () \<longleftrightarrow> (\<forall>(p, r) \<in> set (np_Synced s). r = None))"
  using assms by (rule net_complete)

text \<open>Two projects that fail at once, fetched by two workers.\<close>

definition sample_two :: "WorkProject list" where "sample_two = [sample_project ''a'', sample_project ''b'']"

definition sample_events :: "net_event list" where
  "sample_events = [NFeed, NTake 1, NFeed, NTake 0, NClose, NSync 0, NSend 0, NSync 1, NReceive, NSend 1, NReceive]"

theorem NetworkHalf_complete_witness:
  "\<exists>s. NetworkHalf (\<lambda>_. sample_machine) sample_penv RepoSettings0 FetchOptions0 2 sample_two [''b'', ''a''] sample_events [] = Some s \<and>
     mset (map fst (np_Synced s)) = mset sample_two \<and> errorLines (np_Errs s) \<noteq> Inr ()"
proof -
  have run: "case NetworkHalf (\<lambda>_. sample_machine) sample_penv RepoSettings0 FetchOptions0 2 sample_two [''b'', ''a''] sample_events [] of
      Some s \<Rightarrow> net_returned (length [''b'', ''a'']) s \<and> np_Synced s \<noteq> [] \<and> list_all (\<lambda>(p, r). r \<noteq> None) (np_Synced s) | None \<Rightarrow> False"
    by code_simp
  then obtain s where s: "NetworkHalf (\<lambda>_. sample_machine) sample_penv RepoSettings0 FetchOptions0 2 sample_two [''b'', ''a''] sample_events [] = Some s"
    "net_returned (length [''b'', ''a'']) s" "np_Synced s \<noteq> []" "list_all (\<lambda>(p, r). r \<noteq> None) (np_Synced s)"
    by (auto split: option.splits)
  have names: "distinct (map pName sample_two)" "set [''b'', ''a''] = set (map pName sample_two)" by code_simp+
  have "\<not> (\<forall>(p, r) \<in> set (np_Synced s). r = None)" using s(3,4) by (cases "np_Synced s") auto
  then show ?thesis using NetworkHalf_complete [OF names(1) _ names(2) s(1,2)] s(1) by auto
qed

text \<open>
  Property C5. NetworkHalf cannot hang: every run of its goroutines has a bounded number of
  events, a run that cannot go on has returned (unless a fatal error ended the process), and
  every run can be continued until it returns. Names may be shared here.
\<close>

theorem NetworkHalf_returns:
  assumes "distinct order" and "set order = set (map pName ps)"
    and "NetworkHalf w env st fo jobs ps order es tr = Some s"
  shows "length es \<le> 2 + 2 * length order + jobCount jobs + 3 * length ps \<and>
    (stuck (net_step w (\<lambda>p. SyncNetworkHalf env st p (Some fo)) (byName ps) (jobCount jobs) (length order)) s \<longrightarrow>
       net_over (length order) s) \<and>
    (\<exists>fs s'. NetworkHalf w env st fo jobs ps order (es @ fs) tr = Some s' \<and> net_over (length order) s')"
proof -
  have good: "net_good (byName ps) (jobCount jobs) order s"
    using net.run_inv [OF net_start_good [OF assms(2)]] assms(3) unfolding NetworkHalf_def by blast
  have "net_rank (byName ps) (net_start (jobCount jobs) order tr) = 2 + 2 * length order + jobCount jobs + 3 * length ps"
    using gather_byName [OF assms(1,2)]
    by (simp add: net_rank_def net_start_def pendingProjects_def)
  then have "length es \<le> 2 + 2 * length order + jobCount jobs + 3 * length ps"
    using net.run_bounded [OF net_start_good [OF assms(2)] assms(3) [unfolded NetworkHalf_def]] by simp
  moreover obtain fs s' where "runs (net_step w (\<lambda>p. SyncNetworkHalf env st p (Some fo)) (byName ps) (jobCount jobs) (length order)) fs s = Some s'"
    "net_over (length order) s'" using net.run_completes [OF good] by blast
  then have "\<exists>fs s'. NetworkHalf w env st fo jobs ps order (es @ fs) tr = Some s' \<and> net_over (length order) s'"
    using assms(3) by (auto simp: NetworkHalf_def runs_append)
  ultimately show ?thesis using net.run_stops [OF net_start_good [OF assms(2)] assms(3) [unfolded NetworkHalf_def]] by blast
qed

theorem NetworkHalf_returns_witness:
  "length sample_events \<le> 14 \<and>
   (\<exists>fs s'. NetworkHalf (\<lambda>_. sample_machine) sample_penv RepoSettings0 FetchOptions0 2 sample_two [''b'', ''a''] (take 3 sample_events @ fs) [] = Some s' \<and>
     net_over 2 s')"
proof -
  have "NetworkHalf (\<lambda>_. sample_machine) sample_penv RepoSettings0 FetchOptions0 2 sample_two [''b'', ''a''] (take 3 sample_events) [] \<noteq> None"
    by code_simp
  then obtain s where "NetworkHalf (\<lambda>_. sample_machine) sample_penv RepoSettings0 FetchOptions0 2 sample_two [''b'', ''a''] (take 3 sample_events) [] = Some s"
    by blast
  moreover have "set [''b'', ''a''] = set (map pName sample_two)" "length sample_events \<le> 14" by code_simp+
  moreover have "distinct [''b'', ''a'']" "length [''b'', ''a''] = 2" by simp_all
  ultimately show ?thesis by (metis NetworkHalf_returns)
qed

text \<open>
  With a shared name NetworkHalf may return too early, and without an error: main expects one
  result per name, but every project gives one. The second project is then fetched while the
  local half runs, and its error is lost.
\<close>

lemma NetworkHalf_returns_early:
  assumes "pName q = pName p" and "SyncNetworkHalf env st p (Some fo) w tr = (tr1, Inr ())"
  shows "\<exists>s. NetworkHalf w env st fo 1 [p, q] [pName p] [NFeed, NTake 0, NSync 0, NSend 0, NReceive] tr = Some s \<and>
    net_returned 1 s \<and> errorLines (np_Errs s) = Inr () \<and> map fst (np_Synced s) = [p] \<and> np_Workers s = [NBusy q []]"
  using assms
  by (simp add: NetworkHalf_def net_start_def jobCount_def byName_filter atWork_def netSync_def net_returned_def errorLines_def)

end
