(* ===== verification/Sync_Local.thy ===== *)
theory Sync_Local
  imports Sync_Network
begin

text \<open>
  The local half of the command sync (cmd/sync.go, LocalHalf): workers receive trees of projects
  from a channel, check out the project at the root and start a goroutine that sends the
  subtrees; the main goroutine waits for the counter of a WaitGroup and closes the channel. The
  errors are collected with an append that is not locked, here a load and a store.
\<close>

section \<open>The goroutines\<close>

datatype 'p tree_worker =
    TWaiting
  | TGot "'p Tree"
  | TFailed "'p Tree" string          \<comment> \<open>SyncLocalHalf returned an error\<close>
  | TStoring "'p Tree" "string list"  \<comment> \<open>the appended list, not stored yet\<close>
  | TSynced "'p Tree"
  | TSpawned "'p Tree"

record 'p tree_pool =
  tp_Tasks :: "'p Tree list"             \<comment> \<open>jobTasks\<close>
  tp_Closed :: bool                      \<comment> \<open>main got past wg.Wait and closed jobTasks\<close>
  tp_Workers :: "'p tree_worker list"
  tp_Senders :: "'p Tree list list"      \<comment> \<open>goroutines with the subtrees they have to send\<close>
  tp_Wait :: nat                         \<comment> \<open>counter of the WaitGroup\<close>
  tp_Errs :: "string list"
  tp_Trace :: "action list"
  tp_Synced :: "('p \<times> string option) list" \<comment> \<open>the finished calls and their errors\<close>
  tp_Exit :: "go_error option"           \<comment> \<open>a fatal error or a panic of a call\<close>
  tp_Crash :: "string option"            \<comment> \<open>a panic of the pool itself\<close>

datatype tree_event = TTake nat | TSync nat | TLoad nat | TStore nat | TSpawn nat | TDone nat | TSend nat | TReturn

definition tp_Alive :: "'p tree_pool \<Rightarrow> bool" where
  "tp_Alive s \<longleftrightarrow> tp_Exit s = None \<and> tp_Crash s = None"

text \<open>The step of one worker at its place in the program; the root of all trees has no project.\<close>

definition treeSync :: "world \<Rightarrow> ('p \<Rightarrow> unit op) \<Rightarrow> nat \<Rightarrow> 'p Tree \<Rightarrow> 'p tree_pool \<Rightarrow> 'p tree_pool" where
  "treeSync w job i t s =
     (case tree_Project t of
        None \<Rightarrow> s\<lparr>tp_Workers := (tp_Workers s)[i := TSynced t]\<rparr>
      | Some p \<Rightarrow>
        (case job p w (tp_Trace s) of
           (tr, Inr _) \<Rightarrow> s\<lparr>tp_Trace := tr, tp_Workers := (tp_Workers s)[i := TSynced t], tp_Synced := tp_Synced s @ [(p, None)]\<rparr>
         | (tr, Inl (Error e)) \<Rightarrow> s\<lparr>tp_Trace := tr, tp_Workers := (tp_Workers s)[i := TFailed t e], tp_Synced := tp_Synced s @ [(p, Some e)]\<rparr>
         | (tr, Inl e) \<Rightarrow> s\<lparr>tp_Trace := tr, tp_Exit := Some e\<rparr>))"

definition treeDone :: "nat \<Rightarrow> 'p Tree \<Rightarrow> 'p tree_pool \<Rightarrow> 'p tree_pool" where
  "treeDone i t s =
     (let s1 = s\<lparr>tp_Workers := (tp_Workers s)[i := TWaiting]\<rparr> in
      if tree_Project t = None then s1
      else if tp_Wait s = 0 then s1\<lparr>tp_Crash := Some ''sync: negative WaitGroup counter''\<rparr>
      else s1\<lparr>tp_Wait := tp_Wait s - 1\<rparr>)"

text \<open>A closed channel gives the elements that are left; sending to it is a panic.\<close>

fun tree_step :: "world \<Rightarrow> ('p \<Rightarrow> unit op) \<Rightarrow> nat \<Rightarrow> tree_event \<Rightarrow> 'p tree_pool \<Rightarrow> 'p tree_pool option" where
  "tree_step w job jobs (TTake i) s =
     (case tp_Tasks s of
        t # ts \<Rightarrow> if tp_Alive s \<and> i < length (tp_Workers s) \<and> tp_Workers s ! i = TWaiting
                  then Some (s\<lparr>tp_Tasks := ts, tp_Workers := (tp_Workers s)[i := TGot t]\<rparr>) else None
      | [] \<Rightarrow> None)"
| "tree_step w job jobs (TSync i) s =
     (if tp_Alive s \<and> i < length (tp_Workers s) then
        (case tp_Workers s ! i of TGot t \<Rightarrow> Some (treeSync w job i t s) | _ \<Rightarrow> None) else None)"
| "tree_step w job jobs (TLoad i) s =
     (if tp_Alive s \<and> i < length (tp_Workers s) then
        (case tp_Workers s ! i of
           TFailed t e \<Rightarrow> Some (s\<lparr>tp_Workers := (tp_Workers s)[i := TStoring t (tp_Errs s @ [e])]\<rparr>) | _ \<Rightarrow> None) else None)"
| "tree_step w job jobs (TStore i) s =
     (if tp_Alive s \<and> i < length (tp_Workers s) then
        (case tp_Workers s ! i of
           TStoring t es \<Rightarrow> Some (s\<lparr>tp_Errs := es, tp_Workers := (tp_Workers s)[i := TSynced t]\<rparr>) | _ \<Rightarrow> None) else None)"
| "tree_step w job jobs (TSpawn i) s =
     (if tp_Alive s \<and> i < length (tp_Workers s) then
        (case tp_Workers s ! i of
           TSynced t \<Rightarrow> Some (s\<lparr>tp_Senders := tp_Senders s @ [tree_Trees t], tp_Workers := (tp_Workers s)[i := TSpawned t]\<rparr>)
         | _ \<Rightarrow> None) else None)"
| "tree_step w job jobs (TDone i) s =
     (if tp_Alive s \<and> i < length (tp_Workers s) then
        (case tp_Workers s ! i of TSpawned t \<Rightarrow> Some (treeDone i t s) | _ \<Rightarrow> None) else None)"
| "tree_step w job jobs (TSend k) s =
     (if tp_Alive s \<and> k < length (tp_Senders s) then
        (case tp_Senders s ! k of
           t # ts \<Rightarrow> if tp_Closed s then Some (s\<lparr>tp_Crash := Some ''send on closed channel''\<rparr>)
                     else if length (tp_Tasks s) < jobs
                     then Some (s\<lparr>tp_Tasks := tp_Tasks s @ [t], tp_Senders := (tp_Senders s)[k := ts]\<rparr>) else None
         | [] \<Rightarrow> None) else None)"
| "tree_step w job jobs TReturn s =
     (if tp_Alive s \<and> tp_Wait s = 0 \<and> \<not> tp_Closed s then Some (s\<lparr>tp_Closed := True\<rparr>) else None)"

definition tree_start :: "nat \<Rightarrow> WorkProject list \<Rightarrow> action list \<Rightarrow> WorkProject tree_pool" where
  "tree_start jobs ps tr =
     \<lparr>tp_Tasks = [ProjectsTree ps], tp_Closed = False, tp_Workers = replicate jobs TWaiting, tp_Senders = [],
      tp_Wait = length ps, tp_Errs = [], tp_Trace = tr, tp_Synced = [], tp_Exit = None, tp_Crash = None\<rparr>"

definition LocalHalf :: "world \<Rightarrow> RepoSettings \<Rightarrow> (WorkProject \<Rightarrow> RemoteMap) \<Rightarrow> CheckoutOptions \<Rightarrow> int \<Rightarrow> WorkProject list \<Rightarrow> tree_event list \<Rightarrow> action list \<Rightarrow> WorkProject tree_pool option" where
  "LocalHalf w st tables co jobs ps es tr =
     runs (tree_step w (\<lambda>p. SyncLocalHalf st (tables p) p co) (jobCount jobs)) es (tree_start (jobCount jobs) ps tr)"

section \<open>Traversals of a tree\<close>

text \<open>
  The specification: a frontier of trees from which any tree may be taken; its project is
  visited and its subtrees join the frontier.
\<close>

definition rootProject :: "'p Tree \<Rightarrow> 'p list" where
  "rootProject t = (case tree_Project t of None \<Rightarrow> [] | Some p \<Rightarrow> [p])"

inductive traversal :: "'p Tree multiset \<Rightarrow> 'p list \<Rightarrow> 'p Tree multiset \<Rightarrow> bool" where
  start: "traversal F [] F"
| visit: "traversal F xs (add_mset t G) \<Longrightarrow> traversal F (xs @ rootProject t) (mset (tree_Trees t) + G)"

primrec tree_members :: "'p Tree \<Rightarrow> 'p list" where
  "tree_members (Tree q v ts) = (case v of None \<Rightarrow> [] | Some p \<Rightarrow> [p]) @ concat (map tree_members ts)"

text \<open>The projects of a tree with the projects directly below them.\<close>

primrec tree_edges :: "'p Tree \<Rightarrow> ('p \<times> 'p) list" where
  "tree_edges (Tree q v ts) =
     (case v of None \<Rightarrow> [] | Some p \<Rightarrow> map (Pair p) (concat (map rootProject ts))) @ concat (map tree_edges ts)"

definition members :: "'p Tree multiset \<Rightarrow> 'p multiset" where
  "members F = (\<Sum>t \<in># F. mset (tree_members t))"

lemma members_simps [simp]:
  "members {#} = {#}" "members (add_mset t F) = mset (tree_members t) + members F" "members (F + G) = members F + members G"
  by (simp_all add: members_def)

lemma members_mset: "members (mset ts) = mset (concat (map tree_members ts))"
  by (induction ts) auto

lemma tree_members_root: "mset (tree_members t) = mset (rootProject t) + members (mset (tree_Trees t))"
  by (cases t) (simp add: rootProject_def members_mset)

lemma traversal_members: "traversal F xs G \<Longrightarrow> members F = mset xs + members G"
  by (induction rule: traversal.induct) (auto simp: tree_members_root ac_simps)

text \<open>The lower end of an edge is not at the root.\<close>

lemma edge_below: "(p, c) \<in> set (tree_edges t) \<Longrightarrow> c \<in># members (mset (tree_Trees t))"
proof (induction t)
  case (Tree q v ts)
  show ?case
  proof (cases "\<exists>t \<in> set ts. (p, c) \<in> set (tree_edges t)")
    case True
    then obtain t where t: "t \<in> set ts" "(p, c) \<in> set (tree_edges t)" by blast
    then have "c \<in> set (tree_members t)" using Tree.IH tree_members_root [of t] by (metis set_mset_mset union_iff)
    with t show ?thesis by (auto simp: members_mset)
  next
    case False
    with Tree.prems obtain t where "t \<in> set ts" "c \<in> set (rootProject t)" by (auto split: option.splits)
    then have "c \<in> set (tree_members t)" using tree_members_root [of t] by (metis set_mset_mset union_iff)
    with \<open>t \<in> set ts\<close> show ?thesis by (auto simp: members_mset)
  qed
qed

text \<open>In a traversal of a tree without repeated projects, parents come before their children.\<close>

lemma traversal_edges:
  assumes "traversal F xs G" and "F = {#t0#}" and "distinct (tree_members t0)" and "(p, c) \<in> set (tree_edges t0)"
  shows "(c \<in> set xs \<longrightarrow> (\<exists>ys zs. xs = ys @ c # zs \<and> p \<in> set ys)) \<and>
    (p \<notin> set xs \<longrightarrow> (\<exists>t \<in># G. (p, c) \<in> set (tree_edges t)))"
  using assms
proof (induction rule: traversal.induct)
  case (start F)
  then show ?case by simp
next
  case (visit F xs t G)
  note IH = visit.IH [OF visit.prems]
  have once: "mset (tree_members t0) = mset xs + mset (rootProject t) + members (mset (tree_Trees t)) + members G"
    using traversal_members [OF visit.hyps] visit.prems(1) by (simp add: tree_members_root [of t] ac_simps)
  have "count (mset (tree_members t0)) c \<le> 1" using visit.prems(2) by (simp add: distinct_count_atmost_1)
  then have count: "count (mset xs) c + count (mset (rootProject t)) c + count (members (mset (tree_Trees t))) c + count (members G) c \<le> 1"
    unfolding once by simp
  have below: "c \<notin> set (rootProject t)" if "t' \<in># add_mset t G" "(p, c) \<in> set (tree_edges t')" for t'
  proof
    assume "c \<in> set (rootProject t)"
    then have "0 < count (mset (rootProject t)) c" by (simp add: count_mset_gt_0)
    moreover have "c \<in># members (mset (tree_Trees t)) + members G"
    proof (cases "t' = t")
      case True
      then show ?thesis using edge_below that(2) by auto
    next
      case False
      then have "t' \<in># G" using that(1) by auto
      then obtain G' where "G = add_mset t' G'" by (metis mset_add)
      then show ?thesis using edge_below [OF that(2)] by (simp add: tree_members_root [of t'])
    qed
    ultimately show False using count by (auto simp: count_greater_zero_iff [symmetric] simp del: count_greater_zero_iff)
  qed
  show ?case
  proof (intro conjI impI)
    assume c: "c \<in> set (xs @ rootProject t)"
    show "\<exists>ys zs. xs @ rootProject t = ys @ c # zs \<and> p \<in> set ys"
    proof (cases "c \<in> set xs")
      case True
      then show ?thesis using IH by (metis append_Cons append_assoc)
    next
      case False
      with c have "rootProject t = [c]" by (cases "tree_Project t") (auto simp: rootProject_def)
      moreover have "p \<in> set xs" using IH below False c by auto
      ultimately show ?thesis by blast
    qed
  next
    assume p: "p \<notin> set (xs @ rootProject t)"
    then obtain t' where t': "t' \<in># add_mset t G" "(p, c) \<in> set (tree_edges t')" using IH by auto
    show "\<exists>t \<in># mset (tree_Trees t) + G. (p, c) \<in> set (tree_edges t)"
    proof (cases "t' = t")
      case True
      with t' p have "(p, c) \<in> set (concat (map tree_edges (tree_Trees t)))"
        by (cases t) (auto simp: rootProject_def split: option.splits)
      then show ?thesis by auto
    next
      case False
      with t' show ?thesis by auto
    qed
  qed
qed

section \<open>The pool refines a traversal\<close>

text \<open>The trees not visited yet, and whether a worker will still count its project down.\<close>

fun worker_trees :: "'p tree_worker \<Rightarrow> 'p Tree list" where
  "worker_trees (TGot t) = [t]"
| "worker_trees (TFailed t e) = tree_Trees t"
| "worker_trees (TStoring t es) = tree_Trees t"
| "worker_trees (TSynced t) = tree_Trees t"
| "worker_trees _ = []"

fun worker_debt :: "'p tree_worker \<Rightarrow> 'p list" where
  "worker_debt (TFailed t e) = rootProject t"
| "worker_debt (TStoring t es) = rootProject t"
| "worker_debt (TSynced t) = rootProject t"
| "worker_debt (TSpawned t) = rootProject t"
| "worker_debt _ = []"

definition frontier :: "'p tree_pool \<Rightarrow> 'p Tree multiset" where
  "frontier s = mset (tp_Tasks s) + gather id (tp_Senders s) + gather worker_trees (tp_Workers s)"

text \<open>Below the root every tree has a project.\<close>

primrec tree_full :: "'p Tree \<Rightarrow> bool" where
  "tree_full (Tree q v ts) \<longleftrightarrow> v \<noteq> None \<and> list_all tree_full ts"

definition tree_rooted :: "'p Tree \<Rightarrow> bool" where
  "tree_rooted t \<longleftrightarrow> list_all tree_full (tree_Trees t)"

lemma tree_full_rooted: "tree_full t \<Longrightarrow> tree_rooted t"
  by (cases t) (simp add: tree_rooted_def)

lemma tree_full_members: "tree_full t \<Longrightarrow> tree_members t \<noteq> []"
  by (cases t) auto

fun worker_rooted :: "'p tree_worker \<Rightarrow> bool" where
  "worker_rooted (TGot t) = tree_rooted t"
| "worker_rooted (TFailed t e) = (tree_rooted t \<and> tree_Project t \<noteq> None)"
| "worker_rooted (TStoring t es) = (tree_rooted t \<and> tree_Project t \<noteq> None \<and> es \<noteq> [])"
| "worker_rooted (TSynced t) = tree_rooted t"
| "worker_rooted _ = True"

text \<open>Errors on their way, and those a worker is about to store.\<close>

fun worker_errs :: "'p tree_worker \<Rightarrow> string list" where
  "worker_errs (TFailed t e) = [e]"
| "worker_errs (TStoring t es) = es"
| "worker_errs _ = []"

definition failuresOf :: "('p \<times> string option) list \<Rightarrow> string set" where
  "failuresOf rs = {e. \<exists>p. (p, Some e) \<in> set rs}"

definition tree_good :: "nat \<Rightarrow> 'p Tree \<Rightarrow> 'p tree_pool \<Rightarrow> bool" where
  "tree_good jobs t0 s \<longleftrightarrow>
     0 < jobs \<and> length (tp_Workers s) = jobs \<and> tp_Crash s = None \<and>
     list_all tree_rooted (tp_Tasks s) \<and> list_all (list_all tree_full) (tp_Senders s) \<and> list_all worker_rooted (tp_Workers s) \<and>
     (tp_Exit s = None \<longrightarrow>
       traversal {#t0#} (map fst (tp_Synced s)) (frontier s) \<and>
       tp_Wait s = size (members (frontier s)) + size (gather worker_debt (tp_Workers s)) \<and>
       (tp_Closed s \<longrightarrow> tp_Wait s = 0) \<and>
       set (tp_Errs s) \<union> (\<Union>x \<in> set (tp_Workers s). set (worker_errs x)) \<subseteq> failuresOf (tp_Synced s) \<and>
       (failuresOf (tp_Synced s) \<noteq> {} \<longrightarrow> tp_Errs s \<noteq> [] \<or> (\<exists>x \<in> set (tp_Workers s). worker_errs x \<noteq> [])))"

text \<open>The events, with the worker that takes part singled out.\<close>

lemma tree_stepE:
  assumes "tree_step w job jobs e s = Some s'"
  obtains (Take) t ts us vs where "tp_Alive s" "tp_Tasks s = t # ts" "tp_Workers s = us @ TWaiting # vs"
      "s' = s\<lparr>tp_Tasks := ts, tp_Workers := us @ TGot t # vs\<rparr>"
  | (Sync) i t us vs where "tp_Alive s" "tp_Workers s = us @ TGot t # vs"
      "\<And>x. (us @ TGot t # vs)[i := x] = us @ x # vs" "s' = treeSync w job i t s"
  | (Load) t x us vs where "tp_Alive s" "tp_Workers s = us @ TFailed t x # vs"
      "s' = s\<lparr>tp_Workers := us @ TStoring t (tp_Errs s @ [x]) # vs\<rparr>"
  | (Store) t xs us vs where "tp_Alive s" "tp_Workers s = us @ TStoring t xs # vs"
      "s' = s\<lparr>tp_Errs := xs, tp_Workers := us @ TSynced t # vs\<rparr>"
  | (Spawn) t us vs where "tp_Alive s" "tp_Workers s = us @ TSynced t # vs"
      "s' = s\<lparr>tp_Senders := tp_Senders s @ [tree_Trees t], tp_Workers := us @ TSpawned t # vs\<rparr>"
  | (Done) i t us vs where "tp_Alive s" "tp_Workers s = us @ TSpawned t # vs"
      "\<And>x. (us @ TSpawned t # vs)[i := x] = us @ x # vs" "s' = treeDone i t s"
  | (SendClosed) t ts us vs where "tp_Alive s" "tp_Closed s" "tp_Senders s = us @ (t # ts) # vs"
      "s' = s\<lparr>tp_Crash := Some ''send on closed channel''\<rparr>"
  | (Send) t ts us vs where "tp_Alive s" "\<not> tp_Closed s" "tp_Senders s = us @ (t # ts) # vs"
      "s' = s\<lparr>tp_Tasks := tp_Tasks s @ [t], tp_Senders := us @ ts # vs\<rparr>"
  | (Return) "tp_Alive s" "tp_Wait s = 0" "\<not> tp_Closed s" "s' = s\<lparr>tp_Closed := True\<rparr>"
proof (cases e)
  case (TTake i)
  with assms have "i < length (tp_Workers s)" "tp_Workers s ! i = TWaiting" by (auto split: list.splits if_splits)
  with TTake assms Take show thesis by (elim worker_at) (auto split: list.splits if_splits)
next
  case (TSync i)
  with assms obtain t where "i < length (tp_Workers s)" "tp_Workers s ! i = TGot t"
    by (auto split: if_splits tree_worker.splits)
  with TSync assms Sync [of _ t _ i] show thesis by (elim worker_at) (auto split: if_splits)
next
  case (TLoad i)
  with assms obtain t x where "i < length (tp_Workers s)" "tp_Workers s ! i = TFailed t x"
    by (auto split: if_splits tree_worker.splits)
  with TLoad assms Load show thesis by (elim worker_at) (auto split: if_splits)
next
  case (TStore i)
  with assms obtain t xs where "i < length (tp_Workers s)" "tp_Workers s ! i = TStoring t xs"
    by (auto split: if_splits tree_worker.splits)
  with TStore assms Store show thesis by (elim worker_at) (auto split: if_splits)
next
  case (TSpawn i)
  with assms obtain t where "i < length (tp_Workers s)" "tp_Workers s ! i = TSynced t"
    by (auto split: if_splits tree_worker.splits)
  with TSpawn assms Spawn show thesis by (elim worker_at) (auto split: if_splits)
next
  case (TDone i)
  with assms obtain t where "i < length (tp_Workers s)" "tp_Workers s ! i = TSpawned t"
    by (auto split: if_splits tree_worker.splits)
  with TDone assms Done [of _ t _ i] show thesis by (elim worker_at) (auto split: if_splits)
next
  case (TSend k)
  with assms obtain t ts where "k < length (tp_Senders s)" "tp_Senders s ! k = t # ts"
    by (auto split: if_splits list.splits)
  with TSend assms SendClosed Send show thesis by (elim worker_at) (auto split: if_splits)
qed (use assms Return in \<open>auto split: if_splits\<close>)

lemma failuresOf_snoc [simp]:
  "failuresOf (rs @ [(p, r)]) = (case r of None \<Rightarrow> {} | Some e \<Rightarrow> {e}) \<union> failuresOf rs"
  by (auto simp: failuresOf_def split: option.splits)

lemma failuresOf_Nil [simp]: "failuresOf [] = {}"
  by (simp add: failuresOf_def)

lemma tree_keeps_sync:
  assumes "tree_good jobs t0 s" and "tp_Alive s" and w: "tp_Workers s = us @ TGot t # vs"
    and upd: "\<And>x. (us @ TGot t # vs)[i := x] = us @ x # vs"
  shows "tree_good jobs t0 (treeSync w job i t s)"
proof -
  let ?G = "mset (tp_Tasks s) + gather id (tp_Senders s) + gather worker_trees us + gather worker_trees vs"
  have front: "frontier s = add_mset t ?G" by (simp add: frontier_def w)
  have good: "traversal {#t0#} (map fst (tp_Synced s)) (add_mset t ?G)"
    using assms(1,2) front by (simp add: tree_good_def tp_Alive_def)
  from traversal.visit [OF this] have visited:
    "traversal {#t0#} (map fst (tp_Synced s) @ rootProject t) (mset (tree_Trees t) + ?G)" .
  show ?thesis
    using assms(1,2) visited front
    by (auto simp: tree_good_def treeSync_def tp_Alive_def frontier_def w upd rootProject_def tree_members_root [of t] ac_simps
        split: option.splits prod.splits sum.splits go_error.splits)
qed

text \<open>Nothing is sent any more when main is through: all trees left would have a project.\<close>

lemma tree_no_crash:
  assumes "tree_good jobs t0 s" and "tp_Alive s" and "tp_Closed s" and "tp_Senders s = us @ (t # ts) # vs"
  shows False
proof -
  have "tree_members t \<noteq> []" using assms(1,4) by (simp add: tree_good_def tree_full_members)
  moreover have "size (members (frontier s)) = 0" using assms(1-3) unfolding tree_good_def tp_Alive_def by linarith
  then have "members (frontier s) = {#}" by (simp only: size_eq_0_iff_empty)
  ultimately show False by (simp add: frontier_def assms(4))
qed

lemma tree_keeps_done:
  assumes "tree_good jobs t0 s" and "tp_Alive s" and w: "tp_Workers s = us @ TSpawned t # vs"
    and upd: "\<And>x. (us @ TSpawned t # vs)[i := x] = us @ x # vs"
  shows "tree_good jobs t0 (treeDone i t s)"
  using assms(1,2)
  by (auto simp: tree_good_def treeDone_def tp_Alive_def frontier_def w upd rootProject_def Let_def split: option.splits)

lemma tree_keeps:
  assumes "tree_good jobs t0 s" and "tree_step w job jobs e s = Some s'"
  shows "tree_good jobs t0 s'"
  using assms(2)
proof (cases rule: tree_stepE)
  case (Sync i t us vs)
  then show ?thesis using tree_keeps_sync [OF assms(1)] by blast
next
  case (Done i t us vs)
  then show ?thesis using tree_keeps_done [OF assms(1)] by blast
next
  case (SendClosed t ts us vs)
  then show ?thesis using tree_no_crash [OF assms(1)] by blast
next
  case (Send t ts us vs)
  then show ?thesis using assms(1)
    by (auto simp: tree_good_def frontier_def tp_Alive_def tree_full_rooted ac_simps)
next
  case (Spawn t us vs)
  then show ?thesis using assms(1)
    by (auto simp: tree_good_def frontier_def tp_Alive_def tree_rooted_def ac_simps)
next
  case (Load t x us vs)
  then show ?thesis using assms(1) by (auto simp: tree_good_def frontier_def tp_Alive_def)
next
  case (Store t xs us vs)
  then show ?thesis using assms(1) by (auto simp: tree_good_def frontier_def tp_Alive_def)
qed (use assms(1) in \<open>auto simp: tree_good_def frontier_def tp_Alive_def ac_simps\<close>)

section \<open>Progress\<close>

definition below :: "'p Tree \<Rightarrow> nat" where
  "below t = length (concat (map tree_paths (tree_Trees t)))"

lemma length_tree_paths: "length (tree_paths t) = Suc (below t)"
  by (cases t) (simp add: below_def)

fun worker_rank :: "'p tree_worker \<Rightarrow> nat" where
  "worker_rank TWaiting = 0"
| "worker_rank (TGot t) = 7 * below t + 5"
| "worker_rank (TFailed t e) = 7 * below t + 4"
| "worker_rank (TStoring t es) = 7 * below t + 3"
| "worker_rank (TSynced t) = 7 * below t + 2"
| "worker_rank (TSpawned t) = 1"

definition tree_rank :: "'p tree_pool \<Rightarrow> nat" where
  "tree_rank s =
     (if \<not> tp_Alive s then 0
      else 1 + (if tp_Closed s then 0 else 1) + sum_list (map (\<lambda>t. 7 * below t + 6) (tp_Tasks s)) +
        7 * length (concat (map tree_paths (concat (tp_Senders s)))) + sum_list (map worker_rank (tp_Workers s)))"

lemma tree_lowers:
  assumes "tree_step w job jobs e s = Some s'"
  shows "tree_rank s' < tree_rank s"
  using assms
proof (cases rule: tree_stepE)
  case (Sync i t us vs)
  then show ?thesis
    by (auto simp: tree_rank_def tp_Alive_def treeSync_def split: option.splits prod.splits sum.splits go_error.splits)
next
  case (Done i t us vs)
  then show ?thesis by (auto simp: tree_rank_def tp_Alive_def treeDone_def Let_def)
next
  case (Send t ts us vs)
  then show ?thesis by (simp add: tree_rank_def tp_Alive_def length_tree_paths)
next
  case (Spawn t us vs)
  then show ?thesis by (simp add: tree_rank_def tp_Alive_def below_def)
qed (auto simp: tree_rank_def tp_Alive_def)

definition tree_over :: "'p tree_pool \<Rightarrow> bool" where
  "tree_over s \<longleftrightarrow> \<not> tp_Alive s \<or> tp_Closed s"

lemma tree_enabled:
  assumes good: "tree_good jobs t0 s" and running: "tp_Alive s" "\<not> tp_Closed s"
  shows "\<exists>e. tree_step w job jobs e s \<noteq> None"
proof (rule ccontr)
  assume "\<nexists>e. tree_step w job jobs e s \<noteq> None"
  then have none: "tree_step w job jobs e s = None" for e by blast
  have jobs: "0 < jobs" "length (tp_Workers s) = jobs" using good by (simp_all add: tree_good_def)
  have idle: "tp_Workers s ! i = TWaiting" if "i < jobs" for i
    using none [of "TSync i"] none [of "TLoad i"] none [of "TStore i"] none [of "TSpawn i"] none [of "TDone i"] that jobs running
    by (cases "tp_Workers s ! i") auto
  then have tasks: "tp_Tasks s = []" using none [of "TTake 0"] jobs running by (auto split: list.splits)
  have "tp_Senders s ! k = []" if "k < length (tp_Senders s)" for k
    using none [of "TSend k"] that tasks jobs running by (auto split: list.splits)
  then have "gather id (tp_Senders s) = {#}" unfolding gather_empty by (metis id_apply in_set_conv_nth)
  moreover have "x = TWaiting" if "x \<in> set (tp_Workers s)" for x using that idle jobs by (auto simp: in_set_conv_nth)
  then have workers: "gather worker_trees (tp_Workers s) = {#}" "gather worker_debt (tp_Workers s) = {#}"
    unfolding gather_empty by (metis worker_trees.simps(5), metis worker_debt.simps(5))
  ultimately have "frontier s = {#}" by (simp add: frontier_def tasks)
  then have "tp_Wait s = 0" using good running workers by (simp add: tree_good_def tp_Alive_def)
  then show False using none [of TReturn] running by simp
qed

interpretation tree: terminating_pool "tree_step w job jobs" "tree_good jobs t0" tree_rank tree_over
  using tree_enabled by unfold_locales (auto simp: tree_over_def intro: tree_keeps tree_lowers)

section \<open>The local half\<close>

lemma concat_map_map: "(\<And>t. t \<in> set ts \<Longrightarrow> f t = map h (g t)) \<Longrightarrow> concat (map f ts) = map h (concat (map g ts))"
  by (induction ts) auto

lemma tree_ok_members:
  "tree_ok m t \<Longrightarrow> set (tree_paths t) \<subseteq> dom m \<Longrightarrow> tree_full t \<and> tree_members t = map (the \<circ> m) (tree_paths t)"
proof (induction t)
  case (Tree q v ts)
  have "tree_full t \<and> tree_members t = map (the \<circ> m) (tree_paths t)" if t: "t \<in> set ts" for t
  proof (rule Tree.IH [OF t])
    show "tree_ok m t" "set (tree_paths t) \<subseteq> dom m" using Tree.prems t by (auto simp: list_all_iff)
  qed
  then have "concat (map tree_members ts) = map (the \<circ> m) (concat (map tree_paths ts))" "list_all tree_full ts"
    by (auto simp: list_all_iff intro: concat_map_map)
  with Tree.prems show ?case by auto
qed

text \<open>The tree of the projects has no project at its root and below it every project once.\<close>

lemma ProjectsTree_members:
  assumes "\<forall>p \<in> set ps. trimSlashes (pPath p) = pPath p"
  shows "tree_rooted (ProjectsTree ps)" and "below (ProjectsTree ps) = length ps"
    and "tree_members (ProjectsTree ps) = map (the \<circ> IndexByPath ps) (sort (map pPath ps))"
proof -
  let ?ts = "treeAppend (IndexByPath ps) None [] (sort (map pPath ps))"
  have trim: "trimSlashes q = q" if "q \<in> set (sort (map pPath ps))" for q using that assms by auto
  have paths: "concat (map tree_paths ?ts) = sort (map pPath ps)"
    using treeAppend_paths [of "sort (map pPath ps)" None "[]" "IndexByPath ps"] trim by simp
  have "list_all (tree_ok (IndexByPath ps)) ?ts"
    using treeAppend_ok [of "sort (map pPath ps)" "IndexByPath ps" "[]" None] trim by simp
  moreover have "set (map pPath qs) \<subseteq> dom (IndexByPath qs)" for qs
    by (induction qs rule: rev_induct) (auto simp: IndexByPath_simps)
  then have "set (map pPath ps) \<subseteq> dom (IndexByPath ps)" .
  then have "set (tree_paths t) \<subseteq> dom (IndexByPath ps)" if "t \<in> set ?ts" for t
  proof -
    have "set (tree_paths t) \<subseteq> set (concat (map tree_paths ?ts))" using that by auto
    then show ?thesis using \<open>set (map pPath ps) \<subseteq> dom (IndexByPath ps)\<close> unfolding paths by auto
  qed
  ultimately have t: "tree_full t \<and> tree_members t = map (the \<circ> IndexByPath ps) (tree_paths t)" if "t \<in> set ?ts" for t
    using that tree_ok_members [of "IndexByPath ps" t] by (auto simp: list_all_iff)
  then have "concat (map tree_members ?ts) = map (the \<circ> IndexByPath ps) (concat (map tree_paths ?ts))"
    by (intro concat_map_map) blast
  then show "tree_members (ProjectsTree ps) = map (the \<circ> IndexByPath ps) (sort (map pPath ps))"
    by (simp add: ProjectsTree_def paths)
  show "tree_rooted (ProjectsTree ps)" using t by (auto simp: tree_rooted_def ProjectsTree_def list_all_iff)
  show "below (ProjectsTree ps) = length ps" using arg_cong [OF paths, of length] by (simp add: below_def ProjectsTree_def)
qed

lemma IndexByPath_sorted:
  assumes "distinct (map pPath ps)"
  shows "mset (map (the \<circ> IndexByPath ps) (sort (map pPath ps))) = mset ps"
proof -
  have "the (IndexByPath ps (pPath p)) = p" if "p \<in> set ps" for p
    using that IndexByPath_iff [OF assms, of "pPath p" p] by simp
  then have "image_mset (\<lambda>p. the (IndexByPath ps (pPath p))) (mset ps) = mset ps"
    using image_mset_cong [of "mset ps" "\<lambda>p. the (IndexByPath ps (pPath p))" id] by simp
  then show ?thesis by (simp add: image_mset.compositionality comp_def)
qed

lemma tree_start_good:
  assumes "\<forall>p \<in> set ps. trimSlashes (pPath p) = pPath p"
  shows "tree_good (jobCount jobs) (ProjectsTree ps) (tree_start (jobCount jobs) ps tr)"
  using ProjectsTree_members [OF assms] jobCount_pos [of jobs]
  by (auto simp: tree_good_def tree_start_def frontier_def traversal.start list_all_iff)

lemma tree_rank_start:
  assumes "\<forall>p \<in> set ps. trimSlashes (pPath p) = pPath p"
  shows "tree_rank (tree_start jobs ps tr) = 7 * length ps + 8"
  using ProjectsTree_members(2) [OF assms]
  by (simp add: tree_rank_def tp_Alive_def tree_start_def map_replicate_const sum_list_replicate)

lemma LocalHalf_good:
  assumes "\<forall>p \<in> set ps. trimSlashes (pPath p) = pPath p" and "LocalHalf w st tables co jobs ps es tr = Some s"
  shows "tree_good (jobCount jobs) (ProjectsTree ps) s"
  using tree.run_inv [OF tree_start_good [OF assms(1)]] assms(2) unfolding LocalHalf_def by blast

text \<open>
  Property C1. At every moment the checkouts done by the local half are those of a traversal of
  the tree of projects, whatever the interleaving: in particular a project inside another one is
  checked out after it. No worker sends to the closed channel or counts below zero.
\<close>

theorem LocalHalf_parents_first:
  assumes "\<forall>p \<in> set ps. trimSlashes (pPath p) = pPath p" and "distinct (map pPath ps)"
    and "LocalHalf w st tables co jobs ps es tr = Some s" and "tp_Exit s = None"
  shows "traversal {#ProjectsTree ps#} (map fst (tp_Synced s)) (frontier s) \<and> tp_Crash s = None \<and>
    (\<forall>(p, c) \<in> set (tree_edges (ProjectsTree ps)). c \<in> fst ` set (tp_Synced s) \<longrightarrow>
      (\<exists>ys zs. map fst (tp_Synced s) = ys @ c # zs \<and> p \<in> set ys))"
proof -
  have good: "tree_good (jobCount jobs) (ProjectsTree ps) s" by (rule LocalHalf_good [OF assms(1,3)])
  then have t: "traversal {#ProjectsTree ps#} (map fst (tp_Synced s)) (frontier s)"
    using assms(4) by (simp add: tree_good_def)
  have "mset (tree_members (ProjectsTree ps)) = mset ps"
    unfolding ProjectsTree_members(3) [OF assms(1)] by (rule IndexByPath_sorted [OF assms(2)])
  then have "distinct (tree_members (ProjectsTree ps))" using assms(2) by (metis distinct_map mset_eq_imp_distinct_iff)
  then have "c \<in> set (map fst (tp_Synced s)) \<longrightarrow> (\<exists>ys zs. map fst (tp_Synced s) = ys @ c # zs \<and> p \<in> set ys)"
    if "(p, c) \<in> set (tree_edges (ProjectsTree ps))" for p c
    using traversal_edges [OF t refl _ that] by blast
  then have "\<forall>(p, c) \<in> set (tree_edges (ProjectsTree ps)). c \<in> fst ` set (tp_Synced s) \<longrightarrow>
      (\<exists>ys zs. map fst (tp_Synced s) = ys @ c # zs \<and> p \<in> set ys)"
    unfolding set_map by blast
  then show ?thesis using t good unfolding tree_good_def by blast
qed

lemma tree_complete:
  assumes "\<forall>p \<in> set ps. trimSlashes (pPath p) = pPath p" and "distinct (map pPath ps)"
    and "LocalHalf w st tables co jobs ps es tr = Some s" and "tp_Exit s = None" and "tp_Closed s"
  shows "mset (map fst (tp_Synced s)) = mset ps \<and> set (tp_Errs s) \<subseteq> failuresOf (tp_Synced s) \<and>
    (errorLines (tp_Errs s) = Inr () \<longleftrightarrow> failuresOf (tp_Synced s) = {})"
proof -
  have good: "tree_good (jobCount jobs) (ProjectsTree ps) s" by (rule LocalHalf_good [OF assms(1,3)])
  then have zero: "size (members (frontier s)) = 0" "size (gather worker_debt (tp_Workers s)) = 0"
    using assms(4,5) unfolding tree_good_def by linarith+
  have "members {#ProjectsTree ps#} = mset (map fst (tp_Synced s)) + members (frontier s)"
    using good assms(4) by (intro traversal_members) (simp add: tree_good_def)
  then have "mset (map fst (tp_Synced s)) = mset ps"
    using zero(1) IndexByPath_sorted [OF assms(2)] by (simp add: ProjectsTree_members(3) [OF assms(1)])
  moreover have "worker_errs x = []" if x: "x \<in> set (tp_Workers s)" for x
  proof -
    have "worker_debt x = []" using x zero(2) by (simp only: size_eq_0_iff_empty gather_empty)
    moreover have "worker_rooted x" using good x by (auto simp: tree_good_def list_all_iff)
    ultimately show ?thesis by (cases x) (auto simp: rootProject_def)
  qed
  ultimately show ?thesis using good assms(4) by (auto simp: tree_good_def errorLines_def)
qed

text \<open>
  Property C2. When the local half returns, every project was checked out exactly once, and it
  returns an error exactly when a checkout failed. The unlocked append may lose the messages of
  some of the errors, but never all of them.
\<close>

theorem LocalHalf_complete:
  assumes "\<forall>p \<in> set ps. trimSlashes (pPath p) = pPath p" and "distinct (map pPath ps)"
    and "LocalHalf w st tables co jobs ps es tr = Some s" and "tp_Exit s = None" and "tp_Closed s"
  shows "mset (map fst (tp_Synced s)) = mset ps \<and> set (tp_Errs s) \<subseteq> failuresOf (tp_Synced s) \<and>
    (errorLines (tp_Errs s) = Inr () \<longleftrightarrow> failuresOf (tp_Synced s) = {})"
  using assms by (rule tree_complete)

text \<open>Three projects, one inside another, whose checkouts all fail; the first two race for the
  list of errors.\<close>

definition sample_three :: "WorkProject list" where
  "sample_three = [sample_project ''a/c'', sample_project ''a'', sample_project ''b'']"

definition sample_race :: "tree_event list" where
  "sample_race = [TTake 0, TSync 0, TSpawn 0, TDone 0, TSend 0, TSend 0, TTake 0, TTake 1, TSync 0, TSync 1, TLoad 0, TLoad 1,
     TStore 0, TStore 1, TSpawn 0, TSpawn 1, TDone 0, TDone 1, TSend 1, TTake 0, TSync 0, TLoad 0, TStore 0, TSpawn 0, TDone 0, TReturn]"

definition sample_local :: "tree_event list \<Rightarrow> WorkProject tree_pool option" where
  "sample_local es = LocalHalf (\<lambda>_. sample_machine) RepoSettings0 (\<lambda>_. NewRemoteMap) sample_checkout 2 sample_three es []"

lemma sample_three_paths: "\<forall>p \<in> set sample_three. trimSlashes (pPath p) = pPath p" "distinct (map pPath sample_three)"
  by code_simp+

lemma sample_sync_fails:
  "q \<in> {''a'', ''b'', ''a/c''}
    \<Longrightarrow> \<exists>tr' e. SyncLocalHalf RepoSettings0 NewRemoteMap (sample_project q) sample_checkout (\<lambda>_. sample_machine) tr = (tr', Inl (Error e))"
proof -
  assume "q \<in> {''a'', ''b'', ''a/c''}"
  moreover have "case SyncLocalHalf RepoSettings0 NewRemoteMap (sample_project ''a'') sample_checkout (\<lambda>_. sample_machine) tr of (_, Inl (Error _)) \<Rightarrow> True | _ \<Rightarrow> False" by code_simp
  moreover have "case SyncLocalHalf RepoSettings0 NewRemoteMap (sample_project ''b'') sample_checkout (\<lambda>_. sample_machine) tr of (_, Inl (Error _)) \<Rightarrow> True | _ \<Rightarrow> False" by code_simp
  moreover have "case SyncLocalHalf RepoSettings0 NewRemoteMap (sample_project ''a/c'') sample_checkout (\<lambda>_. sample_machine) tr of (_, Inl (Error _)) \<Rightarrow> True | _ \<Rightarrow> False" by code_simp
  ultimately show ?thesis by (auto split: prod.splits sum.splits go_error.splits)
qed
lemma sample_tree:
  "ProjectsTree sample_three =
     Tree ''/'' None [Tree ''a'' (Some (sample_project ''a'')) [Tree ''a/c'' (Some (sample_project ''a/c'')) []], Tree ''b'' (Some (sample_project ''b'')) []]"
  by code_simp

lemma sample_local_run:
  obtains s where "sample_local sample_race = Some s" "tp_Exit s = None" "tp_Closed s"
    "map (pPath \<circ> fst) (tp_Synced s) = [''a'', ''b'', ''a/c'']" "length (tp_Errs s) = 2" "list_all (\<lambda>(p, r). r \<noteq> None) (tp_Synced s)"
proof -
  let ?sync = "\<lambda>q. SyncLocalHalf RepoSettings0 NewRemoteMap (sample_project q) sample_checkout (\<lambda>_. sample_machine)"
  obtain t1 e1 where 1: "?sync ''a'' [] = (t1, Inl (Error e1))" using sample_sync_fails by blast
  obtain t2 e2 where 2: "?sync ''b'' t1 = (t2, Inl (Error e2))" using sample_sync_fails by blast
  obtain t3 e3 where 3: "?sync ''a/c'' t2 = (t3, Inl (Error e3))" using sample_sync_fails by blast
  have const: "jobCount 2 = 2" "length sample_three = 3" "pPath (sample_project q) = q" for q
    by (simp_all add: jobCount_def sample_three_def sample_project_def)
  have "\<exists>s. sample_local sample_race = Some s \<and> tp_Exit s = None \<and> tp_Closed s \<and> map (pPath \<circ> fst) (tp_Synced s) = [''a'', ''b'', ''a/c''] \<and>
      length (tp_Errs s) = 2 \<and> list_all (\<lambda>(p, r). r \<noteq> None) (tp_Synced s)"
    unfolding sample_local_def LocalHalf_def tree_start_def sample_tree const sample_race_def
    by (simp add: treeSync_def treeDone_def tp_Alive_def 1 2 3 numeral_2_eq_2 const)
  then show thesis by (elim exE conjE) (rule that)
qed

theorem LocalHalf_parents_first_witness:
  "\<exists>s. sample_local sample_race = Some s \<and> tp_Crash s = None \<and> length (tp_Synced s) = 3 \<and>
     traversal {#ProjectsTree sample_three#} (map fst (tp_Synced s)) (frontier s)"
proof -
  obtain s where s: "sample_local sample_race = Some s" "tp_Exit s = None" "tp_Closed s"
    "map (pPath \<circ> fst) (tp_Synced s) = [''a'', ''b'', ''a/c'']" "length (tp_Errs s) = 2" "list_all (\<lambda>(p, r). r \<noteq> None) (tp_Synced s)"
    by (rule sample_local_run)
  from arg_cong [OF s(4), of length] have "length (tp_Synced s) = 3" by simp
  with LocalHalf_parents_first [OF sample_three_paths s(1) [unfolded sample_local_def] s(2)] s(1) show ?thesis by (intro exI [of _ s]) simp
qed

theorem LocalHalf_complete_witness:
  "\<exists>s. sample_local sample_race = Some s \<and> mset (map fst (tp_Synced s)) = mset sample_three \<and> errorLines (tp_Errs s) \<noteq> Inr ()"
proof -
  obtain s where s: "sample_local sample_race = Some s" "tp_Exit s = None" "tp_Closed s"
    "map (pPath \<circ> fst) (tp_Synced s) = [''a'', ''b'', ''a/c'']" "length (tp_Errs s) = 2" "list_all (\<lambda>(p, r). r \<noteq> None) (tp_Synced s)"
    by (rule sample_local_run)
  then have "errorLines (tp_Errs s) \<noteq> Inr ()" by (auto simp: errorLines_def)
  with LocalHalf_complete [OF sample_three_paths s(1) [unfolded sample_local_def] s(2,3)] s(1) show ?thesis by (intro exI [of _ s]) simp
qed

text \<open>Three checkouts failed, and two messages are left: one was overwritten.\<close>

lemma LocalHalf_loses_message:
  "\<exists>s. sample_local sample_race = Some s \<and> tp_Closed s \<and> length (filter (\<lambda>(p, r). r \<noteq> None) (tp_Synced s)) = 3 \<and> length (tp_Errs s) = 2"
proof -
  obtain s where s: "sample_local sample_race = Some s" "tp_Exit s = None" "tp_Closed s"
    "map (pPath \<circ> fst) (tp_Synced s) = [''a'', ''b'', ''a/c'']" "length (tp_Errs s) = 2" "list_all (\<lambda>(p, r). r \<noteq> None) (tp_Synced s)"
    by (rule sample_local_run)
  have "filter (\<lambda>(p, r). r \<noteq> None) (tp_Synced s) = tp_Synced s" using s(6) by (simp add: list_all_iff filter_id_conv)
  moreover have "length (tp_Synced s) = 3" using arg_cong [OF s(4), of length] by simp
  ultimately show ?thesis using s(1,3,5) by (intro exI [of _ s]) simp
qed

text \<open>
  Property C3. The local half cannot hang: every run has a bounded number of events, a run that
  cannot go on has returned (unless a fatal error ended the process), and every run can be
  continued until it returns.
\<close>

theorem LocalHalf_returns:
  assumes "\<forall>p \<in> set ps. trimSlashes (pPath p) = pPath p"
    and "LocalHalf w st tables co jobs ps es tr = Some s"
  shows "length es \<le> 7 * length ps + 8 \<and>
    (stuck (tree_step w (\<lambda>p. SyncLocalHalf st (tables p) p co) (jobCount jobs)) s \<longrightarrow> tp_Exit s \<noteq> None \<or> tp_Closed s) \<and>
    (\<exists>fs s'. LocalHalf w st tables co jobs ps (es @ fs) tr = Some s' \<and> (tp_Exit s' \<noteq> None \<or> tp_Closed s'))"
proof -
  have good: "tree_good (jobCount jobs) (ProjectsTree ps) s" by (rule LocalHalf_good [OF assms])
  have over: "tree_over s' \<longleftrightarrow> tp_Exit s' \<noteq> None \<or> tp_Closed s'" if "tree_good (jobCount jobs) (ProjectsTree ps) s'" for s' :: "WorkProject tree_pool"
    using that by (auto simp: tree_over_def tp_Alive_def tree_good_def)
  note run = assms(2) [unfolded LocalHalf_def]
  have "length es \<le> 7 * length ps + 8"
    using tree.run_bounded [OF tree_start_good [OF assms(1)] run] by (simp add: tree_rank_start [OF assms(1)])
  moreover obtain fs s' where fs: "runs (tree_step w (\<lambda>p. SyncLocalHalf st (tables p) p co) (jobCount jobs)) fs s = Some s'" "tree_over s'"
    using tree.run_completes [OF good] by blast
  then have "LocalHalf w st tables co jobs ps (es @ fs) tr = Some s'" using run by (simp add: LocalHalf_def runs_append)
  moreover have "tp_Exit s' \<noteq> None \<or> tp_Closed s'" using over [OF tree.run_inv [OF good fs(1)]] fs(2) by blast
  ultimately show ?thesis using tree.run_stops [OF tree_start_good [OF assms(1)] run] over [OF good] by blast
qed

theorem LocalHalf_returns_witness:
  "length sample_race \<le> 29 \<and>
   (\<exists>fs s'. LocalHalf (\<lambda>_. sample_machine) RepoSettings0 (\<lambda>_. NewRemoteMap) sample_checkout 2 sample_three (sample_race @ fs) [] = Some s' \<and>
     (tp_Exit s' \<noteq> None \<or> tp_Closed s'))"
proof -
  obtain s where s: "sample_local sample_race = Some s" "tp_Exit s = None" "tp_Closed s"
    "map (pPath \<circ> fst) (tp_Synced s) = [''a'', ''b'', ''a/c'']" "length (tp_Errs s) = 2" "list_all (\<lambda>(p, r). r \<noteq> None) (tp_Synced s)"
    by (rule sample_local_run)
  have "length sample_three = 3" by (simp add: sample_three_def)
  then show ?thesis using LocalHalf_returns [OF sample_three_paths(1) s(1) [unfolded sample_local_def]] by (simp only:) simp
qed

end
