(* ===== verification/Upload_Review.thy ===== *)
theory Upload_Review
  imports Network_Half
begin

text \<open>
  Sending and fetching reviews of a project (project/upload.go, project/download.go): which
  branches have commits to review, the push with the record of what was published, and the
  download of a change.
\<close>

section \<open>Branches to review\<close>

record RemoteTrack =
  rt_Remote :: string
  rt_Branch :: string
  rt_Name :: string
  rt_Hash :: string

record ReviewableBranch =
  rb_Branch :: Branch
  rb_DestBranch :: string
  rb_Track :: RemoteTrack
  rb_CodeReview :: CodeReview
  rb_Remote :: "PRemote option"

text \<open>The reference that records what was published, and its commit if there is one.\<close>

definition publishedName :: "ReviewableBranch \<Rightarrow> string" where
  "publishedName rb =
     (if CodeReview_Empty (rb_CodeReview rb) then RefsPub @ ShortName (rb_Branch rb) else cr_Ref (rb_CodeReview rb))"

definition rb_Published :: "machine \<Rightarrow> WorkProject \<Rightarrow> ReviewableBranch \<Rightarrow> (string \<times> string) option" where
  "rb_Published mc p rb =
     (case ResolveRevision mc p (publishedName rb) of Inl _ \<Rightarrow> None | Inr i \<Rightarrow> Some (publishedName rb, i))"

definition IsPublished :: "machine \<Rightarrow> WorkProject \<Rightarrow> ReviewableBranch \<Rightarrow> bool" where
  "IsPublished mc p rb \<longleftrightarrow> rb_Published mc p rb \<noteq> None"

definition rb_Commits :: "machine \<Rightarrow> WorkProject \<Rightarrow> ReviewableBranch \<Rightarrow> string list" where
  "rb_Commits mc p rb =
     revlistOrNone mc p [br_Hash (rb_Branch rb), ''--not'',
       if CodeReview_Empty (rb_CodeReview rb) then rt_Hash (rb_Track rb) else cr_Ref (rb_CodeReview rb)]"

text \<open>Reviewers and copies from the settings of the review server. The lists of a caller are
  changed only in the elements of the outer list.\<close>

definition splitPeople :: "string \<Rightarrow> string list" where
  "splitPeople s = (if s = [] then [] else map TrimSpace (StrSplit s CHR '',''))"

definition AppendReviewers :: "(string \<Rightarrow> string) \<Rightarrow> ReviewableBranch \<Rightarrow> string list list \<Rightarrow> string list list result" where
  "AppendReviewers getCfg rb pss =
     (let review = (case rb_Remote rb of None \<Rightarrow> [] | Some r \<Rightarrow> rm_Review (pr_Remote r)) in
      if review = [] then Inr pss
      else
        let rs = splitPeople (getCfg (''review.'' @ review @ ''.autoreviewer''));
            cs = splitPeople (getCfg (''review.'' @ review @ ''.autocopy''))
        in if rs \<noteq> [] \<and> length pss < 1 \<or> cs \<noteq> [] \<and> length pss < 2 then Inl (Panic ''index out of range'')
           else
             let p1 = (if rs \<noteq> [] then pss[0 := pss ! 0 @ rs] else pss) in
             Inr (if cs \<noteq> [] then p1[1 := p1 ! 1 @ cs] else p1))"

definition GetUploadableBranch :: "machine \<Rightarrow> WorkProject \<Rightarrow> string \<Rightarrow> PRemote option \<Rightarrow> string \<Rightarrow> bool \<Rightarrow> ReviewableBranch option result" where
  "GetUploadableBranch mc v branch0 remote remoteBranch0 ignorePublished =
     (case remote of None \<Rightarrow> Inr None
      | Some r \<Rightarrow>
        let b0 = headOr mc v branch0 in
        if b0 = [] then Inr None
        else
          let branch = TrimPrefix b0 RefsHeads in
          bind_result (if remoteBranch0 = [] then ConfigGet mc v (branchKey branch ''merge'') else Inr remoteBranch0) (\<lambda>remoteBranch.
          case ResolveRevision mc v branch of
            Inl _ \<Rightarrow> Inr None
          | Inr branchID \<Rightarrow>
            let fixed = Revision (mproject v) = [] \<or> IsImmutable (Revision (mproject v)) in
            if fixed \<and> (case ResolveRevision mc v (Revision (mproject v)) of Inl _ \<Rightarrow> True | Inr revID \<Rightarrow> revID = branchID) then Inr None
            else
              let track = RemoteMatchingBranch (rm_Name (pr_Remote r)) remoteBranch in
              case ResolveRevision mc v track of
                Inl _ \<Rightarrow> Inr None
              | Inr trackID \<Rightarrow>
                bind_result (TrackBranch mc v branch) (\<lambda>dest.
                let rb = \<lparr>rb_Branch = \<lparr>br_Name = branch, br_Hash = branchID\<rparr>, rb_DestBranch = dest,
                          rb_Track = \<lparr>rt_Remote = rm_Name (pr_Remote r), rt_Branch = remoteBranch, rt_Name = track, rt_Hash = trackID\<rparr>,
                          rb_CodeReview = \<lparr>cr_ID = [], cr_Ref = []\<rparr>, rb_Remote = Some r\<rparr> in
                if rb_Commits mc v rb = [] then Inr None
                else if \<not> ignorePublished \<and> (case rb_Published mc v rb of None \<Rightarrow> False | Some (_, i) \<Rightarrow> i = branchID) then Inr None
                else Inr (Some rb))))"

definition GetUploadableBranchForChange :: "machine \<Rightarrow> WorkProject \<Rightarrow> string \<Rightarrow> PRemote option \<Rightarrow> CodeReview \<Rightarrow> ReviewableBranch option" where
  "GetUploadableBranchForChange mc v branch0 remote codeReview =
     (let b0 = headOr mc v branch0 in
      if b0 = [] then None
      else
        let branch = TrimPrefix b0 RefsHeads in
        case ResolveRevision mc v branch of
          Inl _ \<Rightarrow> None
        | Inr branchID \<Rightarrow>
          let rb = \<lparr>rb_Branch = \<lparr>br_Name = branch, br_Hash = branchID\<rparr>, rb_DestBranch = [],
                    rb_Track = \<lparr>rt_Remote = [], rt_Branch = [], rt_Name = [], rt_Hash = []\<rparr>,
                    rb_CodeReview = codeReview, rb_Remote = remote\<rparr> in
          if rb_Commits mc v rb = [] then None else Some rb)"

text \<open>With no branch given, the remote of the current branch is used for every branch.\<close>

definition GetUploadableBranches :: "machine \<Rightarrow> RemoteMap \<Rightarrow> WorkProject \<Rightarrow> string \<Rightarrow> bool \<Rightarrow> ReviewableBranch list result" where
  "GetUploadableBranches mc m v branch ignorePublished =
     (let get = (\<lambda>b. bind_result (GetBranchRemote mc m v branch False) (\<lambda>remote.
                  GetUploadableBranch mc v b remote [] ignorePublished)) in
      if branch \<noteq> [] then bind_result (get branch) (\<lambda>rb. Inr (case rb of None \<Rightarrow> [] | Some x \<Rightarrow> [x]))
      else bind_result (Heads mc v) (\<lambda>heads.
        bind_result (mapM_result (\<lambda>h. get (br_Name h)) heads) (\<lambda>rbs. Inr (List.map_filter id rbs))))"

section \<open>Sending a review\<close>

record upload_env =
  ue_ext :: ext_env
  ue_ssh :: ssh_env
  ue_Git :: string              \<comment> \<open>version of git\<close>
  ue_Version :: string          \<comment> \<open>version of this program\<close>
  ue_Email :: string
  ue_Login :: "string option"
  ue_DryRun :: bool

text \<open>The additional environment of the push.\<close>

definition pushEnv :: "ssh_env \<Rightarrow> GitURL \<Rightarrow> GitPushCommand \<Rightarrow> string list result" where
  "pushEnv env url cmd =
     (if gp_Env cmd = [] then Inr []
      else if IsSSH url then
        bind_result (SSHCommand env (NewSSHCmd env) [] 0 (gp_Env cmd)) (\<lambda>(_, sshArgs, envs).
        bind_result (NewShellCmdFromArgs sshArgs) (\<lambda>sh.
        bind_result (QuoteCommand sh) (\<lambda>q. Inr (envs @ [''GIT_SSH_COMMAND='' @ q]))))
      else Inr (gp_Env cmd))"

definition pushArgs :: "GitPushCommand \<Rightarrow> string list" where
  "pushArgs cmd = gp_Cmd cmd # concat (map (\<lambda>c. [''-c'', c]) (gp_GitConfig cmd)) @ gp_Args cmd"

definition uploadOptions :: "upload_env \<Rightarrow> WorkProject \<Rightarrow> ReviewableBranch \<Rightarrow> UploadOptions \<Rightarrow> (GitURL \<times> UploadOptions) result" where
  "uploadOptions ue p rb uo =
     bind_result (GetRemotePushNameURL (ue_Email ue) (ue_Login ue) p (rb_Remote rb)) (\<lambda>(name, url).
       if url = [] then Inl (Error (''project '' @ sq (pName p) @ '' has no review url''))
       else case ParseGitURL url of
           None \<Rightarrow> Inl (Error (''bad review URL: '' @ url))
         | Some gitURL \<Rightarrow>
           let uo1 = uo\<lparr>UploadOptions.RemoteName := name, UploadOptions.RemoteURL := url\<rparr> in
           if CodeReview_Empty (rb_CodeReview rb) \<and> uo_DestBranch uo1 = [] then
             if rb_DestBranch rb = [] then Inl (Error ''no destination for review'')
             else Inr (gitURL, uo1\<lparr>uo_DestBranch := rb_DestBranch rb\<rparr>)
           else Inr (gitURL, uo1))"

definition reviewHelper :: "upload_env \<Rightarrow> ReviewableBranch \<Rightarrow> UploadOptions \<Rightarrow> GitPushCommand result" where
  "reviewHelper ue rb uo =
     (case rb_Remote rb of None \<Rightarrow> Inl nilPointer
      | Some r \<Rightarrow>
        (case pr_Helper r of
           None \<Rightarrow> Inl (Error ''not implement'')
         | Some h \<Rightarrow> GetGitPushCommand (ue_ext ue) (ue_Git ue) (ue_Version ue) h uo))"

definition UploadForReview :: "upload_env \<Rightarrow> WorkProject \<Rightarrow> ReviewableBranch \<Rightarrow> UploadOptions \<Rightarrow> unit op" where
  "UploadForReview ue p rb uo0 =
     bnd (lookR (\<lambda>_. uploadOptions ue p rb uo0)) (\<lambda>(gitURL, uo).
     bnd (lookR (\<lambda>_. reviewHelper ue rb uo)) (\<lambda>cmd.
     bnd (lookR (\<lambda>_. pushEnv (ue_ssh ue) gitURL cmd)) (\<lambda>envs.
     andThen (doIf (\<not> (ue_DryRun ue \<or> MockGitPush uo))
               (wrapErr (\<lambda>e. ''upload failed: '' @ e) (perform (RunEnv (WorkDir p) envs (pushArgs cmd)))))
       (let branchName = TrimPrefix (br_Name (rb_Branch rb)) RefsHeads;
            ref = (if CodeReview_Empty (rb_CodeReview rb) then RefsPub @ branchName else cr_Ref (rb_CodeReview rb))
        in wrapErr (\<lambda>e. ''fail to create or update reference '' @ sq ref @ '': '' @ e)
             (UpdateRef p (ue_DryRun ue) ref (RefsHeads @ branchName))))))"

section \<open>Fetching a review (project/download.go)\<close>

record PatchSet =
  ps_Reference :: string
  ps_Commits :: "string list"
  ps_Commit :: string

definition downloadArgs :: "string \<Rightarrow> string \<Rightarrow> string list \<Rightarrow> string list" where
  "downloadArgs remoteName ref options =
     [''git'', ''fetch''] @ concat (map (\<lambda>x. [''-o'', x]) options) @ [remoteName, ''+'' @ ref @ '':'' @ ref, ''--'']"

definition DownloadPatchSet :: "ext_env \<Rightarrow> RemoteMap \<Rightarrow> WorkProject \<Rightarrow> string \<Rightarrow> int \<Rightarrow> int \<Rightarrow> PatchSet op" where
  "DownloadPatchSet env m v remoteName reviewID patchID =
     bnd (if remoteName \<noteq> [] then ret (RemoteMap_Get m remoteName) else lookR (\<lambda>mc. GetDefaultRemote mc m v True)) (\<lambda>remote.
       let unknown = Fatal (Prompt v @ ''not remote tracking defined, and do not know where to download'') in
       case remote of None \<Rightarrow> fail unknown
       | Some r \<Rightarrow>
         (case pr_Helper r of None \<Rightarrow> fail unknown
          | Some h \<Rightarrow>
            if \<not> ProtoHelperReady r then fail unknown
            else bnd (lookR (\<lambda>_. GetDownloadRefOptions env h (Itoa reviewID) (Itoa patchID))) (\<lambda>(ref, options).
              if ref = [] then fail (Error (''cannot find review reference for '' @ pName v))
              else andThen (executeCommandIn (WorkDir v) (downloadArgs (rm_Name (pr_Remote r)) ref options))
                (bnd (lookR (\<lambda>mc. Revlist mc v [ref, ''--not'', ''HEAD''])) (\<lambda>commits.
                 case commits of
                   c # _ \<Rightarrow> ret \<lparr>ps_Reference = ref, ps_Commits = commits, ps_Commit = c\<rparr>
                 | [] \<Rightarrow> bnd (lookR (\<lambda>mc. ResolveRevision mc v ref)) (\<lambda>c.
                     ret \<lparr>ps_Reference = ref, ps_Commits = [], ps_Commit = c\<rparr>))))))"

text \<open>The commits come newest first and are applied from the last one.\<close>

definition CherryPick :: "WorkProject \<Rightarrow> string list \<Rightarrow> unit op" where
  "CherryPick v commits = each (\<lambda>c. executeCommandIn (WorkDir v) [''git'', ''cherry-pick'', c, ''--'']) (rev commits)"

definition Revert :: "WorkProject \<Rightarrow> string \<Rightarrow> unit op" where
  "Revert v commit = executeCommandIn (WorkDir v) [''git'', ''revert'', commit, ''--'']"

section \<open>What is recorded as published\<close>

lemma uploadOptions_Mock: "uploadOptions ue p rb uo = Inr (g, uo') \<Longrightarrow> MockGitPush uo' = MockGitPush uo"
  by (auto simp: uploadOptions_def Let_def result_simps split: if_splits option.splits)

lemma wrapErr_at:
  "wrapErr g m w tr = (case m w tr of (tr1, Inl (Error e)) \<Rightarrow> (tr1, Inl (Error (g e))) | r \<Rightarrow> r)"
  by (auto simp: wrapErr_def bnd_def attempt_def ret_def fail_def split: prod.splits sum.splits go_error.splits)

lemma fst_wrapErr [simp]: "fst (wrapErr g m w tr) = fst (m w tr)"
  by (auto simp: wrapErr_at split: prod.splits sum.splits go_error.splits)

lemma bnd_wrapErr_perform:
  "bnd (wrapErr g (perform a)) f w tr =
     (case mc_Fails (w tr) a of None \<Rightarrow> f () w (tr @ [a]) | Some e \<Rightarrow> (tr @ [a], Inl (Error (g e))))"
  by (simp add: bnd_def wrapErr_at op_simps split: option.splits)

lemma UpdateRef_acts:
  assumes "a \<in> set (acts (UpdateRef v dry ref base) w tr)"
  obtains d i where "a = SetRef d ref i" and "rawDir (w tr) v = Some d" and "\<not> dry"
    and "IsSha base \<and> i = base \<or> mc_Resolve (w tr) d base = Inr i"
  using assms
  by (auto simp: acts_def UpdateRef_def setReference_def op_simps split: if_splits option.splits sum.splits)

lemma branch_not_sha: "\<not> IsSha (RefsHeads @ b)"
  using IsSha_no_slash [of "RefsHeads @ b"] by (auto simp: RefsHeads_def)

definition pushAction :: "upload_env \<Rightarrow> WorkProject \<Rightarrow> ReviewableBranch \<Rightarrow> UploadOptions \<Rightarrow> action \<Rightarrow> bool" where
  "pushAction ue p rb uo a \<longleftrightarrow> (\<exists>g uo' cmd envs. uploadOptions ue p rb uo = Inr (g, uo') \<and> reviewHelper ue rb uo' = Inr cmd \<and>
     a = RunEnv (WorkDir p) envs (pushArgs cmd))"

lemma UploadForReview_parts:
  obtains (Failed) e where "UploadForReview ue p rb uo w tr = (tr, Inl e)"
  | (Pushed) a g where "pushAction ue p rb uo a"
      and "UploadForReview ue p rb uo w tr = andThen (doIf (\<not> (ue_DryRun ue \<or> MockGitPush uo)) (wrapErr (\<lambda>e. ''upload failed: '' @ e) (perform a)))
        (wrapErr g (UpdateRef p (ue_DryRun ue) (publishedName rb) (RefsHeads @ ShortName (rb_Branch rb)))) w tr"
proof (cases "\<exists>g uo' cmd envs. uploadOptions ue p rb uo = Inr (g, uo') \<and> reviewHelper ue rb uo' = Inr cmd \<and> pushEnv (ue_ssh ue) g cmd = Inr envs")
  case True
  then obtain g uo' cmd envs where u: "uploadOptions ue p rb uo = Inr (g, uo')" "reviewHelper ue rb uo' = Inr cmd"
    "pushEnv (ue_ssh ue) g cmd = Inr envs" by blast
  then have "pushAction ue p rb uo (RunEnv (WorkDir p) envs (pushArgs cmd))" unfolding pushAction_def by blast
  then show thesis
    by (rule Pushed [where g = "\<lambda>e. ''fail to create or update reference '' @ sq (publishedName rb) @ '': '' @ e"])
      (use u uploadOptions_Mock [OF u(1)] in \<open>simp add: UploadForReview_def op_simps publishedName_def ShortName_def Let_def\<close>)
next
  case False
  have "\<exists>e. UploadForReview ue p rb uo w tr = (tr, Inl e)"
  proof (cases "uploadOptions ue p rb uo")
    case (Inr gu)
    obtain g uo' where gu: "gu = (g, uo')" by fastforce
    show ?thesis
    proof (cases "reviewHelper ue rb uo'")
      case cmd: (Inr cmd)
      then obtain e where "pushEnv (ue_ssh ue) g cmd = Inl e" using False Inr gu by (cases "pushEnv (ue_ssh ue) g cmd") auto
      then show ?thesis using Inr gu cmd by (simp add: UploadForReview_def op_simps)
    qed (use Inr gu in \<open>simp add: UploadForReview_def op_simps\<close>)
  qed (simp add: UploadForReview_def op_simps)
  then show thesis using Failed by blast
qed

text \<open>
  Property C15. A branch is recorded as published only after it was pushed. Whenever the upload sets
  a reference, it is the reference under which the next synchronisation looks up the published
  commit of the branch (or the reference of the change), and it is set to the commit to which
  \<open>refs/heads/\<close> and the name of the branch resolve in the repository at that moment. Nothing else
  is done but the push of the review command before it, which succeeded; only when the push is
  mocked is the reference set without a push. A dry run sets no reference.
\<close>

theorem UploadForReview_publishes_after_push:
  assumes "SetRef d ref i \<in> set (acts (UploadForReview ue p rb uo) w tr)"
  shows "ref = publishedName rb \<and> \<not> ue_DryRun ue \<and>
    (CodeReview_Empty (rb_CodeReview rb) \<longrightarrow>
       (\<forall>mc. published mc p (br_Name (rb_Branch rb)) = (case resolveRaw mc p ref of None \<Rightarrow> [] | Some h \<Rightarrow> h))) \<and>
    (\<exists>before. (before = [] \<and> MockGitPush uo \<or> (\<exists>a. before = [a] \<and> pushAction ue p rb uo a \<and> mc_Fails (w tr) a = None)) \<and>
       acts (UploadForReview ue p rb uo) w tr = before @ [SetRef d ref i] \<and> rawDir (w (tr @ before)) p = Some d \<and>
       mc_Resolve (w (tr @ before)) d (RefsHeads @ ShortName (rb_Branch rb)) = Inr i)"
proof (cases rule: UploadForReview_parts [of ue p rb uo w tr])
  case (Failed e)
  then show ?thesis using assms by (simp add: acts_def)
next
  case (Pushed a g)
  let ?b = "RefsHeads @ ShortName (rb_Branch rb)"
  let ?U = "UpdateRef p (ue_DryRun ue) (publishedName rb) ?b"
  obtain before where before: "before = [] \<and> (MockGitPush uo \<or> ue_DryRun ue) \<or> before = [a] \<and> mc_Fails (w tr) a = None"
    and run: "UploadForReview ue p rb uo w tr = wrapErr g ?U w (tr @ before)"
  proof (cases "ue_DryRun ue \<or> MockGitPush uo")
    case True
    then show thesis using Pushed(2) by (intro that [of "[]"]) (auto simp: andThen_def doIf_def op_simps)
  next
    case False
    then show thesis
    proof (cases "mc_Fails (w tr) a")
      case None
      then show thesis using False Pushed(2)
        by (intro that [of "[a]"]) (auto simp: andThen_def doIf_def bnd_wrapErr_perform)
    next
      case (Some e)
      with False Pushed(2) have "fst (UploadForReview ue p rb uo w tr) = tr @ [a]"
        by (simp add: andThen_def doIf_def bnd_wrapErr_perform)
      then show thesis using assms Pushed(1) by (auto simp: acts_def pushAction_def)
    qed
  qed
  have "emits (\<lambda>_. True) ?U" unfolding UpdateRef_def setReference_def by (intro emits_intros) simp_all
  then obtain xs where xs: "fst (?U w (tr @ before)) = (tr @ before) @ xs" "xs = acts ?U w (tr @ before)"
    using emits_at by blast
  have acts: "acts (UploadForReview ue p rb uo) w tr = before @ xs" using run xs(1) by (simp add: acts_def)
  then have "SetRef d ref i \<in> set xs" using assms before Pushed(1) by (auto simp: pushAction_def)
  then obtain d' i' where one: "SetRef d ref i = SetRef d' (publishedName rb) i'" "rawDir (w (tr @ before)) p = Some d'"
    "\<not> ue_DryRun ue" "mc_Resolve (w (tr @ before)) d' ?b = Inr i'"
    unfolding xs(2) by (rule UpdateRef_acts) (use branch_not_sha in blast)
  have "length xs \<le> 1" unfolding xs(2) acts_def UpdateRef_def setReference_def
    by (auto simp: op_simps split: option.splits sum.splits)
  with \<open>SetRef d ref i \<in> set xs\<close> have "xs = [SetRef d ref i]" by (cases xs) auto
  then show ?thesis using one acts before Pushed(1)
    by (intro conjI exI [of _ before]) (auto simp: Let_def published_def PublishedRevision_def publishedName_def ShortName_def)
qed

definition sample_upload_env :: upload_env where
  "sample_upload_env = \<lparr>ue_ext = \<lparr>ee_LookPath = (\<lambda>_. None), ee_Run = (\<lambda>_ _. ExecError []), ee_MarshalOptions = (\<lambda>_. Inl []),
     ee_UnmarshalCommand = (\<lambda>_. Inl [])\<rparr>, ue_ssh = undefined, ue_Git = ''2.30'', ue_Version = ''7'', ue_Email = ''a@b'', ue_Login = None, ue_DryRun = False\<rparr>"

definition sample_review :: ReviewableBranch where
  "sample_review = \<lparr>rb_Branch = \<lparr>br_Name = ''b'', br_Hash = ''1''\<rparr>, rb_DestBranch = ''m'',
     rb_Track = \<lparr>rt_Remote = ''o'', rt_Branch = ''m'', rt_Name = [], rt_Hash = ''2''\<rparr>, rb_CodeReview = \<lparr>cr_ID = [], cr_Ref = []\<rparr>,
     rb_Remote = Some \<lparr>pr_Remote = sample_remote, pr_Helper = Some (GerritProtoHelper (SSHInfo0\<lparr>PushURL := ''ssh://g/x''\<rparr>))\<rparr>\<rparr>"

definition sample_upload_options :: UploadOptions where
  "sample_upload_options = \<lparr>AutoTopic = False, uo_CodeReview = \<lparr>cr_ID = [], cr_Ref = []\<rparr>, Description = [], uo_DestBranch = [], Draft = False,
     Issue = [], LocalBranch = ''b'', MockGitPush = False, NoCertChecks = False, NoEmails = False, OldOid = [], People = [], Private = False,
     PushOptions = [], UploadOptions.RemoteName = [], UploadOptions.RemoteURL = [], Title = [], WIP = False\<rparr>"

theorem UploadForReview_publishes_after_push_witness:
  "let A = acts (UploadForReview sample_upload_env sample_work sample_review sample_upload_options) (\<lambda>_. sample_machine) [] in
   SetRef ''/g'' ''refs/published/b'' ''1'' \<in> set A \<and> (\<exists>a. A = [a, SetRef ''/g'' ''refs/published/b'' ''1'']) \<and>
     mc_Resolve sample_machine ''/g'' ''refs/heads/b'' = Inr ''1''"
proof -
  let ?A = "acts (UploadForReview sample_upload_env sample_work sample_review sample_upload_options) (\<lambda>_. sample_machine) []"
  have "?A = [RunEnv ''/w'' [] [''git'', ''push'', ''--receive-pack=gerrit receive-pack'', ''ssh://g/x/p.git'', ''refs/heads/b:refs/for/m''],
      SetRef ''/g'' ''refs/published/b'' ''1'']" by code_simp
  then have in_A: "SetRef ''/g'' ''refs/published/b'' ''1'' \<in> set ?A" by simp
  have "\<not> MockGitPush sample_upload_options" by (simp add: sample_upload_options_def)
  moreover have "RefsHeads @ ShortName (rb_Branch sample_review) = ''refs/heads/b''" by code_simp
  ultimately show ?thesis using UploadForReview_publishes_after_push [OF in_A] in_A by (auto simp: Let_def)
qed

end
