(* ===== verification/Command.thy ===== *)
theory Command
  imports Upload_Review Workspace_Proofs
begin

text \<open>
  What the commands share (cmd/cmd.go): questions to the user, the kinds of error a command
  reports, and the checks of the workspace a command runs in.
\<close>

section \<open>Questions\<close>

text \<open>The global options the commands look at (package config).\<close>

record cmd_env =
  ce_AssumeYes :: bool
  ce_AssumeNo :: bool
  ce_Single :: bool
  ce_Quiet :: bool
  ce_NoCertChecks :: bool

definition userInput :: "cmd_env \<Rightarrow> string \<Rightarrow> string \<Rightarrow> string op" where
  "userInput env prompt defaultValue =
     (if ce_AssumeYes env then ret ''yes''
      else if ce_AssumeNo env then ret ''no''
      else andThen (ignore (perform (Ask prompt)))
        (bnd (look (\<lambda>mc. TrimSpace (mc_Answer mc))) (\<lambda>text. ret (if text = [] then defaultValue else text))))"

definition answerIsTrue :: "string \<Rightarrow> bool" where
  "answerIsTrue answer \<longleftrightarrow> ToLower (TrimSpace answer) \<in> set [''y'', ''yes'', ''t'', ''true'', ''on'', ''1'']"

section \<open>Errors of commands\<close>

record commandError =
  ce_s :: string
  ce_userError :: bool

text \<open>\<^verbatim>\<open>Sprintln\<close> puts blanks between its operands and ends the line.\<close>

definition Sprintln :: "string list \<Rightarrow> string" where
  "Sprintln a = StrJoin a '' '' @ [CHR 0x0A]"

definition newUserError :: "string list \<Rightarrow> commandError" where
  "newUserError a = \<lparr>ce_s = Sprintln a, ce_userError = True\<rparr>"

definition newUserErrorF :: "string \<Rightarrow> commandError" where
  "newUserErrorF text = \<lparr>ce_s = text, ce_userError = True\<rparr>"

definition newSystemError :: "string list \<Rightarrow> commandError" where
  "newSystemError a = \<lparr>ce_s = Sprintln a, ce_userError = False\<rparr>"

definition newSystemErrorF :: "string \<Rightarrow> commandError" where
  "newSystemErrorF text = \<lparr>ce_s = text, ce_userError = False\<rparr>"

text \<open>An error of another type is a user error by its words only.\<close>

definition isUserError :: "commandError + string \<Rightarrow> bool" where
  "isUserError err =
     (let words = (\<lambda>s. StrContains s ''argument'' \<or> StrContains s ''flag'' \<or> StrContains s ''shorthand'') in
      case err of Inl c \<Rightarrow> ce_userError c \<or> words (ce_s c) | Inr s \<Rightarrow> words s)"

definition userError :: "string \<Rightarrow> 'a op" where
  "userError s = fail (Error (ce_s (newUserError [s])))"

fun min_args :: "int list \<Rightarrow> int result" where
  "min_args [] = Inl (Panic ''index out of range'')"
| "min_args (m # args) = Inr (foldl (\<lambda>m a. if a < m then a else m) m args)"

section \<open>The workspace of a command\<close>

record WorkSpaceCommand =
  wc_MirrorOK :: bool
  wc_SingleOK :: bool

text \<open>A workspace is a repo workspace or a single repository (workspace/workspace.go).\<close>

datatype WorkSpace = RepoWS RepoWorkSpace | GitWS GitWorkSpace

fun IsMirror :: "WorkSpace \<Rightarrow> bool" where
  "IsMirror (RepoWS v) = Mirror (ws_Settings v)"
| "IsMirror (GitWS v) = False"

fun IsSingle :: "WorkSpace \<Rightarrow> bool" where
  "IsSingle (RepoWS v) = False"
| "IsSingle (GitWS v) = True"

fun WorkSpace_AdminDir :: "WorkSpace \<Rightarrow> string" where
  "WorkSpace_AdminDir (RepoWS v) = AdminDir v"
| "WorkSpace_AdminDir (GitWS v) = gw_GitDir v"

fun WorkSpace_GetProjects :: "machine \<Rightarrow> WorkSpace \<Rightarrow> string list \<Rightarrow> WorkProject list result" where
  "WorkSpace_GetProjects mc (RepoWS v) args = GetProjects mc v \<lparr>gp_Groups = [], MissingOK = False, SubmodulesOK = False\<rparr> args"
| "WorkSpace_GetProjects mc (GitWS v) args = Inr (gw_Projects v)"

definition checkWorkSpace :: "WorkSpaceCommand \<Rightarrow> cmd_env \<Rightarrow> WorkSpace \<Rightarrow> unit result" where
  "checkWorkSpace v env ws =
     (if \<not> wc_SingleOK v \<and> ce_Single env then Inl (Fatal ''cannot run in single mode'')
      else if \<not> wc_MirrorOK v \<and> IsMirror ws then Inl (Fatal ''cannot run in a mirror'')
      else Inr ())"

text \<open>\<open>found\<close> is the workspace found from the current directory; an error ends the process.\<close>

definition Cmd_WorkSpace :: "WorkSpaceCommand \<Rightarrow> cmd_env \<Rightarrow> WorkSpace result \<Rightarrow> WorkSpace result" where
  "Cmd_WorkSpace v env found =
     (case found of
        Inl (Error e) \<Rightarrow> Inl (Fatal e)
      | Inl e \<Rightarrow> Inl e
      | Inr ws \<Rightarrow> bind_result (checkWorkSpace v env ws) (\<lambda>_. Inr ws))"

end
