(* ===== verification/Sync_Command.thy ===== *)
theory Sync_Command
  imports Sync_Local Command "HOL-Library.Word"
begin

text \<open>
  The command sync (cmd/sync.go): the checks of the options, the update of the manifest project, and
  the order of the network half, the list of projects and the local half.
\<close>

section \<open>Options and numbers of jobs\<close>

record sync_options =
  so_LocalOnly :: bool
  so_NetworkOnly :: bool
  so_DetachHead :: bool
  so_CurrentBranchOnly :: bool
  so_CheckPublished :: bool
  so_Jobs :: int
  so_ManifestName :: string
  so_NoCache :: bool
  so_NoCloneBundle :: bool
  so_Username :: string
  so_Password :: string
  so_FetchSubmodules :: bool
  so_NoTags :: bool
  so_OptimizedFetch :: bool
  so_Prune :: bool
  so_SmartSync :: bool
  so_SmartTag :: string

definition syncDefaultJobs :: int where "syncDefaultJobs = 4"
definition MaxJobs :: int where "MaxJobs = 32"

text \<open>\<open>found\<close> is the workspace of the current directory.\<close>

definition manifestsDefaultJobs :: "RepoWorkSpace result \<Rightarrow> int" where
  "manifestsDefaultJobs found =
     (let n = (case found of Inl _ \<Rightarrow> 0
        | Inr rws \<Rightarrow> (case ws_Manifest rws of None \<Rightarrow> 0
          | Some m \<Rightarrow> (case mDefault m of None \<Rightarrow> 0 | Some d \<Rightarrow> if df_SyncJ d > 0 then df_SyncJ d else 0)))
      in if n \<le> 0 then syncDefaultJobs else n)"

text \<open>\<open>noFile\<close> is the limit of open files, if the system tells it; the subtraction wraps.\<close>

definition maxSyncJobs :: "64 word option \<Rightarrow> int" where
  "maxSyncJobs noFile =
     (let n = (case noFile of None \<Rightarrow> MaxJobs | Some f \<Rightarrow> min (uint ((f - 5) div 3)) MaxJobs) in if n \<le> 0 then 1 else n)"

definition syncJobs :: "64 word option \<Rightarrow> sync_options \<Rightarrow> int" where
  "syncJobs noFile o' = (if so_Jobs o' > 0 then min (so_Jobs o') (maxSyncJobs noFile) else 1)"

section \<open>The manifest project\<close>

text \<open>What the command needs to load workspaces, the schedules of the goroutines, and what LoadRemotes
  gives: the tables of the projects and its error.\<close>

record sync_env =
  se_cmd :: cmd_env
  se_penv :: penv
  se_cc :: cfg_codec
  se_xml :: decoder
  se_cfgName :: "string \<Rightarrow> string option result"
  se_NoFile :: "64 word option"
  se_Names :: "WorkProject list \<Rightarrow> string list"
  se_Net :: "WorkProject list \<Rightarrow> net_event list"
  se_Trees :: "WorkProject list \<Rightarrow> tree_event list"
  se_Remotes :: "RepoWorkSpace \<Rightarrow> (WorkProject \<Rightarrow> RemoteMap) \<times> string option"

text \<open>Errors of loading end the process, as in \<^verbatim>\<open>RepoWorkSpace\<close>.\<close>

definition fatalErr :: "'a result \<Rightarrow> 'a result" where
  "fatalErr r = (case r of Inl (Error e) \<Rightarrow> Inl (Fatal e) | _ \<Rightarrow> r)"

definition cmd_RepoWorkSpace :: "WorkSpaceCommand \<Rightarrow> cmd_env \<Rightarrow> RepoWorkSpace result \<Rightarrow> RepoWorkSpace result" where
  "cmd_RepoWorkSpace v env found =
     bind_result (fatalErr found) (\<lambda>rws. bind_result (checkWorkSpace v env (RepoWS rws)) (\<lambda>_. Inr rws))"

definition syncWorkSpace :: "sync_env \<Rightarrow> machine \<Rightarrow> RepoWorkSpace result" where
  "syncWorkSpace se mc = cmd_RepoWorkSpace \<lparr>wc_MirrorOK = True, wc_SingleOK = False\<rparr> (se_cmd se)
     (NewRepoWorkSpace (se_penv se) (se_cc se) (se_xml se) (se_cfgName se) mc [])"

text \<open>The error of \<^verbatim>\<open>Override\<close> is ignored: when the manifest cannot be found or read, the workspace stays.
  The error after the manifest is set, of a disabled workspace, has ended the process before.\<close>

definition overrideWith :: "sync_env \<Rightarrow> machine \<Rightarrow> string \<Rightarrow> RepoWorkSpace \<Rightarrow> RepoWorkSpace result" where
  "overrideWith se mc name rws =
     (if name = [] then Inr rws
      else case Override (se_penv se) (se_cc se) (se_xml se) mc rws name of
          Inl (Error _) \<Rightarrow> Inr rws | r \<Rightarrow> r)"

definition manifestFetchOptions :: "sync_env \<Rightarrow> sync_options \<Rightarrow> RepoSettings \<Rightarrow> FetchOptions" where
  "manifestFetchOptions se o' s =
     \<lparr>fo_Depth = Depth s, fo_Archive = Archive s, fo_Mirror = Mirror s, fo_Submodules = Submodules s, fo_Quiet = ce_Quiet (se_cmd se),
      CurrentBranchOnly = so_CurrentBranchOnly o', CloneBundle = False, NoTags = so_NoTags o', OptimizedFetch = so_OptimizedFetch o',
      fo_Prune = False\<rparr>"

definition revOr :: "string result \<Rightarrow> string" where
  "revOr r = (case r of Inl _ \<Rightarrow> [] | Inr i \<Rightarrow> i)"

definition updateManifestProject :: "sync_env \<Rightarrow> sync_options \<Rightarrow> RepoWorkSpace \<Rightarrow> RepoWorkSpace op" where
  "updateManifestProject se o' ws =
     bnd (lookR (\<lambda>mc. Config mc (ManifestProject ws))) (\<lambda>c.
       let mp = ManifestProject ws; s = ReadSettings (se_cc se) c (ws_Settings ws) in
       bnd (lookR (\<lambda>mc. TrackBranch mc mp [])) (\<lambda>track.
         if track = [] then ret ws
         else andThen (doIf (\<not> so_LocalOnly o') (SyncNetworkHalf (se_penv se) s mp (Some (manifestFetchOptions se o' s))))
           (bnd (look (\<lambda>mc. (revOr (ResolveRevision mc mp ''HEAD''), revOr (ResolveRemoteTracking mc mp track)))) (\<lambda>(oldrev, newrev).
              if oldrev = newrev then ret ws
              else bnd (lookR (\<lambda>mc. Revlist mc mp [newrev, ''--not'', oldrev])) (\<lambda>revlist.
                if revlist = [] then ret ws
                else andThen (SyncLocalHalf s NewRemoteMap mp
                       \<lparr>co_Submodules = Submodules s, co_DetachHead = False, IsManifest = False, CheckPublished = False\<rparr>)
                  (bnd (lookR (syncWorkSpace se)) (\<lambda>ws'. lookR (\<lambda>mc. overrideWith se mc (so_ManifestName o') ws')))))))) "

section \<open>The command\<close>

definition sync_check :: "sync_options \<Rightarrow> unit result" where
  "sync_check o' =
     (let user = (\<lambda>s. Inl (Error (ce_s (newUserError [s])))) in
      if so_NetworkOnly o' \<and> so_DetachHead o' then user ''cannot combine -n and -d''
      else if so_NetworkOnly o' \<and> so_LocalOnly o' then user ''cannot combine -n and -l''
      else if so_ManifestName o' \<noteq> [] \<and> so_SmartSync o' then user ''cannot combine -m and -s''
      else if so_ManifestName o' \<noteq> [] \<and> so_SmartTag o' \<noteq> [] then user ''cannot combine -m and -t''
      else if (so_Username o' \<noteq> [] \<or> so_Password o' \<noteq> []) \<and> \<not> (so_SmartSync o' \<or> so_SmartTag o' \<noteq> [])
      then user ''-u and -p may only be combined with -s or -t''
      else if (so_Username o' \<noteq> [] \<or> so_Password o' \<noteq> []) \<and> (so_Username o' = [] \<or> so_Password o' = [])
      then user ''both -u and -p must be given''
      else Inr ())"

definition syncFetchOptions :: "sync_env \<Rightarrow> sync_options \<Rightarrow> RepoSettings \<Rightarrow> FetchOptions" where
  "syncFetchOptions se o' s = (manifestFetchOptions se o' s)\<lparr>CloneBundle := \<not> so_NoCloneBundle o', fo_Prune := so_Prune o'\<rparr>"

text \<open>The synchronisation from a manifest server is not implemented; the manifest it left is removed.\<close>

definition smartSync :: "sync_options \<Rightarrow> RepoWorkSpace \<Rightarrow> unit op" where
  "smartSync o' rws =
     (let f = Join [WorkDir (ManifestProject rws), ''smart_sync_override.xml''] in
      if so_SmartSync o' \<or> so_SmartTag o' \<noteq> [] then fail (Panic ''not implement CallManifestServerRPC'')
      else bnd (look (\<lambda>mc. Exist (mc_host mc) f)) (\<lambda>there.
        if \<not> there then ret ()
        else bnd (attempt (perform (Remove f))) (\<lambda>r. case r of
            Inl _ \<Rightarrow> fail (Fatal (''failed to remove existing smart sync override manifest: '' @ f)) | Inr _ \<Rightarrow> ret ())))"

text \<open>The halves as operations, for given schedules. A schedule that does not get to the end leaves
  the command where it is.\<close>

definition unfinished :: go_error where "unfinished = Panic ''the goroutines have not come to an end''"

definition netHalf :: "sync_env \<Rightarrow> RepoSettings \<Rightarrow> FetchOptions \<Rightarrow> int \<Rightarrow> WorkProject list \<Rightarrow> unit op" where
  "netHalf se s fo jobs ps = (\<lambda>w tr.
     case NetworkHalf w (se_penv se) s fo jobs ps (se_Names se ps) (se_Net se ps) tr of
       None \<Rightarrow> (tr, Inl unfinished)
     | Some st \<Rightarrow> (np_Trace st, case np_Exit st of Some e \<Rightarrow> Inl e
         | None \<Rightarrow> if np_Received st = length (se_Names se ps) then errorLines (np_Errs st) else Inl unfinished))"

definition localHalf :: "sync_env \<Rightarrow> RepoSettings \<Rightarrow> (WorkProject \<Rightarrow> RemoteMap) \<Rightarrow> bool \<Rightarrow> int \<Rightarrow> WorkProject list \<Rightarrow> unit op" where
  "localHalf se s tables detach jobs ps = (\<lambda>w tr.
     case LocalHalf w s tables \<lparr>co_Submodules = False, co_DetachHead = detach, IsManifest = False, CheckPublished = False\<rparr> jobs ps (se_Trees se ps) tr of
       None \<Rightarrow> (tr, Inl unfinished)
     | Some st \<Rightarrow> (tp_Trace st, case tp_Exit st of Some e \<Rightarrow> Inl e
         | None \<Rightarrow> (case tp_Crash st of Some e \<Rightarrow> Inl (Panic e)
           | None \<Rightarrow> if tp_Closed st then errorLines (tp_Errs st) else Inl unfinished)))"

definition syncSelect :: "machine \<Rightarrow> sync_options \<Rightarrow> RepoWorkSpace \<Rightarrow> string list \<Rightarrow> WorkProject list result" where
  "syncSelect mc o' rws args =
     (case GetProjects mc rws \<lparr>gp_Groups = rs_Groups (ws_Settings rws), MissingOK = True, SubmodulesOK = so_FetchSubmodules o'\<rparr> args of
        Inl (Error _) \<Rightarrow> Inr [] | r \<Rightarrow> r)"

definition syncLocal :: "sync_env \<Rightarrow> sync_options \<Rightarrow> int \<Rightarrow> RepoWorkSpace \<Rightarrow> WorkProject list \<Rightarrow> unit op" where
  "syncLocal se o' jobs rws ps =
     bnd (attempt (UpdateProjectList rws (so_FetchSubmodules o'))) (\<lambda>r. case r of
       Inl e \<Rightarrow> fail (Fatal e)
     | Inr remains \<Rightarrow>
         andThen (localHalf se (ws_Settings rws) (fst (se_Remotes se rws)) (so_DetachHead o') jobs ps)
           (if remains \<noteq> [] then fail (Error (Itoa (int (length remains)) @ '' obsolete projects in your workdir need to be removed''))
            else ret ()))"

definition syncCheckout :: "sync_env \<Rightarrow> sync_options \<Rightarrow> RepoWorkSpace \<Rightarrow> WorkProject list \<Rightarrow> unit op" where
  "syncCheckout se o' rws ps =
     (if so_NetworkOnly o' then ret ()
      else bnd (lookR (\<lambda>mc. MirrorEnabled (se_cc se) mc (ManifestProject rws))) (\<lambda>mirror.
        if mirror then ret ()
        else bnd (lookR (\<lambda>mc. ArchiveEnabled (se_cc se) mc (ManifestProject rws))) (\<lambda>archive.
          if archive then ret () else syncLocal se o' (syncJobs (se_NoFile se) o') rws ps)))"

text \<open>\<open>rws1\<close> is the workspace before the manifest was updated; its settings are those of the fetches.\<close>

definition syncProjects :: "sync_env \<Rightarrow> sync_options \<Rightarrow> string list \<Rightarrow> RepoWorkSpace \<Rightarrow> RepoWorkSpace \<Rightarrow> unit op" where
  "syncProjects se o' args rws1 rws =
     bnd (lookR (\<lambda>mc. syncSelect mc o' rws args)) (\<lambda>ps.
       andThen (doIf (\<not> so_LocalOnly o')
                 (netHalf se (ws_Settings rws) (syncFetchOptions se o' (ws_Settings rws1)) (syncJobs (se_NoFile se) o') ps))
         (syncCheckout se o' rws ps))"

definition sync_Execute :: "sync_env \<Rightarrow> sync_options \<Rightarrow> string list \<Rightarrow> unit op" where
  "sync_Execute se o' args =
     bnd (lookR (syncWorkSpace se)) (\<lambda>rws0.
     bnd (lookR (\<lambda>_. sync_check o')) (\<lambda>_.
     bnd (lookR (\<lambda>mc. overrideWith se mc (so_ManifestName o') rws0)) (\<lambda>rws1.
     andThen (smartSync o' rws1) (bnd (updateManifestProject se o' rws1) (syncProjects se o' args rws1)))))"

section \<open>A synchronisation that succeeds\<close>

lemma maxSyncJobs_bounds: "1 \<le> maxSyncJobs f \<and> maxSyncJobs f \<le> 32"
  by (auto simp: maxSyncJobs_def MaxJobs_def Let_def split: option.splits)

lemma syncJobs_bounds: "1 \<le> syncJobs f o' \<and> syncJobs f o' \<le> 32"
  using maxSyncJobs_bounds [of f] by (auto simp: syncJobs_def)

text \<open>A limit below five wraps and allows the most jobs.\<close>

lemma maxSyncJobs_wrap: "maxSyncJobs (Some 4) = 32" "maxSyncJobs (Some 5) = 1" "maxSyncJobs (Some 20) = 5"
  by (simp_all add: maxSyncJobs_def MaxJobs_def Let_def)

lemma bnd_Some:
  assumes "bnd m f w tr = (tr', Inr y)"
  obtains tr1 x where "m w tr = (tr1, Inr x)" and "f x w tr1 = (tr', Inr y)"
  using assms by (auto simp: bnd_def split: prod.splits sum.splits)

lemma errorLines_Inr: "errorLines es = Inr () \<longleftrightarrow> es = []"
  by (simp add: errorLines_def)

lemma netHalf_Inr:
  assumes "netHalf se s fo jobs ps w tr = (tr', Inr ())"
  obtains n where "NetworkHalf w (se_penv se) s fo jobs ps (se_Names se ps) (se_Net se ps) tr = Some n"
    and "net_returned (length (se_Names se ps)) n" and "errorLines (np_Errs n) = Inr ()" and "tr' = np_Trace n"
  using assms by (auto simp: netHalf_def net_returned_def split: option.splits if_splits)

lemma localHalf_Inr:
  assumes "localHalf se s tables detach jobs ps w tr = (tr', Inr ())"
  obtains l where "LocalHalf w s tables \<lparr>co_Submodules = False, co_DetachHead = detach, IsManifest = False, CheckPublished = False\<rparr>
      jobs ps (se_Trees se ps) tr = Some l"
    and "tp_Exit l = None" and "tp_Closed l" and "errorLines (tp_Errs l) = Inr ()" and "tr' = tp_Trace l"
  using assms by (auto simp: localHalf_def split: option.splits if_splits)

text \<open>What a run of a half did: every project once, and no error.\<close>

definition fetchedAll :: "WorkProject net_pool \<Rightarrow> WorkProject list \<Rightarrow> bool" where
  "fetchedAll n ps \<longleftrightarrow> mset (map fst (np_Synced n)) = mset ps \<and> (\<forall>(p, r) \<in> set (np_Synced n). r = None)"

definition checkedOutAll :: "WorkProject tree_pool \<Rightarrow> WorkProject list \<Rightarrow> bool" where
  "checkedOutAll l ps \<longleftrightarrow> mset (map fst (tp_Synced l)) = mset ps \<and> failuresOf (tp_Synced l) = {}"

definition bareOrArchive :: "sync_env \<Rightarrow> machine \<Rightarrow> RepoWorkSpace \<Rightarrow> bool" where
  "bareOrArchive se mc rws \<longleftrightarrow> MirrorEnabled (se_cc se) mc (ManifestProject rws) = Inr True \<or>
     ArchiveEnabled (se_cc se) mc (ManifestProject rws) = Inr True"

lemma doIf_Inr: "doIf b m w tr = (tr', Inr ()) \<longleftrightarrow> (if b then m w tr = (tr', Inr ()) else tr' = tr)"
  by (auto simp: doIf_def ret_def)

lemma lookR_Inr: "lookR g w tr = (tr', Inr x) \<longleftrightarrow> tr' = tr \<and> g (w tr) = Inr x"
  by (auto simp: lookR_def)

lemma syncLocal_Inr:
  assumes "syncLocal se o' jobs rws ps w tr = (tr', Inr ())"
  obtains tr1 where "UpdateProjectList rws (so_FetchSubmodules o') w tr = (tr1, Inr [])"
    and "localHalf se (ws_Settings rws) (fst (se_Remotes se rws)) (so_DetachHead o') jobs ps w tr1 = (tr', Inr ())"
proof -
  from assms obtain tr1 r where r: "attempt (UpdateProjectList rws (so_FetchSubmodules o')) w tr = (tr1, Inr r)"
    "(case r of Inl e \<Rightarrow> fail (Fatal e) | Inr remains \<Rightarrow>
       andThen (localHalf se (ws_Settings rws) (fst (se_Remotes se rws)) (so_DetachHead o') jobs ps)
         (if remains \<noteq> [] then fail (Error (Itoa (int (length remains)) @ '' obsolete projects in your workdir need to be removed''))
          else ret ())) w tr1 = (tr', Inr ())"
    unfolding syncLocal_def by (rule bnd_Some)
  then obtain remains where rem: "r = Inr remains" by (cases r) (auto simp: fail_def)
  with r(1) have u: "UpdateProjectList rws (so_FetchSubmodules o') w tr = (tr1, Inr remains)"
    by (auto simp: attempt_def split: prod.splits sum.splits go_error.splits)
  from r(2) rem obtain tr2 where l: "localHalf se (ws_Settings rws) (fst (se_Remotes se rws)) (so_DetachHead o') jobs ps w tr1 = (tr2, Inr ())"
    "(if remains \<noteq> [] then fail (Error (Itoa (int (length remains)) @ '' obsolete projects in your workdir need to be removed''))
      else ret ()) w tr2 = (tr', Inr ())"
    unfolding andThen_def by (auto elim!: bnd_Some)
  then have "remains = []" "tr2 = tr'" by (auto simp: fail_def ret_def split: if_splits)
  with u l(1) show thesis using that by simp
qed

text \<open>The phases of a synchronisation that succeeds.\<close>

lemma syncCheckout_Inr:
  assumes "syncCheckout se o' rws ps w tr = (tr', Inr ())"
  shows "if so_NetworkOnly o' \<or> bareOrArchive se (w tr) rws then tr' = tr
      else syncLocal se o' (syncJobs (se_NoFile se) o') rws ps w tr = (tr', Inr ())"
proof (cases "so_NetworkOnly o'")
  case True
  then show ?thesis using assms by (simp add: syncCheckout_def ret_def)
next
  case False
  then show ?thesis using assms unfolding syncCheckout_def
    by (auto simp: bnd_lookR bareOrArchive_def ret_def split: sum.splits if_splits)
qed

lemma sync_phases:
  assumes "sync_Execute se o' args w tr = (tr', Inr ())"
  obtains rws1 tr1 rws tr2 ps tr3 where "updateManifestProject se o' rws1 w tr1 = (tr2, Inr rws)"
    and "syncSelect (w tr2) o' rws args = Inr ps"
    and "if so_LocalOnly o' then tr3 = tr2
      else netHalf se (ws_Settings rws) (syncFetchOptions se o' (ws_Settings rws1)) (syncJobs (se_NoFile se) o') ps w tr2 = (tr3, Inr ())"
    and "if so_NetworkOnly o' \<or> bareOrArchive se (w tr3) rws then tr' = tr3
      else syncLocal se o' (syncJobs (se_NoFile se) o') rws ps w tr3 = (tr', Inr ())"
proof -
  obtain rws1 tr1 rws tr2 where 1: "updateManifestProject se o' rws1 w tr1 = (tr2, Inr rws)" "syncProjects se o' args rws1 rws w tr2 = (tr', Inr ())"
    using assms unfolding sync_Execute_def andThen_def by (auto elim!: bnd_Some simp: lookR_Inr)
  from 1(2) obtain ps tr3 where 2: "syncSelect (w tr2) o' rws args = Inr ps"
    "doIf (\<not> so_LocalOnly o') (netHalf se (ws_Settings rws) (syncFetchOptions se o' (ws_Settings rws1)) (syncJobs (se_NoFile se) o') ps) w tr2 = (tr3, Inr ())"
    "syncCheckout se o' rws ps w tr3 = (tr', Inr ())"
    unfolding syncProjects_def andThen_def by (auto elim!: bnd_Some simp: lookR_Inr)
  show thesis using that [OF 1(1) 2(1) _ syncCheckout_Inr [OF 2(3)]] 2(2) by (simp add: doIf_Inr)
qed

text \<open>
  A synchronisation that succeeds, of projects with different names and paths, has fetched
  every selected project exactly once and without error, and after all of them were fetched it has checked
  out every one exactly once without error, and no obsolete project is left; in a mirror or an
  archive nothing is checked out. This holds for all schedules of the goroutines and orders of the map of names.
\<close>

theorem sync_Execute_complete:
  assumes "sync_Execute se o' args w tr = (tr', Inr ())" and "\<not> so_LocalOnly o'" and "\<not> so_NetworkOnly o'"
    and "\<forall>ps. distinct (se_Names se ps) \<and> set (se_Names se ps) = set (map pName ps)"
  shows "\<exists>rws ps fo tr2 n. syncSelect (w tr2) o' rws args = Inr ps \<and>
    NetworkHalf w (se_penv se) (ws_Settings rws) fo (syncJobs (se_NoFile se) o') ps (se_Names se ps) (se_Net se ps) tr2 = Some n \<and>
    (distinct (map pName ps) \<longrightarrow> fetchedAll n ps) \<and>
    (if bareOrArchive se (w (np_Trace n)) rws then tr' = np_Trace n
     else \<exists>tr3 l. UpdateProjectList rws (so_FetchSubmodules o') w (np_Trace n) = (tr3, Inr []) \<and>
       LocalHalf w (ws_Settings rws) (fst (se_Remotes se rws))
         \<lparr>co_Submodules = False, co_DetachHead = so_DetachHead o', IsManifest = False, CheckPublished = False\<rparr>
         (syncJobs (se_NoFile se) o') ps (se_Trees se ps) tr3 = Some l \<and> tr' = tp_Trace l \<and>
       (distinct (map pPath ps) \<and> (\<forall>p \<in> set ps. trimSlashes (pPath p) = pPath p) \<longrightarrow> checkedOutAll l ps))"
proof -
  let ?jobs = "syncJobs (se_NoFile se) o'"
  obtain rws1 tr1 rws tr2 ps tr3 where q: "updateManifestProject se o' rws1 w tr1 = (tr2, Inr rws)" "syncSelect (w tr2) o' rws args = Inr ps"
    "if so_LocalOnly o' then tr3 = tr2
      else netHalf se (ws_Settings rws) (syncFetchOptions se o' (ws_Settings rws1)) ?jobs ps w tr2 = (tr3, Inr ())"
    "if so_NetworkOnly o' \<or> bareOrArchive se (w tr3) rws then tr' = tr3 else syncLocal se o' ?jobs rws ps w tr3 = (tr', Inr ())"
    by (rule sync_phases [OF assms(1)])
  then have p: "syncSelect (w tr2) o' rws args = Inr ps"
    "netHalf se (ws_Settings rws) (syncFetchOptions se o' (ws_Settings rws1)) ?jobs ps w tr2 = (tr3, Inr ())"
    "if bareOrArchive se (w tr3) rws then tr' = tr3 else syncLocal se o' ?jobs rws ps w tr3 = (tr', Inr ())"
    using assms(2,3) by simp_all
  obtain n where n: "NetworkHalf w (se_penv se) (ws_Settings rws) (syncFetchOptions se o' (ws_Settings rws1)) ?jobs ps (se_Names se ps) (se_Net se ps) tr2 = Some n"
    "net_returned (length (se_Names se ps)) n" "errorLines (np_Errs n) = Inr ()" "tr3 = np_Trace n"
    using netHalf_Inr [OF p(2)] by blast
  have f: "distinct (map pName ps) \<longrightarrow> fetchedAll n ps"
    using net_complete [OF _ _ _ n(1,2)] assms(4) n(3) by (simp add: fetchedAll_def)
  show ?thesis
  proof (cases "bareOrArchive se (w tr3) rws")
    case True
    then show ?thesis using p n f by (intro exI [of _ rws] exI [of _ ps] exI [of _ "syncFetchOptions se o' (ws_Settings rws1)"] exI [of _ tr2] exI [of _ n]) simp
  next
    case False
    then have "syncLocal se o' ?jobs rws ps w tr3 = (tr', Inr ())" using p(3) by simp
    then obtain tr4 where u: "UpdateProjectList rws (so_FetchSubmodules o') w tr3 = (tr4, Inr [])"
      "localHalf se (ws_Settings rws) (fst (se_Remotes se rws)) (so_DetachHead o') ?jobs ps w tr4 = (tr', Inr ())"
      by (rule syncLocal_Inr)
    obtain l where l: "LocalHalf w (ws_Settings rws) (fst (se_Remotes se rws))
         \<lparr>co_Submodules = False, co_DetachHead = so_DetachHead o', IsManifest = False, CheckPublished = False\<rparr> ?jobs ps (se_Trees se ps) tr4 = Some l"
      "tp_Exit l = None" "tp_Closed l" "errorLines (tp_Errs l) = Inr ()" "tr' = tp_Trace l"
      using localHalf_Inr [OF u(2)] by blast
    have "distinct (map pPath ps) \<and> (\<forall>p \<in> set ps. trimSlashes (pPath p) = pPath p) \<longrightarrow> checkedOutAll l ps"
      using tree_complete [OF _ _ l(1,2,3)] l(4) by (auto simp: checkedOutAll_def)
    with u(1) l(1,5) n(4) have "\<exists>tr3 l. UpdateProjectList rws (so_FetchSubmodules o') w (np_Trace n) = (tr3, Inr []) \<and>
       LocalHalf w (ws_Settings rws) (fst (se_Remotes se rws))
         \<lparr>co_Submodules = False, co_DetachHead = so_DetachHead o', IsManifest = False, CheckPublished = False\<rparr>
         ?jobs ps (se_Trees se ps) tr3 = Some l \<and> tr' = tp_Trace l \<and>
       (distinct (map pPath ps) \<and> (\<forall>p \<in> set ps. trimSlashes (pPath p) = pPath p) \<longrightarrow> checkedOutAll l ps)" by (intro exI [of _ tr4] exI [of _ l]) simp
    then show ?thesis using p(1) n(1,4) f False by (intro exI [of _ rws] exI [of _ ps] exI [of _ "syncFetchOptions se o' (ws_Settings rws1)"] exI [of _ tr2] exI [of _ n]) simp
  qed
qed

end
