(* ===== verification/Branch_Commands.thy ===== *)
theory Branch_Commands
  imports Command
begin

text \<open>
  The commands that start and delete branches: start (cmd/start.go), prune (cmd/prune.go) and
  abandon (cmd/abandon.go). A command works on the projects one after the other; what it prints
  is part of its result. The remotes of a project are given by \<open>tables\<close>.
\<close>

section \<open>start\<close>

definition names_of :: "bool \<Rightarrow> string list \<Rightarrow> string list" where
  "names_of all args = (if all then [] else if length args > 1 then tl args else [''.''])"

text \<open>The paths of the projects that failed and the last error.\<close>

fun startAll :: "string \<Rightarrow> WorkProject list \<Rightarrow> (string list \<times> string option) op" where
  "startAll branch [] = ret ([], None)"
| "startAll branch (p # ps) =
     bnd (attempt (StartBranch p branch (DefaultTrackingBranch p) False)) (\<lambda>r.
     bnd (startAll branch ps) (\<lambda>(failed, err).
       ret (case r of Inr _ \<Rightarrow> (failed, err)
            | Inl e \<Rightarrow> (pPath p # failed, Some (case err of None \<Rightarrow> e | Some e' \<Rightarrow> e')))))"

definition start_Execute :: "cmd_env \<Rightarrow> WorkSpace result \<Rightarrow> bool \<Rightarrow> string list \<Rightarrow> unit op" where
  "start_Execute env found all args =
     bnd (lookR (\<lambda>_. Cmd_WorkSpace \<lparr>wc_MirrorOK = False, wc_SingleOK = False\<rparr> env found)) (\<lambda>ws.
       case args of [] \<Rightarrow> userError ''no args''
       | branch # _ \<Rightarrow>
         bnd (lookR (\<lambda>mc. WorkSpace_GetProjects mc ws (names_of all args))) (\<lambda>ps.
         bnd (startAll branch ps) (\<lambda>(failed, err). case err of None \<Rightarrow> ret () | Some e \<Rightarrow> fail (Error e))))"

section \<open>prune and abandon\<close>

record prune_options =
  po_All :: bool
  po_Branch :: string
  po_Force :: bool

record projectBranch =
  pb_Branch :: Branch
  pb_Project :: WorkProject
  pb_IsCurrent :: bool

definition HeadBranch :: "machine \<Rightarrow> WorkProject \<Rightarrow> Branch" where
  "HeadBranch mc p =
     (case rawDir mc p of None \<Rightarrow> \<lparr>br_Name = [], br_Hash = []\<rparr>
      | Some d \<Rightarrow>
        (case mc_Head mc d of None \<Rightarrow> \<lparr>br_Name = [], br_Hash = []\<rparr>
         | Some (n, i) \<Rightarrow> \<lparr>br_Name = (if n = ''HEAD'' then [] else n), br_Hash = i\<rparr>))"

text \<open>The order of the lists that are printed.\<close>

definition pbByBranch :: "projectBranch \<Rightarrow> projectBranch \<Rightarrow> bool" where
  "pbByBranch a b =
     (if br_Name (pb_Branch a) = br_Name (pb_Branch b) then pPath (pb_Project a) < pPath (pb_Project b)
      else br_Name (pb_Branch a) < br_Name (pb_Branch b))"

definition pbByPath :: "projectBranch \<Rightarrow> projectBranch \<Rightarrow> bool" where
  "pbByPath a b =
     (if pPath (pb_Project a) = pPath (pb_Project b) then br_Name (pb_Branch a) < br_Name (pb_Branch b)
      else pPath (pb_Project a) < pPath (pb_Project b))"

definition fullBranch :: "string \<Rightarrow> string" where
  "fullBranch b = (if b \<noteq> [] \<and> \<not> HasPrefix b RefsHeads then RefsHeads @ b else b)"

text \<open>The branches to delete, the current one aside.\<close>

definition otherBranches :: "machine \<Rightarrow> prune_options \<Rightarrow> WorkProject \<Rightarrow> Branch \<Rightarrow> Branch list \<Rightarrow> Branch list" where
  "otherBranches mc o' p cb heads =
     (if po_Branch o' \<noteq> [] \<and> po_Branch o' \<noteq> br_Name cb then
        (case ResolveRevision mc p (po_Branch o') of Inl _ \<Rightarrow> [] | Inr oid \<Rightarrow> [\<lparr>br_Name = po_Branch o', br_Hash = oid\<rparr>])
      else if po_All o' then filter (\<lambda>b. br_Name b \<noteq> br_Name cb) heads
      else [])"

text \<open>Whether the current branch is deleted: it has no commits of its own, or its upstream
  cannot be found, and the work tree is clean.\<close>

definition pruneCurrent :: "machine \<Rightarrow> prune_options \<Rightarrow> WorkProject \<Rightarrow> Branch \<Rightarrow> bool result" where
  "pruneCurrent mc o' p cb =
     (if po_Force o' then Inr True
      else bind_result (LocalTrackBranch mc p (br_Name cb)) (\<lambda>tb.
        case (if tb = [] then ResolveRemoteTracking mc p (br_Name cb) else ResolveRevision mc p tb) of
          Inl _ \<Rightarrow> Inr (Project_IsClean mc p)
        | Inr i \<Rightarrow>
          (case Revlist mc p [br_Name cb, ''--not'', i] of
             Inl _ \<Rightarrow> Inr False
           | Inr l \<Rightarrow> Inr (l = [] \<and> Project_IsClean mc p))))"

definition detachCurrent :: "prune_options \<Rightarrow> WorkProject \<Rightarrow> Branch \<Rightarrow> bool op" where
  "detachCurrent o' p cb =
     (if br_Name cb \<noteq> [] \<and> (po_All o' \<or> br_Name cb = po_Branch o') then
        bnd (lookR (\<lambda>mc. pruneCurrent mc o' p cb)) (\<lambda>should.
          if should then bnd (attempt (DetachHead p)) (\<lambda>r. ret (case r of Inl _ \<Rightarrow> False | Inr _ \<Rightarrow> True))
          else ret False)
      else ret True)"

text \<open>A branch without upstream is deleted by force, whether it is merged or not.\<close>

definition forced :: "machine \<Rightarrow> prune_options \<Rightarrow> WorkProject \<Rightarrow> Branch \<Rightarrow> bool result" where
  "forced mc o' p b =
     (if po_Force o' then Inr True else bind_result (TrackBranch mc p (br_Name b)) (\<lambda>t. Inr (t = [])))"

definition ExecuteDir :: "RepoSettings \<Rightarrow> WorkProject \<Rightarrow> string" where
  "ExecuteDir s p = (if Mirror s then GitDir p else WorkDir p)"

text \<open>\<^verbatim>\<open>git branch\<close> with an option, for the branches if there are any; whether it was run and
  whether it worked.\<close>

definition drop_branches :: "RepoSettings \<Rightarrow> WorkProject \<Rightarrow> string \<Rightarrow> Branch list \<Rightarrow> (bool \<times> bool) op" where
  "drop_branches s p option bs =
     (if bs = [] then ret (False, True)
      else bnd (attempt (perform (Run (ExecuteDir s p) ([''git'', ''branch'', option] @ map ShortName bs)))) (\<lambda>r.
        ret (case r of Inl _ \<Rightarrow> (False, False) | Inr _ \<Rightarrow> (True, True))))"

definition branchOf :: "WorkProject \<Rightarrow> bool \<Rightarrow> Branch \<Rightarrow> projectBranch" where
  "branchOf p current b = \<lparr>pb_Branch = b, pb_Project = p, pb_IsCurrent = current\<rparr>"

text \<open>What was deleted, what is left, and whether the record of published branches is cleaned.\<close>

definition dropResult :: "WorkProject \<Rightarrow> Branch \<Rightarrow> Branch list \<Rightarrow> bool \<times> bool \<Rightarrow> bool \<times> bool \<Rightarrow> machine \<Rightarrow>
    (projectBranch list \<times> projectBranch list \<times> bool) result" where
  "dropResult p cb bs r1 r2 mc =
     (if snd r1 \<and> snd r2 then Inr (map (\<lambda>b. branchOf p (br_Name b = br_Name cb) b) bs, [], fst r1 \<or> fst r2)
      else bind_result (Heads mc p) (\<lambda>heads.
        let left = map br_Name heads;
            gone = filter (\<lambda>b. br_Name b \<notin> set left) bs;
            kept = filter (\<lambda>b. br_Name b \<in> set left) bs
        in Inr (map (branchOf p False) gone, map (\<lambda>b. branchOf p (br_Name b = br_Name cb) b) kept,
                fst r1 \<or> fst r2 \<or> gone \<noteq> [])))"

definition pruneBranches :: "RepoSettings \<Rightarrow> prune_options \<Rightarrow> WorkProject \<Rightarrow> Branch \<Rightarrow> Branch list \<Rightarrow>
    (projectBranch list \<times> projectBranch list) op" where
  "pruneBranches s o' p cb bs =
     (if bs = [] then ret ([], [])
      else bnd (lookR (\<lambda>mc. mapM_result (\<lambda>b. bind_result (forced mc o' p b) (\<lambda>f. Inr (b, f))) bs)) (\<lambda>marks.
        bnd (drop_branches s p ''-D'' (map fst (filter snd marks))) (\<lambda>r1.
        bnd (drop_branches s p ''-d'' (map fst (filter (\<lambda>m. \<not> snd m) marks))) (\<lambda>r2.
        bnd (lookR (dropResult p cb bs r1 r2)) (\<lambda>(success, failure, needToClean).
          andThen (doIf needToClean (Project_CleanPublishedCache p)) (ret (success, failure)))))))"

definition pruneProject :: "RepoSettings \<Rightarrow> prune_options \<Rightarrow> WorkProject \<Rightarrow> (projectBranch list \<times> projectBranch list) op" where
  "pruneProject s o' p =
     bnd (lookR (\<lambda>mc. bind_result (Heads mc p) (\<lambda>heads. Inr (HeadBranch mc p, otherBranches mc o' p (HeadBranch mc p) heads)))) (\<lambda>(cb, others).
     let concerned = br_Name cb \<noteq> [] \<and> (po_All o' \<or> br_Name cb = po_Branch o') in
     bnd (detachCurrent o' p cb) (\<lambda>detached.
     bnd (pruneBranches s o' p cb (others @ (if concerned \<and> detached then [cb] else []))) (\<lambda>(success, failure).
       ret (success, (if concerned \<and> \<not> detached then [branchOf p True cb] else []) @ failure))))"

definition pruneAll :: "RepoSettings \<Rightarrow> prune_options \<Rightarrow> WorkProject list \<Rightarrow> (projectBranch list \<times> projectBranch list) op" where
  "pruneAll s o' ps =
     bnd (mapM_op (pruneProject s o') ps) (\<lambda>rs. ret (concat (map fst rs), concat (map snd rs)))"

subsection \<open>The report\<close>

fun insertBy :: "('a \<Rightarrow> 'a \<Rightarrow> bool) \<Rightarrow> 'a \<Rightarrow> 'a list \<Rightarrow> 'a list" where
  "insertBy lt x [] = [x]"
| "insertBy lt x (y # ys) = (if lt y x then y # insertBy lt x ys else x # y # ys)"

definition sortBy :: "('a \<Rightarrow> 'a \<Rightarrow> bool) \<Rightarrow> 'a list \<Rightarrow> 'a list" where
  "sortBy lt xs = foldr (insertBy lt) xs []"

text \<open>\<^verbatim>\<open>%-*s\<close>\<close>

definition padRight :: "nat \<Rightarrow> string \<Rightarrow> string" where
  "padRight w s = s @ replicate (w - length s) CHR '' ''"

text \<open>The name of a branch is printed once for all its projects; a hash is cut to seven digits.\<close>

fun deletedLines :: "nat \<Rightarrow> nat \<Rightarrow> string \<Rightarrow> projectBranch list \<Rightarrow> string result" where
  "deletedLines pw bw branchName [] = Inr []"
| "deletedLines pw bw branchName (b # bs) =
     (let new = (RefsHeads @ branchName \<noteq> br_Name (pb_Branch b));
          name = (if new then TrimPrefix (br_Name (pb_Branch b)) RefsHeads else branchName);
          start = (if new \<and> branchName \<noteq> [] then [CHR 0x0A] else []);
          hash = br_Hash (pb_Branch b)
      in if length hash < 7 then Inl (Panic ''slice bounds out of range'')
         else bind_result (deletedLines pw bw name bs) (\<lambda>rest.
           Inr (start @ padRight bw (if new then name else []) @ '' | '' @ padRight pw (pPath (pb_Project b)) @
                '' (was '' @ take 7 hash @ '')'' @ [CHR 0x0A] @ rest)))"

definition branchWidth :: "projectBranch list \<Rightarrow> nat" where
  "branchWidth bs = foldl (\<lambda>m b. max m (length (br_Name (pb_Branch b)) - 11)) 25 bs"

definition projectWidth :: "WorkProject list \<Rightarrow> nat" where
  "projectWidth ps = foldl (\<lambda>m p. max m (length (pPath p))) 0 ps"

definition deletedReport :: "prune_options \<Rightarrow> nat \<Rightarrow> projectBranch list \<Rightarrow> string result" where
  "deletedReport o' pw success =
     (if success = [] then Inr []
      else bind_result (deletedLines pw (branchWidth success) [] (sortBy pbByBranch success)) (\<lambda>ls.
        Inr ((if po_Force o' then ''Abandoned branches'' else ''Pruned branches (already merged)'') @ [CHR 0x0A] @
             replicate 78 CHR ''-'' @ [CHR 0x0A] @ ls @ [CHR 0x0A])))"

text \<open>\<^verbatim>\<open>%2d\<close>\<close>

definition pad2 :: "nat \<Rightarrow> string" where
  "pad2 n = (let s = Itoa (int n) in replicate (2 - length s) CHR '' '' @ s)"

text \<open>The time of a commit is a parameter.\<close>

definition pendingBranch :: "machine \<Rightarrow> RemoteMap \<Rightarrow> (WorkProject \<Rightarrow> string \<Rightarrow> string) \<Rightarrow> projectBranch \<Rightarrow> string result" where
  "pendingBranch mc table lastModified b =
     (let p = pb_Project b; branchName = TrimPrefix (br_Name (pb_Branch b)) RefsHeads in
      bind_result (GetBranchRemote mc table p branchName False) (\<lambda>remote.
      bind_result (GetUploadableBranch mc p (br_Name (pb_Branch b)) remote [] False) (\<lambda>rb.
        Inr ((if remote = None then branchName @ '' (no remote)'' @ [CHR 0x0A] else []) @ branchName @
          (case rb of None \<Rightarrow> []
           | Some r \<Rightarrow> let n = length (rb_Commits mc p r) in
               '' ('' @ pad2 n @ (if n > 1 then '' commits, '' else '' commit, '') @
               lastModified p (br_Hash (pb_Branch b)) @ '')'') @ [CHR 0x0A]))))"

fun pendingLines :: "machine \<Rightarrow> (WorkProject \<Rightarrow> RemoteMap) \<Rightarrow> (WorkProject \<Rightarrow> string \<Rightarrow> string) \<Rightarrow> string \<Rightarrow> projectBranch list \<Rightarrow> string result" where
  "pendingLines mc tables lastModified projectPath [] = Inr []"
| "pendingLines mc tables lastModified projectPath (b # bs) =
     (let p = pb_Project b; new = (projectPath \<noteq> pPath p) in
      bind_result (pendingBranch mc (tables p) lastModified b) (\<lambda>line.
      bind_result (pendingLines mc tables lastModified (pPath p) bs) (\<lambda>rest.
        Inr ((if new \<and> projectPath \<noteq> [] then [CHR 0x0A] else []) @
             (if new then ''Project '' @ pPath p @ ''/'' @ [CHR 0x0A] else []) @
             (if pb_IsCurrent b then ''* '' else ''  '') @ line @ rest))))"

definition pendingReport :: "machine \<Rightarrow> (WorkProject \<Rightarrow> RemoteMap) \<Rightarrow> (WorkProject \<Rightarrow> string \<Rightarrow> string) \<Rightarrow> projectBranch list \<Rightarrow> string result" where
  "pendingReport mc tables lastModified failure =
     (if failure = [] then Inr []
      else bind_result (pendingLines mc tables lastModified [] (sortBy pbByPath failure)) (\<lambda>ls.
        Inr (''Pending branches (which have unmerged commits, leave it as is)'' @ [CHR 0x0A] @
             replicate 78 CHR ''-'' @ [CHR 0x0A] @ ls)))"

text \<open>\<open>infos\<close> is the result of loading the remotes.\<close>

definition prune_Execute :: "cmd_env \<Rightarrow> RepoSettings \<Rightarrow> WorkSpace result \<Rightarrow> (WorkProject \<Rightarrow> RemoteMap) result \<Rightarrow>
    (WorkProject \<Rightarrow> string \<Rightarrow> string) \<Rightarrow> prune_options \<Rightarrow> string list \<Rightarrow> string op" where
  "prune_Execute env s found infos lastModified o0 args =
     bnd (lookR (\<lambda>_. Cmd_WorkSpace \<lparr>wc_MirrorOK = False, wc_SingleOK = True\<rparr> env found)) (\<lambda>ws.
     bnd (lookR (\<lambda>_. infos)) (\<lambda>tables.
     bnd (lookR (\<lambda>mc. WorkSpace_GetProjects mc ws args)) (\<lambda>ps.
     let o' = o0\<lparr>po_Branch := fullBranch (po_Branch o0)\<rparr> in
     bnd (pruneAll s o' ps) (\<lambda>(success, failure).
     bnd (lookR (\<lambda>_. deletedReport o' (projectWidth ps) success)) (\<lambda>r1.
     bnd (lookR (\<lambda>mc. pendingReport mc tables lastModified failure)) (\<lambda>r2. ret (r1 @ r2)))))))"

definition pruneDefaults :: prune_options where
  "pruneDefaults = \<lparr>po_All = True, po_Branch = [], po_Force = False\<rparr>"

definition abandon_Args :: "prune_options \<Rightarrow> unit result" where
  "abandon_Args o' =
     (if \<not> po_All o' \<and> po_Branch o' = [] then Inl (Error ''use --all or --branch to provide a branch to be abandoned'') else Inr ())"

definition abandon_Execute :: "cmd_env \<Rightarrow> RepoSettings \<Rightarrow> WorkSpace result \<Rightarrow> (WorkProject \<Rightarrow> RemoteMap) result \<Rightarrow>
    (WorkProject \<Rightarrow> string \<Rightarrow> string) \<Rightarrow> prune_options \<Rightarrow> string list \<Rightarrow> string op" where
  "abandon_Execute env s found infos lastModified o' args =
     bnd (lookR (\<lambda>_. abandon_Args o')) (\<lambda>_. prune_Execute env s found infos lastModified o' args)"

section \<open>What is deleted\<close>

text \<open>
  What can lose work: a forced deletion of branches, and leaving the current branch to delete
  it. The condition is evaluated right before the command.
\<close>

definition prune_ok :: "prune_options \<Rightarrow> WorkProject \<Rightarrow> machine \<Rightarrow> action \<Rightarrow> bool" where
  "prune_ok o' p mc a \<longleftrightarrow>
     (\<forall>d args. a = Run d ([''git'', ''branch'', ''-D''] @ args) \<longrightarrow>
        (\<forall>n \<in> set args. \<exists>b. n = ShortName b \<and> forced mc o' p b = Inr True)) \<and>
     (\<forall>d rest. a = Run d (''git'' # ''checkout'' # rest) \<longrightarrow> pruneCurrent mc o' p (HeadBranch mc p) = Inr True)"

lemma mapM_marks:
  "mapM_result (\<lambda>b. bind_result (g b) (\<lambda>f. Inr (b, f))) bs = Inr marks \<Longrightarrow> (b, f) \<in> set marks \<Longrightarrow> g b = Inr f"
  by (induction bs arbitrary: marks) (auto simp: result_simps)

lemma guarded_drop:
  assumes "\<And>d. P (w tr) (Run d ([''git'', ''branch'', option] @ map ShortName bs))"
  shows "guarded P (drop_branches s p option bs) w tr"
  using assms by (auto simp: drop_branches_def intro!: guarded_bnd guarded_intros)

lemma guarded_clean:
  "(\<And>mc d n. P mc (RemoveRef d n)) \<Longrightarrow> guarded P (Project_CleanPublishedCache p) w tr"
  by (rule guarded_emits [of "\<lambda>a. \<exists>d n. a = RemoveRef d n"])
    (auto simp: Project_CleanPublishedCache_def intro!: emits_intros split: option.splits)

lemma guarded_pruneBranches: "guarded (prune_ok o' p) (pruneBranches s o' p cb bs) w tr"
  unfolding pruneBranches_def
  by (auto intro!: guarded_bnd guarded_intros guarded_andThen guarded_drop guarded_clean simp: prune_ok_def lookR_at split: prod.splits)
    (blast dest: mapM_marks [where g = "forced (w tr) o' p"])

lemma guarded_pruneProject: "guarded (prune_ok o' p) (pruneProject s o' p) w tr"
proof -
  have "guarded (prune_ok o' p) (detachCurrent o' p (HeadBranch (w tr) p)) w tr"
    by (auto simp: detachCurrent_def DetachHead_def executeCommandIn_def prune_ok_def intro!: guarded_bnd guarded_intros)
  then show ?thesis unfolding pruneProject_def Let_def
    by (auto intro!: guarded_bnd guarded_intros guarded_pruneBranches simp: result_simps split: prod.splits)
qed

text \<open>The upstream of a branch, and that the branch has no commits of its own.\<close>

definition upstream :: "machine \<Rightarrow> WorkProject \<Rightarrow> Branch \<Rightarrow> string result" where
  "upstream mc p b =
     bind_result (LocalTrackBranch mc p (br_Name b)) (\<lambda>tb.
       if tb = [] then ResolveRemoteTracking mc p (br_Name b) else ResolveRevision mc p tb)"

lemma pruneCurrentD:
  assumes "\<not> po_Force o'" and "pruneCurrent mc o' p cb = Inr True"
  shows "Project_IsClean mc p \<and>
     ((\<exists>i. upstream mc p cb = Inr i \<and> Revlist mc p [br_Name cb, ''--not'', i] = Inr []) \<or> (\<exists>e. upstream mc p cb = Inl e))"
proof -
  obtain tb where tb: "LocalTrackBranch mc p (br_Name cb) = Inr tb" using assms by (auto simp: pruneCurrent_def result_simps)
  show ?thesis
    using assms unfolding pruneCurrent_def upstream_def tb bind_result.simps
    by (cases "if tb = [] then ResolveRemoteTracking mc p (br_Name cb) else ResolveRevision mc p tb")
      (auto split: sum.splits)
qed

text \<open>
  Property C7. What pruning a project without the option force may delete. It deletes by force only
  branches that track nothing. It leaves the current branch, in order to delete it, only when the
  work tree is clean and either the upstream of the branch resolves and no commit of the branch is
  missing from it, or the upstream cannot be resolved; in the latter case, as with branches that
  track nothing, the own commits of the branch are not looked for, and may be lost (lemma
  \<open>pruneProject_loses\<close> below). All conditions hold at the moment of the command.
\<close>

theorem pruneProject_keeps_work:
  assumes "\<not> po_Force o'" and "Run d (''git'' # args) \<in> set (acts (pruneProject s o' p) w tr)"
  shows "\<exists>pre. prefix (pre @ [Run d (''git'' # args)]) (acts (pruneProject s o' p) w tr) \<and>
    (let mc = w (tr @ pre); cb = HeadBranch mc p in
      (\<forall>ns. args = [''branch'', ''-D''] @ ns \<longrightarrow> (\<forall>n \<in> set ns. \<exists>b. n = ShortName b \<and> TrackBranch mc p (br_Name b) = Inr [])) \<and>
      (\<forall>rest. args = ''checkout'' # rest \<longrightarrow>
        Project_IsClean mc p \<and>
        ((\<exists>i. upstream mc p cb = Inr i \<and> Revlist mc p [br_Name cb, ''--not'', i] = Inr []) \<or> (\<exists>e. upstream mc p cb = Inl e))))"
proof -
  obtain pre where pre: "prefix (pre @ [Run d (''git'' # args)]) (acts (pruneProject s o' p) w tr)"
    and ok: "prune_ok o' p (w (tr @ pre)) (Run d (''git'' # args))"
    using guardedE [OF guarded_pruneProject assms(2)] by blast
  have "\<forall>n \<in> set ns. \<exists>b. n = ShortName b \<and> TrackBranch (w (tr @ pre)) p (br_Name b) = Inr []" if "args = [''branch'', ''-D''] @ ns" for ns
    using ok that assms(1) by (auto simp: prune_ok_def forced_def result_simps)
  moreover have "pruneCurrent (w (tr @ pre)) o' p (HeadBranch (w (tr @ pre)) p) = Inr True" if "args = ''checkout'' # rest" for rest
    using ok that by (auto simp: prune_ok_def)
  then have "Project_IsClean (w (tr @ pre)) p \<and>
      ((\<exists>i. upstream (w (tr @ pre)) p (HeadBranch (w (tr @ pre)) p) = Inr i \<and>
          Revlist (w (tr @ pre)) p [br_Name (HeadBranch (w (tr @ pre)) p), ''--not'', i] = Inr []) \<or>
       (\<exists>e. upstream (w (tr @ pre)) p (HeadBranch (w (tr @ pre)) p) = Inl e))" if "args = ''checkout'' # rest" for rest
    using that pruneCurrentD [OF assms(1)] by blast
  ultimately show ?thesis using pre by (intro exI [of _ pre]) (simp add: Let_def, blast)
qed

text \<open>The branch b is current, c has no upstream.\<close>

definition sample_heads :: machine where
  "sample_heads = sample_machine\<lparr>mc_Head := (\<lambda>_. Some (''refs/heads/b'', ''1'')), mc_Refs := (\<lambda>_. [(''refs/heads/b'', ''1''), (''refs/heads/c'', ''3'')])\<rparr>"

theorem pruneProject_keeps_work_witness:
  "let A = acts (pruneProject RepoSettings0 pruneDefaults sample_work) (\<lambda>_. sample_heads) [] in
   Run ''/w'' [''git'', ''branch'', ''-D'', ''c''] \<in> set A \<and> (\<exists>b. ''c'' = ShortName b \<and> TrackBranch sample_heads sample_work (br_Name b) = Inr [])"
proof -
  have run: "Run ''/w'' [''git'', ''branch'', ''-D'', ''c''] \<in> set (acts (pruneProject RepoSettings0 pruneDefaults sample_work) (\<lambda>_. sample_heads) [])"
    by code_simp
  have "\<not> po_Force pruneDefaults" by (simp add: pruneDefaults_def)
  from pruneProject_keeps_work [OF this run] run show ?thesis unfolding Let_def by simp
qed

text \<open>
  The only branch is current and tracks nothing that resolves: it is left and deleted by force,
  whatever commits it has.
\<close>

lemma pruneProject_loses:
  "let mc = sample_heads\<lparr>mc_Config := (\<lambda>_. Inr Map.empty), mc_Refs := (\<lambda>_. [(''refs/heads/b'', ''1'')]),
       mc_Resolve := (\<lambda>d r. if r = ''refs/heads/b'' then Inr ''1'' else Inl (Error r)),
       mc_Output := (\<lambda>d args. if hd (drop 1 args) = ''rev-list'' then (''1'', None) else ([], None))\<rparr> in
   acts (pruneProject RepoSettings0 pruneDefaults sample_work) (\<lambda>_. mc) [] =
     [Run ''/w'' [''git'', ''checkout'', ''-q'', ''HEAD^0'', ''--''], Run ''/w'' [''git'', ''branch'', ''-D'', ''b'']]"
  by code_simp

end
