(* ===== verification/Download_Command.thy ===== *)
theory Download_Command
  imports Branch_Commands
begin

text \<open>
  The command download (cmd/download.go): the changes named on the command line are fetched and
  checked out, merged, picked or reverted, one after the other.
\<close>

section \<open>Changes on the command line\<close>

definition digit19 :: "char \<Rightarrow> bool" where
  "digit19 c \<longleftrightarrow> isDigit c \<and> c \<noteq> CHR ''0''"

definition positive :: regexp where
  "positive = RSeq (RCls digit19) (RStar True isDigit)"

definition reChange :: regexp where
  "reChange = RSeq (RGrp ''1'' positive)
     (ROpt (RSeq (RCls (\<lambda>c. c \<in> set ''/. -'')) (RGrp ''2'' positive)))"

text \<open>The value \<^verbatim>\<open>Atoi\<close> returns beside its error: the nearest number of 64 bits.\<close>

definition AtoiValue :: "string \<Rightarrow> int" where
  "AtoiValue s =
     (case Atoi s of Some i \<Rightarrow> i
      | None \<Rightarrow>
        (let ds = (case s of c # cs \<Rightarrow> if c = CHR ''-'' \<or> c = CHR ''+'' then cs else s | [] \<Rightarrow> []) in
         if ds = [] \<or> \<not> list_all isDigit ds then 0 else if HasPrefix s ''-'' then minInt else maxInt))"

record projectChange =
  ch_Project :: WorkProject
  ReviewID :: int
  PatchID :: int

text \<open>\<open>get\<close> finds the projects of a name in the workspace. A number before any project is a change
  of the project of the current directory.\<close>

fun parseChanges :: "(string \<Rightarrow> WorkProject list result) \<Rightarrow> WorkProject option \<Rightarrow> string list \<Rightarrow> projectChange list result" where
  "parseChanges get p [] = Inr []"
| "parseChanges get p (arg # args) =
     (let matches = FindSubmatch reChange arg;
          projectName = (if matches \<noteq> None then ''.'' else arg);
          change = (\<lambda>q. case matches of None \<Rightarrow> []
                     | Some m \<Rightarrow> [\<lparr>ch_Project = q, ReviewID = AtoiValue (capture m ''1''), PatchID = AtoiValue (capture m ''2'')\<rparr>])
      in bind_result
           (case p of
              Some q \<Rightarrow> if matches = None then get projectName else Inr [q]
            | None \<Rightarrow> get projectName) (\<lambda>ps.
         case ps of
           [] \<Rightarrow> Inl (Error (''cannot find project matched for '' @ sq projectName))
         | q # _ \<Rightarrow> bind_result (parseChanges get (Some q) args) (\<lambda>cs. Inr (change q @ cs))))"

section \<open>The command\<close>

record download_options =
  do_CherryPick :: bool
  do_Revert :: bool
  do_FFOnly :: bool
  do_NoCache :: bool
  do_Remote :: string

definition unusualCommitThreshold :: nat where "unusualCommitThreshold = 5"

definition cherryPick :: "cmd_env \<Rightarrow> WorkProject \<Rightarrow> PatchSet \<Rightarrow> unit op" where
  "cherryPick env p dl =
     bnd (if length (ps_Commits dl) > unusualCommitThreshold
          then bnd (userInput env (''Too many commits('' @ Itoa (int (length (ps_Commits dl))) @ '') to cherry pick, are you sure (y/N)? '') ''N'')
                 (\<lambda>input. ret (answerIsTrue input))
          else ret True) (\<lambda>answer.
       if answer then CherryPick p (ps_Commits dl) else fail (Error ''cherry-pick aborted by user''))"

definition revertChange :: "RemoteMap \<Rightarrow> WorkProject \<Rightarrow> PatchSet \<Rightarrow> unit op" where
  "revertChange table p dl =
     bnd (lookR (\<lambda>mc. GetDefaultRemote mc table p True)) (\<lambda>remote.
       case remote of
         None \<Rightarrow> fail (Error (''cannot get remote of project: '' @ pName p))
       | Some r \<Rightarrow>
         (case pr_Helper r of
            None \<Rightarrow> fail nilPointer
          | Some h \<Rightarrow> if GetType h = ProtoTypeGerrit then Revert p (ps_Commit dl)
                      else fail (Error ''--revert only works for gerrit server'')))"

definition applyChange :: "cmd_env \<Rightarrow> RemoteMap \<Rightarrow> download_options \<Rightarrow> WorkProject \<Rightarrow> PatchSet \<Rightarrow> unit op" where
  "applyChange env table o' p dl =
     (if ps_Commits dl = [] \<and> \<not> do_Revert o' then ret ()
      else if do_CherryPick o' then cherryPick env p dl
      else if do_Revert o' then revertChange table p dl
      else if do_FFOnly o' then FastForward p [''--ff-only'', ps_Commit dl]
      else CheckoutRevision p [ps_Commit dl])"

definition downloadChange :: "cmd_env \<Rightarrow> ext_env \<Rightarrow> (WorkProject \<Rightarrow> RemoteMap) \<Rightarrow> download_options \<Rightarrow> projectChange \<Rightarrow> unit op" where
  "downloadChange env ext tables o' c =
     bnd (DownloadPatchSet ext (tables (ch_Project c)) (ch_Project c) (do_Remote o') (ReviewID c) (PatchID c)) (\<lambda>dl.
       applyChange env (tables (ch_Project c)) o' (ch_Project c) dl)"

definition download_check :: "cmd_env \<Rightarrow> download_options \<Rightarrow> string list \<Rightarrow> unit result" where
  "download_check env o' args =
     (if length (filter id [do_CherryPick o', do_Revert o', do_FFOnly o']) > 1
      then Inl (Error ''cannot use more than one of `-c`, `-r`, or `-f` options'')
      else if do_Remote o' \<noteq> [] \<and> \<not> ce_Single env then Inl (Error ''--remote can be only used with --single'')
      else if args = [] then Inl (Error (ce_s (newUserError [''no args''])))
      else Inr ())"

definition download_Execute :: "cmd_env \<Rightarrow> ext_env \<Rightarrow> WorkSpace result \<Rightarrow> (WorkProject \<Rightarrow> RemoteMap) result \<Rightarrow> download_options \<Rightarrow> string list \<Rightarrow> unit op" where
  "download_Execute env ext found infos o' args =
     bnd (lookR (\<lambda>_. Cmd_WorkSpace \<lparr>wc_MirrorOK = False, wc_SingleOK = True\<rparr> env found)) (\<lambda>ws.
     bnd (lookR (\<lambda>_. infos)) (\<lambda>tables.
     bnd (lookR (\<lambda>_. download_check env o' args)) (\<lambda>_.
     bnd (lookR (\<lambda>mc. parseChanges (\<lambda>n. WorkSpace_GetProjects mc ws [n]) None args)) (\<lambda>changes.
       each (downloadChange env ext tables o') changes))))"

section \<open>Changes are read back\<close>

lemma digits_of_shape:
  assumes "0 < n"
  obtains d ds where "digits_of n = d # ds" and "digit19 d" and "list_all isDigit ds"
proof -
  have "\<exists>d ds. digits_of n = d # ds \<and> digit19 d \<and> list_all isDigit ds"
    using assms
  proof (induction n rule: digits_of.induct)
    case (1 n)
    show ?case
    proof (cases "n < 10")
      case True
      with 1(2) have "digits_of n = [char_of (48 + n)]" by (simp add: digits_of.simps [of n])
      moreover have "digit19 (char_of (48 + n))"
        using True 1(2) by (auto simp: digit19_def dest: arg_cong [where f = "of_char :: char \<Rightarrow> nat"])
      ultimately show ?thesis by simp
    next
      case False
      then have "0 < n div 10" by (simp add: div_greater_zero_iff)
      then obtain d ds where "digits_of (n div 10) = d # ds" "digit19 d" "list_all isDigit ds" using 1(1) False by blast
      moreover have "digits_of n = digits_of (n div 10) @ [char_of (48 + n mod 10)]" using False by (simp add: digits_of.simps [of n])
      ultimately show ?thesis by simp
    qed
  qed
  then show thesis using that by blast
qed

text \<open>A change as it is written: the number of the review and, after a slash, of the patch set.\<close>

definition changeText :: "nat \<Rightarrow> nat \<Rightarrow> string" where
  "changeText r n = digits_of r @ (if n = 0 then [] else ''/'' @ digits_of n)"

lemma positive_match:
  assumes "0 < n" and "rest = [] \<or> \<not> isDigit (hd rest)" and "k rest ((g, digits_of n) # c) = Some x"
  shows "rmatch (RGrp g positive) (digits_of n @ rest) c k = Some x"
proof -
  obtain d ds where d: "digits_of n = d # ds" "digit19 d" "list_all isDigit ds" using digits_of_shape [OF assms(1)] .
  then have "greedy_star isDigit (ds @ rest) (\<lambda>s'. k s' ((g, take (length (d # ds @ rest) - length s') (d # ds @ rest)) # c)) = Some x"
    using assms(2,3) by (intro greedy_star_max) auto
  then show ?thesis using d by (simp add: positive_def class_star_def)
qed

lemma digits_of_digits: "list_all isDigit (digits_of n)"
  by (induction n rule: digits_of.induct) (subst digits_of.simps, auto)

lemma reChange_text:
  assumes "0 < r"
  shows "FindSubmatch reChange (changeText r n) = Some ((if n = 0 then [] else [(''2'', digits_of n)]) @ [(''1'', digits_of r)])"
proof (cases "n = 0")
  case True
  then show ?thesis unfolding FindSubmatch_def reChange_def changeText_def rmatch.simps(4)
    using assms by (intro positive_match) auto
next
  case False
  have "rmatch (RGrp ''2'' positive) (digits_of n @ []) [(''1'', digits_of r)] (\<lambda>s' c. if s' = [] then Some c else None) =
      Some [(''2'', digits_of n), (''1'', digits_of r)]"
    using False by (intro positive_match) auto
  moreover have "\<not> isDigit CHR ''/''" by code_simp
  ultimately show ?thesis unfolding FindSubmatch_def reChange_def changeText_def rmatch.simps(4)
    using assms False by (intro positive_match) auto
qed

lemma AtoiValue_digits: "int n \<le> maxInt \<Longrightarrow> AtoiValue (digits_of n) = int n"
  using Atoi_Itoa [of "int n"] by (simp add: AtoiValue_def Itoa_def minInt_def)

lemma parseChanges_texts:
  assumes "\<forall>(r, n) \<in> set cs. 0 < r \<and> int r \<le> maxInt \<and> int n \<le> maxInt"
  shows "parseChanges get (Some p) (map (\<lambda>(r, n). changeText r n) cs) =
    Inr (map (\<lambda>(r, n). \<lparr>ch_Project = p, ReviewID = int r, PatchID = int n\<rparr>) cs)"
  using assms
proof (induction cs)
  case (Cons c cs)
  obtain r n where c: "c = (r, n)" by (cases c)
  have "AtoiValue [] = 0" by code_simp
  then show ?case using Cons reChange_text [of r n] by (simp add: c AtoiValue_digits capture_def)
qed simp

text \<open>
  Property C12. The changes written after the name of a project, as numbers of reviews and patch
  sets, are read back as changes of this project, in order. A review without a patch set has
  patch set 0, the latest.
\<close>

theorem parseChanges_text:
  assumes "get name = Inr (p # ps)" and "FindSubmatch reChange name = None"
    and "\<forall>(r, n) \<in> set cs. 0 < r \<and> int r \<le> maxInt \<and> int n \<le> maxInt"
  shows "parseChanges get None (name # map (\<lambda>(r, n). changeText r n) cs) =
    Inr (map (\<lambda>(r, n). \<lparr>ch_Project = p, ReviewID = int r, PatchID = int n\<rparr>) cs)"
  using parseChanges_texts [OF assms(3)] assms(1,2) by simp

theorem parseChanges_text_witness:
  "parseChanges (\<lambda>n. Inr [sample_project n]) None [''p'', ''12/3'', ''400''] =
     Inr [\<lparr>ch_Project = sample_project ''p'', ReviewID = 12, PatchID = 3\<rparr>, \<lparr>ch_Project = sample_project ''p'', ReviewID = 400, PatchID = 0\<rparr>]"
proof -
  have "changeText 12 3 = ''12/3''" "changeText 400 0 = ''400''" "FindSubmatch reChange ''p'' = None" by code_simp+
  with parseChanges_text [of "\<lambda>n. Inr [sample_project n]" "''p''" "sample_project ''p''" "[]" "[(12, 3), (400, 0)]"] show ?thesis
    by (simp add: maxInt_def)
qed

text \<open>A number beyond 64 bits is not refused, it becomes the largest one.\<close>

lemma AtoiValue_overflow: "AtoiValue ''9223372036854775808'' = maxInt" "AtoiValue ''9223372036854775807'' = maxInt"
  by (simp_all add: AtoiValue_def Atoi_def isDigit_def digit_val_def maxInt_def minInt_def HasPrefix_def)

end
