(* ===== verification/Upload_Options.thy ===== *)
theory Upload_Options
  imports Download_Command
begin

text \<open>
  The options of the command upload and the script in which the user edits them (cmd/upload.go):
  a script has a comment line for each section, below which the lines of its text follow.
\<close>

section \<open>Options\<close>

record upload_options =
  u_AutoTopic :: bool
  u_Branch :: string
  u_Cc :: "string list"
  u_CodeReview :: CodeReview
  u_CurrentBranch :: bool
  u_Description :: string
  u_DestBranch :: string
  u_Draft :: bool
  u_Issue :: string
  u_MockGitPush :: bool
  u_MockEditScript :: string
  u_NoCache :: bool
  u_NoCertChecks :: bool
  u_NoEdit :: bool
  u_NoEmails :: bool
  u_Private :: bool
  u_PushOptions :: "string list"
  u_ReRun :: bool
  u_Reviewers :: "string list"
  u_Remote :: string
  u_Title :: string
  u_WIP :: bool

definition upload_options0 :: upload_options where
  "upload_options0 = \<lparr>u_AutoTopic = False, u_Branch = [], u_Cc = [], u_CodeReview = \<lparr>cr_ID = [], cr_Ref = []\<rparr>,
     u_CurrentBranch = False, u_Description = [], u_DestBranch = [], u_Draft = False, u_Issue = [], u_MockGitPush = False,
     u_MockEditScript = [], u_NoCache = False, u_NoCertChecks = False, u_NoEdit = False, u_NoEmails = False, u_Private = False,
     u_PushOptions = [], u_ReRun = False, u_Reviewers = [], u_Remote = [], u_Title = [], u_WIP = False\<rparr>"

text \<open>Other names of the options on the command line.\<close>

definition aliasNormalizeFunc :: "string \<Rightarrow> string" where
  "aliasNormalizeFunc name =
     (if name = ''re'' then ''reviewers''
      else if name = ''reviewer'' then ''reviewers''
      else if name = ''current-branch'' then ''cbr''
      else if name = ''destination'' then ''dest''
      else if name = ''rerun'' then ''re-run''
      else name)"

section \<open>Reading a script\<close>

definition reEditSection :: regexp where
  "reEditSection = RSeq (RLit ''#'') (RSeq (RPlus True re_space) (RSeq (RLit ''['')
     (RSeq (RGrp ''1'' (RPlus False (\<lambda>c. \<not> re_space c))) (RSeq (RLit '']'')
       (ROpt (RGrp ''2'' (RSeq (RStar True re_space) (RSeq (RLit '':'') (RStar True any_char)))))))))"

abbreviation LF :: char where "LF \<equiv> CHR 0x0A"

definition setUploadOption :: "string \<Rightarrow> string \<Rightarrow> upload_options \<Rightarrow> upload_options" where
  "setUploadOption sec text0 o' =
     (let text = TrimSpace text0 in
      if text = [] then o'
      else if sec = ''title'' then o'\<lparr>u_Title := hd (StrSplit text LF)\<rparr>
      else if sec = ''description'' then o'\<lparr>u_Description := text\<rparr>
      else if sec = ''issue'' then o'\<lparr>u_Issue := StrJoin (StrSplit text LF) '',''\<rparr>
      else if sec = ''reviewer'' then o'\<lparr>u_Reviewers := StrSplit text LF\<rparr>
      else if sec = ''cc'' then o'\<lparr>u_Cc := StrSplit text LF\<rparr>
      else if sec = ''draft'' \<or> sec = ''private'' then
        (if text \<in> set [''y'', ''yes'', ''on'', ''t'', ''true'', ''1''] then
           (if sec = ''draft'' then o'\<lparr>u_Draft := True\<rparr> else o'\<lparr>u_Private := True\<rparr>)
         else if text \<in> set [''n'', ''no'', ''off'', ''f'', ''false'', ''0''] then
           (if sec = ''draft'' then o'\<lparr>u_Draft := False\<rparr> else o'\<lparr>u_Private := False\<rparr>)
         else o')
      else o')"

definition editSections :: "string list" where
  "editSections = [''title'', ''description'', ''issue'', ''reviewer'', ''cc'', ''draft'', ''private'']"

text \<open>The state of the loop: the current section, its text so far, and the options.\<close>

type_synonym load_state = "string \<times> string \<times> upload_options"

definition trimBlanks :: "string \<Rightarrow> string" where
  "trimBlanks = TrimRightIf (\<lambda>c. c \<in> set [CHR '' '', CHR 0x09])"

definition sectionName :: "string \<Rightarrow> string" where
  "sectionName line = (case FindSubmatch reEditSection line of None \<Rightarrow> [] | Some m \<Rightarrow> ToLower (capture m ''1''))"

definition loadLine :: "load_state \<Rightarrow> string \<Rightarrow> load_state" where
  "loadLine = (\<lambda>(sec, text, o') line0.
     let line = trimBlanks line0; name = sectionName line in
     if name \<in> set editSections then (name, [], if sec \<noteq> [] then setUploadOption sec text o' else o')
     else if HasPrefix line ''#'' then (sec, text, o')
     else if sec \<noteq> [] then (sec, text @ line @ [LF], o')
     else (sec, text, o'))"

definition loadEnd :: "load_state \<Rightarrow> upload_options" where
  "loadEnd s = (case s of (sec, text, o') \<Rightarrow> if sec \<noteq> [] then setUploadOption sec text o' else o')"

definition LoadFromText :: "upload_options \<Rightarrow> string \<Rightarrow> upload_options" where
  "LoadFromText o' data = loadEnd (foldl loadLine ([], [], o') (StrSplit data LF))"

definition LoadFromFile :: "(string \<Rightarrow> string option) \<Rightarrow> upload_options \<Rightarrow> string \<Rightarrow> upload_options" where
  "LoadFromFile readFile o' name = (case readFile name of None \<Rightarrow> o' | Some data \<Rightarrow> LoadFromText o' data)"

section \<open>Writing a script\<close>

definition exportHead :: "string \<Rightarrow> string \<Rightarrow> string" where
  "exportHead title msg = ''# '' @ padRight 13 (''['' @ title @ '']'') @ '' : '' @ msg"

definition exportSection :: "string \<Rightarrow> string \<Rightarrow> string list \<Rightarrow> string list" where
  "exportSection title msg body =
     exportHead title msg # (if body = [] then [] else [] # body) @ [[]]"

definition lineBody :: "string \<Rightarrow> string list" where
  "lineBody t = (if t \<noteq> [] then [t] else [])"

definition textBody :: "string \<Rightarrow> string list" where
  "textBody t = (if t \<noteq> [] then StrSplit t LF else [])"

definition flagBody :: "bool \<Rightarrow> string list" where
  "flagBody b = (if b then [''yes''] else [])"

definition Export :: "bool \<Rightarrow> upload_options \<Rightarrow> string list" where
  "Export isPub v =
     (if \<not> isPub then
        exportSection ''Title'' ''one line message below as the title of code review''
          (lineBody (u_Title v)) @
        exportSection ''Description'' ''multiple lines of text as the description of code review''
          (textBody (u_Description v))
      else []) @
     exportSection ''Issue'' ''multiple lines of issue IDs for cross references'' (lineBody (u_Issue v)) @
     exportSection ''Reviewer'' ''multiple lines of user names as the reviewers for code review'' (u_Reviewers v) @
     exportSection ''Cc'' ''multiple lines of user names as the watchers for code review'' (u_Cc v) @
     exportSection ''Draft'' ''a boolean (yes/no, or true/false) to turn on/off draft mode'' (flagBody (u_Draft v)) @
     exportSection ''Private'' ''a boolean (yes/no, or true/false) to turn on/off private mode'' (flagBody (u_Private v))"

section \<open>A script is read back\<close>

text \<open>Lines that a script keeps: no comments, no blanks at their ends, a first and a last line
  that are not empty.\<close>

definition plainLine :: "string \<Rightarrow> bool" where
  "plainLine l \<longleftrightarrow> LF \<notin> set l \<and> \<not> HasPrefix l ''#'' \<and> (l \<noteq> [] \<longrightarrow> last l \<notin> set [CHR '' '', CHR 0x09])"

definition solid :: "string \<Rightarrow> bool" where
  "solid l \<longleftrightarrow> l \<noteq> [] \<and> \<not> isSpace (hd l) \<and> \<not> isSpace (last l)"

definition plainBody :: "string list \<Rightarrow> bool" where
  "plainBody ls \<longleftrightarrow> list_all plainLine ls \<and> (ls \<noteq> [] \<longrightarrow> solid (hd ls) \<and> solid (last ls))"

lemma loadLine_plain:
  assumes "plainLine l"
  shows "loadLine (sec, text, o') l = (if sec \<noteq> [] then (sec, text @ l @ [LF], o') else (sec, text, o'))"
proof -
  have "trimBlanks l = l"
    using assms by (cases "l = []") (simp_all add: plainLine_def trimBlanks_def TrimRightIf_def dropWhile_eq_self_iff [THEN iffD2] hd_rev)
  moreover have "sectionName l = []"
    using assms by (auto simp: plainLine_def sectionName_def FindSubmatch_def reEditSection_def)
  ultimately show ?thesis using assms by (simp add: loadLine_def plainLine_def editSections_def)
qed

lemma loadLines_plain:
  assumes "list_all plainLine ls" and "sec \<noteq> []"
  shows "foldl loadLine (sec, text, o') ls = (sec, text @ concat (map (\<lambda>l. l @ [LF]) ls), o')"
  using assms by (induction ls arbitrary: "text") (simp_all add: loadLine_plain)

lemma concat_lines: "ls \<noteq> [] \<Longrightarrow> concat (map (\<lambda>l. l @ [LF]) ls) = StrJoin ls [LF] @ [LF]"
  by (induction ls) (auto simp: StrJoin_Cons)

lemma StrJoin_hd: "ls \<noteq> [] \<Longrightarrow> hd ls \<noteq> [] \<Longrightarrow> hd (StrJoin ls sep) = hd (hd ls)"
  by (cases ls) (auto simp: StrJoin_Cons)

lemma StrJoin_last: "ls \<noteq> [] \<Longrightarrow> last ls \<noteq> [] \<Longrightarrow> StrJoin ls sep \<noteq> [] \<and> last (StrJoin ls sep) = last (last ls)"
  by (induction ls) (auto simp: StrJoin_Cons)

lemma isSpace_LF [simp]: "isSpace LF" by (simp add: isSpace_def)

lemma TrimSpace_LF_left: "TrimSpace (LF # s) = TrimSpace s"
  by (simp add: TrimSpace_def)

lemma TrimSpace_LF_right: "TrimSpace (s @ [LF]) = TrimSpace s"
proof -
  have "dropWhile isSpace (s @ [LF]) = (if dropWhile isSpace s = [] then [] else dropWhile isSpace s @ [LF])"
    by (induction s) auto
  then show ?thesis by (cases "dropWhile isSpace s = []") (simp_all add: TrimSpace_def TrimRightIf_def del: dropWhile_eq_Nil_conv)
qed

lemma plainBody_text:
  assumes "plainBody body" and "body \<noteq> []"
  shows "StrJoin body [LF] \<noteq> []" and "TrimSpace (StrJoin body [LF]) = StrJoin body [LF]"
    and "StrSplit (StrJoin body [LF]) LF = body"
proof -
  have s: "solid (hd body)" "solid (last body)" using assms by (auto simp: plainBody_def)
  then have "StrJoin body [LF] \<noteq> []" "hd (StrJoin body [LF]) = hd (hd body)" "last (StrJoin body [LF]) = last (last body)"
    using assms(2) StrJoin_hd [of body] StrJoin_last [of body] by (auto simp: solid_def)
  then show "StrJoin body [LF] \<noteq> []" "TrimSpace (StrJoin body [LF]) = StrJoin body [LF]"
    using s by (auto simp: solid_def intro: TrimSpace_id)
  show "StrSplit (StrJoin body [LF]) LF = body"
    using assms by (intro StrSplit_StrJoin) (auto simp: plainBody_def plainLine_def list_all_iff)
qed

text \<open>Reading an exported section ends the section before it.\<close>

definition flush :: "string \<Rightarrow> string \<Rightarrow> upload_options \<Rightarrow> upload_options" where
  "flush sec text o' = (if sec \<noteq> [] then setUploadOption sec text o' else o')"

definition bodyText :: "string list \<Rightarrow> string" where
  "bodyText body = (if body = [] then [LF] else LF # StrJoin body [LF] @ [LF, LF])"

lemma TrimSpace_bodyText: "plainBody body \<Longrightarrow> TrimSpace (bodyText body) = StrJoin body [LF]"
  using TrimSpace_LF_right [of "StrJoin body [LF] @ [LF]"] TrimSpace_LF_right [of "StrJoin body [LF]"] plainBody_text [of body]
  by (auto simp: bodyText_def TrimSpace_LF_left) (simp add: TrimSpace_def TrimRightIf_def)

lemma setUploadOption_bodyText:
  "plainBody body \<Longrightarrow> setUploadOption sec (bodyText body) o' = setUploadOption sec (StrJoin body [LF]) o'"
  using plainBody_text(2) [of body]
  by (cases "body = []") (simp_all add: setUploadOption_def TrimSpace_bodyText, simp add: TrimSpace_def TrimRightIf_def)

lemma loadSection:
  assumes "sectionName (trimBlanks (exportHead title msg)) = name"
    and "name \<in> set editSections" and "plainBody body"
  shows "foldl loadLine (sec, text, o') (exportSection title msg body) = (name, bodyText body, flush sec text o')"
proof -
  have "loadLine (sec, text, o') (exportHead title msg) = (name, [], flush sec text o')"
    using assms(1,2) by (simp add: loadLine_def flush_def)
  moreover have "foldl loadLine (name, [], flush sec text o') ((if body = [] then [] else [] # body) @ [[]]) = (name, bodyText body, flush sec text o')"
  proof (subst loadLines_plain)
    show "list_all plainLine ((if body = [] then [] else [] # body) @ [[]])" using assms(3) by (auto simp: plainBody_def plainLine_def)
    show "name \<noteq> []" using assms(2) by (auto simp: editSections_def)
  qed (simp add: bodyText_def concat_lines)
  ultimately show ?thesis by (simp add: exportSection_def del: append.simps(2) flip: append_Cons)
qed

lemma exportHeads:
  "sectionName (trimBlanks (exportHead ''Title'' ''one line message below as the title of code review'')) = ''title''"
  "sectionName (trimBlanks (exportHead ''Description'' ''multiple lines of text as the description of code review'')) = ''description''"
  "sectionName (trimBlanks (exportHead ''Issue'' ''multiple lines of issue IDs for cross references'')) = ''issue''"
  "sectionName (trimBlanks (exportHead ''Reviewer'' ''multiple lines of user names as the reviewers for code review'')) = ''reviewer''"
  "sectionName (trimBlanks (exportHead ''Cc'' ''multiple lines of user names as the watchers for code review'')) = ''cc''"
  "sectionName (trimBlanks (exportHead ''Draft'' ''a boolean (yes/no, or true/false) to turn on/off draft mode'')) = ''draft''"
  "sectionName (trimBlanks (exportHead ''Private'' ''a boolean (yes/no, or true/false) to turn on/off private mode'')) = ''private''"
  by code_simp+

lemma editSections_names:
  "''title'' \<in> set editSections" "''description'' \<in> set editSections" "''issue'' \<in> set editSections"
  "''reviewer'' \<in> set editSections" "''cc'' \<in> set editSections" "''draft'' \<in> set editSections" "''private'' \<in> set editSections"
  by (simp_all add: editSections_def)

lemmas loadExport = loadSection [OF exportHeads(1) editSections_names(1)]
  loadSection [OF exportHeads(2) editSections_names(2)]
  loadSection [OF exportHeads(3) editSections_names(3)]
  loadSection [OF exportHeads(4) editSections_names(4)]
  loadSection [OF exportHeads(5) editSections_names(5)]
  loadSection [OF exportHeads(6) editSections_names(6)]
  loadSection [OF exportHeads(7) editSections_names(7)]

text \<open>What each section sets.\<close>

lemma set_body:
  assumes "plainBody body"
  shows "setUploadOption ''title'' (bodyText body) o' = (if body = [] then o' else o'\<lparr>u_Title := hd body\<rparr>)"
    and "setUploadOption ''description'' (bodyText body) o' = (if body = [] then o' else o'\<lparr>u_Description := StrJoin body [LF]\<rparr>)"
    and "setUploadOption ''issue'' (bodyText body) o' = (if body = [] then o' else o'\<lparr>u_Issue := StrJoin body '',''\<rparr>)"
    and "setUploadOption ''reviewer'' (bodyText body) o' = (if body = [] then o' else o'\<lparr>u_Reviewers := body\<rparr>)"
    and "setUploadOption ''cc'' (bodyText body) o' = (if body = [] then o' else o'\<lparr>u_Cc := body\<rparr>)"
    and "body = [''yes''] \<or> body = [] \<Longrightarrow> setUploadOption ''draft'' (bodyText body) o' = (if body = [] then o' else o'\<lparr>u_Draft := True\<rparr>)"
    and "body = [''yes''] \<or> body = [] \<Longrightarrow> setUploadOption ''private'' (bodyText body) o' = (if body = [] then o' else o'\<lparr>u_Private := True\<rparr>)"
proof -
  have e: "setUploadOption sec (bodyText []) o' = o'" for sec
    by (simp add: setUploadOption_def bodyText_def TrimSpace_def TrimRightIf_def)
  note facts = TrimSpace_bodyText [OF assms] plainBody_text(1,3) [OF assms] setUploadOption_def Let_def
  show "setUploadOption ''title'' (bodyText body) o' = (if body = [] then o' else o'\<lparr>u_Title := hd body\<rparr>)"
    and "setUploadOption ''description'' (bodyText body) o' = (if body = [] then o' else o'\<lparr>u_Description := StrJoin body [LF]\<rparr>)"
    and "setUploadOption ''issue'' (bodyText body) o' = (if body = [] then o' else o'\<lparr>u_Issue := StrJoin body '',''\<rparr>)"
    and "setUploadOption ''reviewer'' (bodyText body) o' = (if body = [] then o' else o'\<lparr>u_Reviewers := body\<rparr>)"
    and "setUploadOption ''cc'' (bodyText body) o' = (if body = [] then o' else o'\<lparr>u_Cc := body\<rparr>)"
    by (cases "body = []"; simp add: e; simp add: facts)+
  have y: "plainBody [''yes'']" by code_simp
  show "body = [''yes''] \<or> body = [] \<Longrightarrow> setUploadOption ''draft'' (bodyText body) o' = (if body = [] then o' else o'\<lparr>u_Draft := True\<rparr>)"
    and "body = [''yes''] \<or> body = [] \<Longrightarrow> setUploadOption ''private'' (bodyText body) o' = (if body = [] then o' else o'\<lparr>u_Private := True\<rparr>)"
    by (elim disjE; simp add: e; simp add: setUploadOption_def TrimSpace_bodyText [OF y])+
qed

lemma set_fields:
  "plainBody (lineBody t) \<Longrightarrow> setUploadOption ''title'' (bodyText (lineBody t)) o' = u_Title_update (\<lambda>x. if t = [] then x else t) o'"
  "plainBody (textBody t) \<Longrightarrow> setUploadOption ''description'' (bodyText (textBody t)) o' = u_Description_update (\<lambda>x. if t = [] then x else t) o'"
  "plainBody (lineBody t) \<Longrightarrow> setUploadOption ''issue'' (bodyText (lineBody t)) o' = u_Issue_update (\<lambda>x. if t = [] then x else t) o'"
  "plainBody ls \<Longrightarrow> setUploadOption ''reviewer'' (bodyText ls) o' = u_Reviewers_update (\<lambda>x. if ls = [] then x else ls) o'"
  "plainBody ls \<Longrightarrow> setUploadOption ''cc'' (bodyText ls) o' = u_Cc_update (\<lambda>x. if ls = [] then x else ls) o'"
  "plainBody (flagBody b) \<Longrightarrow> setUploadOption ''draft'' (bodyText (flagBody b)) o' = u_Draft_update (\<lambda>x. x \<or> b) o'"
  "plainBody (flagBody b) \<Longrightarrow> setUploadOption ''private'' (bodyText (flagBody b)) o' = u_Private_update (\<lambda>x. x \<or> b) o'"
  by (cases o'; simp add: set_body; simp add: lineBody_def textBody_def; fail)+
    (cases o'; cases b; simp add: flagBody_def set_body)+

lemma flush_Nil: "flush [] t o' = o'" by (simp add: flush_def)

lemma flush_set:
  "flush ''title'' t o' = setUploadOption ''title'' t o'" "flush ''description'' t o' = setUploadOption ''description'' t o'"
  "flush ''issue'' t o' = setUploadOption ''issue'' t o'" "flush ''reviewer'' t o' = setUploadOption ''reviewer'' t o'"
  "flush ''cc'' t o' = setUploadOption ''cc'' t o'" "flush ''draft'' t o' = setUploadOption ''draft'' t o'"
  by (simp_all add: flush_def)

definition edited :: "bool \<Rightarrow> upload_options \<Rightarrow> upload_options \<Rightarrow> upload_options" where
  "edited isPub o' v =
     (if isPub then o'
      else o'\<lparr>u_Title := (if u_Title v = [] then u_Title o' else u_Title v),
              u_Description := (if u_Description v = [] then u_Description o' else u_Description v)\<rparr>)
     \<lparr>u_Issue := (if u_Issue v = [] then u_Issue o' else u_Issue v),
      u_Reviewers := (if u_Reviewers v = [] then u_Reviewers o' else u_Reviewers v),
      u_Cc := (if u_Cc v = [] then u_Cc o' else u_Cc v),
      u_Draft := (u_Draft o' \<or> u_Draft v), u_Private := (u_Private o' \<or> u_Private v)\<rparr>"

definition plainOptions :: "upload_options \<Rightarrow> bool" where
  "plainOptions v \<longleftrightarrow> plainBody (lineBody (u_Title v)) \<and>
     plainBody (textBody (u_Description v)) \<and>
     plainBody (lineBody (u_Issue v)) \<and> plainBody (u_Reviewers v) \<and> plainBody (u_Cc v)"

text \<open>Comments and empty lines around the sections do not count.\<close>

definition quietLine :: "string \<Rightarrow> bool" where
  "quietLine l \<longleftrightarrow> l = [] \<or> LF \<notin> set l \<and> HasPrefix (trimBlanks l) ''#'' \<and> sectionName (trimBlanks l) \<notin> set editSections"

lemma trimBlanks_Nil [simp]: "trimBlanks [] = []" by (simp add: trimBlanks_def TrimRightIf_def)

lemma loadLine_quiet:
  assumes "quietLine l"
  obtains k where "loadLine (sec, text, o') l = (sec, text @ replicate k LF, o')"
proof (cases "l = [] \<and> sec \<noteq> []")
  case True
  then show thesis using that [of 1] loadLine_plain [of "[]" sec "text" o'] by (simp add: plainLine_def)
next
  case False
  then show thesis using assms that [of 0] loadLine_plain [of "[]" sec "text" o']
    by (cases "l = []") (auto simp: quietLine_def plainLine_def loadLine_def)
qed

lemma loadLines_quiet:
  assumes "list_all quietLine ls"
  shows "\<exists>k. foldl loadLine (sec, text, o') ls = (sec, text @ replicate k LF, o')"
  using assms
proof (induction ls arbitrary: "text")
  case Nil
  show ?case by (intro exI [of _ 0]) simp
next
  case (Cons l ls)
  obtain k where "loadLine (sec, text, o') l = (sec, text @ replicate k LF, o')"
    using Cons.prems loadLine_quiet [of l sec "text" o'] by auto
  moreover obtain j where "foldl loadLine (sec, text @ replicate k LF, o') ls = (sec, (text @ replicate k LF) @ replicate j LF, o')"
    using Cons by fastforce
  ultimately show ?case by (intro exI [of _ "k + j"]) (simp add: replicate_add)
qed

lemma setUploadOption_LFs: "setUploadOption sec (text @ replicate k LF) o' = setUploadOption sec text o'"
proof -
  have "TrimSpace (text @ replicate k LF) = TrimSpace text"
  proof (induction k)
    case (Suc k)
    then show ?case using TrimSpace_LF_right [of "text @ replicate k LF"] by (simp add: replicate_append_same)
  qed simp
  then show ?thesis by (simp add: setUploadOption_def)
qed

lemma loadEnd_quiet:
  assumes "list_all quietLine ls"
  shows "loadEnd (foldl loadLine s ls) = loadEnd s"
proof -
  obtain sec t o' where s: "s = (sec, t, o')" by (cases s)
  obtain k where "foldl loadLine s ls = (sec, t @ replicate k LF, o')" using loadLines_quiet [OF assms] unfolding s by blast
  then show ?thesis by (simp add: s loadEnd_def setUploadOption_LFs)
qed

lemma loadExport_all:
  assumes "plainOptions v" and "list_all quietLine post"
  shows "loadEnd (foldl loadLine ([], text, o') (Export isPub v @ post)) = edited isPub o' v"
proof -
  have "plainBody (flagBody True)" "plainBody (flagBody False)" by code_simp+
  then have y: "plainBody (flagBody b)" for b by (cases b) simp_all
  note p = assms(1) [unfolded plainOptions_def]
  have last: "loadEnd (''private'', t, o') = setUploadOption ''private'' t o'" for t o' by (simp add: loadEnd_def)
  have "loadEnd (foldl loadLine ([], text, o') (Export isPub v)) = edited isPub o' v"
  proof (cases isPub)
    case True
    then have "loadEnd (foldl loadLine ([], text, o') (Export isPub v)) =
      u_Private_update (\<lambda>x. x \<or> u_Private v) (u_Draft_update (\<lambda>x. x \<or> u_Draft v)
       (u_Cc_update (\<lambda>x. if u_Cc v = [] then x else u_Cc v) (u_Reviewers_update (\<lambda>x. if u_Reviewers v = [] then x else u_Reviewers v)
       (u_Issue_update (\<lambda>x. if u_Issue v = [] then x else u_Issue v) o'))))"
      by (simp only: Export_def simp_thms if_False append_Nil foldl_append loadExport last p y flush_set flush_Nil set_fields)
    then show ?thesis by (simp add: edited_def True)
  next
    case False
    then have "loadEnd (foldl loadLine ([], text, o') (Export isPub v)) =
      u_Private_update (\<lambda>x. x \<or> u_Private v) (u_Draft_update (\<lambda>x. x \<or> u_Draft v)
       (u_Cc_update (\<lambda>x. if u_Cc v = [] then x else u_Cc v) (u_Reviewers_update (\<lambda>x. if u_Reviewers v = [] then x else u_Reviewers v)
       (u_Issue_update (\<lambda>x. if u_Issue v = [] then x else u_Issue v)
       (u_Description_update (\<lambda>x. if u_Description v = [] then x else u_Description v)
       (u_Title_update (\<lambda>x. if u_Title v = [] then x else u_Title v) o'))))))"
      by (simp only: Export_def simp_thms if_True foldl_append loadExport last p y flush_set flush_Nil set_fields)
    then show ?thesis by (simp add: edited_def False)
  qed
  then show ?thesis using loadEnd_quiet [OF assms(2)] by simp
qed

lemma Export_lines:
  assumes "plainOptions v"
  shows "\<forall>l \<in> set (Export isPub v). LF \<notin> set l"
proof -
  have h: "\<forall>l \<in> set (exportSection title msg body). LF \<notin> set l" if "plainBody body" "LF \<notin> set title" "LF \<notin> set msg" for title msg body
    using that by (auto simp: exportSection_def exportHead_def padRight_def plainBody_def plainLine_def list_all_iff)
  have "plainBody (flagBody True)" "plainBody (flagBody False)" by code_simp+
  then have y: "plainBody (flagBody b)" for b by (cases b) simp_all
  show ?thesis using assms y unfolding Export_def plainOptions_def by (auto dest!: h [rule_format, rotated 3])
qed

text \<open>
  Property C11. A script that is saved as it was offered sets the options it shows: reading what Export
  wrote, with comments and empty lines around it, gives every option that was not empty the value it
  had and leaves the others alone. Title and description of a published review are not in the script.
  The lines of the texts must not be comments nor end in blanks.
\<close>

theorem LoadFromText_Export:
  assumes "plainOptions v" and "list_all quietLine pre" and "list_all quietLine post"
  shows "LoadFromText o' (StrJoin (pre @ Export isPub v @ post) [LF]) = edited isPub o' v"
proof -
  have "LF \<notin> set l" if "l \<in> set (pre @ Export isPub v @ post)" for l
    using that assms(2,3) Export_lines [OF assms(1), of isPub] by (auto simp: list_all_iff quietLine_def)
  moreover have "pre @ Export isPub v @ post \<noteq> []" by (simp add: Export_def exportSection_def)
  ultimately have s: "StrSplit (StrJoin (pre @ Export isPub v @ post) [LF]) LF = pre @ Export isPub v @ post"
    by (intro StrSplit_StrJoin) auto
  obtain k where "foldl loadLine ([], [], o') pre = ([], replicate k LF, o')"
    using loadLines_quiet [OF assms(2), of "[]" "[]" o'] by auto
  then show ?thesis using loadExport_all [OF assms(1,3), of "replicate k LF" o' isPub] s
    by (simp add: LoadFromText_def)
qed

lemma edited_same: "edited isPub v v = v"
  by (cases v) (simp add: edited_def)

definition sample_options :: upload_options where
  "sample_options = upload_options0\<lparr>u_Title := ''t'', u_Description := ''a'' @ [LF] @ ''b'', u_Reviewers := [''x'', ''y''], u_Draft := True\<rparr>"

theorem LoadFromText_Export_witness:
  "LoadFromText upload_options0 (StrJoin ([''# Step 1''] @ Export False sample_options @ [[], ''###'', []]) [LF]) = sample_options"
proof -
  have "plainOptions sample_options" "list_all quietLine [''# Step 1'']" "list_all quietLine [[], ''###'', []]" by code_simp+
  note LoadFromText_Export [OF this, of upload_options0 False]
  also have "edited False upload_options0 sample_options = sample_options" by (simp add: edited_def upload_options0_def sample_options_def)
  finally show ?thesis .
qed

text \<open>A line of a description that begins with a number sign is lost.\<close>

lemma LoadFromText_comment:
  "u_Description (LoadFromText upload_options0 (StrJoin (Export False (upload_options0\<lparr>u_Description := ''a'' @ [LF] @ ''#1''\<rparr>)) [LF])) = ''a''"
  by code_simp

end
