(* ===== verification/Editor_Pkg.thy ===== *)
theory Editor_Pkg
  imports Machine Go_Regexp
begin

text \<open>
  The editor of the user (editor/editor.go): which program it is, its command line, and editing a
  text through a temporary file.
\<close>

text \<open>The setting core.editor of git, the search for programs, the parser of command lines of package
  shellwords, and whether a terminal is attached. \<open>ed_Tmp\<close> is the name the temporary file gets.\<close>

record editor_env =
  ed_CoreEditor :: string
  ed_LookPath :: "string \<Rightarrow> string option"
  ed_ShellParse :: "string \<Rightarrow> string list option"
  ed_Isatty :: bool
  ed_Tmp :: string

text \<open>\<open>editorCmd\<close> is the program found before, empty if none was.\<close>

definition Editor :: "editor_env \<Rightarrow> host \<Rightarrow> string \<Rightarrow> string result" where
  "Editor ed h editorCmd =
     (if editorCmd \<noteq> [] then Inr editorCmd
      else if h_Getenv h ''GIT_EDITOR'' \<noteq> [] then Inr (h_Getenv h ''GIT_EDITOR'')
      else if ed_CoreEditor ed \<noteq> [] then Inr (ed_CoreEditor ed)
      else if h_Getenv h ''VISUAL'' \<noteq> [] then Inr (h_Getenv h ''VISUAL'')
      else if h_Getenv h ''EDITOR'' \<noteq> [] then Inr (h_Getenv h ''EDITOR'')
      else if h_Getenv h ''TERM'' = ''dumb'' then
        Inl (Fatal ''No editor specified in GIT_EDITOR, core.editor, VISUAL or EDITOR.'')
      else Inr (case List.map_filter (ed_LookPath ed) [''vim'', ''vi'', ''emacs'', ''nano''] of [] \<Rightarrow> [] | p # _ \<Rightarrow> p))"

text \<open>On Windows a program whose path has blanks is found by trying the parts before each blank;
  \<open>pre\<close> is the part before the rest of the text.\<close>

fun splitEditor :: "editor_env \<Rightarrow> host \<Rightarrow> string \<Rightarrow> string \<Rightarrow> string list" where
  "splitEditor ed h pre [] = []"
| "splitEditor ed h pre (c # cs) =
     (if (c = CHR '' '' \<or> c = CHR 0x09) \<and> Exist h pre then
        pre # (case ed_ShellParse ed cs of None \<Rightarrow> [cs] | Some args \<Rightarrow> args)
      else splitEditor ed h (pre @ [c]) cs)"

definition needsShell :: regexp where
  "needsShell = RSeq (RStar True any_char) (RSeq (RCls (\<lambda>c. c \<in> set [CHR ''$'', CHR '' '', CHR 0x09, CHR 0x27])) (RStar True any_char))"

definition editorCommands :: "editor_env \<Rightarrow> host \<Rightarrow> string \<Rightarrow> string list \<Rightarrow> string list" where
  "editorCommands ed h editor args =
     (if h_GOOS h = ''windows'' then
        (if editor \<noteq> [] \<and> hd editor \<in> set [CHR 0x22, CHR 0x27] then
           (case ed_ShellParse ed editor of None \<Rightarrow> [editor] | Some ws \<Rightarrow> ws)
         else (case splitEditor ed h [] editor of [] \<Rightarrow> [editor] | ws \<Rightarrow> ws))
      else if MatchString needsShell editor then [''sh'', ''-c'', editor @ '' '' @ dq ''$@'', ''sh'']
      else [editor]) @ args"

text \<open>An error of the editor is reported only; the file is read in any case. When the process ends the
  file stays.\<close>

definition fatalOp :: "'a op \<Rightarrow> 'a op" where
  "fatalOp m = bnd (attempt m) (\<lambda>r. case r of Inl e \<Rightarrow> fail (Fatal e) | Inr x \<Rightarrow> ret x)"

definition EditString :: "editor_env \<Rightarrow> string \<Rightarrow> string \<Rightarrow> string op" where
  "EditString ed editorCmd data =
     bnd (lookR (\<lambda>mc. Editor ed (mc_host mc) editorCmd)) (\<lambda>editor.
       if editor = '':'' \<or> editor = [] \<or> \<not> ed_Isatty ed then ret data
       else andThen (fatalOp (perform (WriteFile (ed_Tmp ed) data)))
         (bnd (look (\<lambda>mc. editorCommands ed (mc_host mc) editor [ed_Tmp ed])) (\<lambda>cmdArgs.
         andThen (ignore (perform (Run [] cmdArgs)))
           (bnd (fatalOp (lookR (\<lambda>mc. h_ReadFile (mc_host mc) (ed_Tmp ed)))) (\<lambda>buf.
            andThen (ignore (perform (Remove (ed_Tmp ed)))) (ret buf))))))"

text \<open>Away from Windows the editor is run as one word or by the shell, with the file as its last argument.\<close>

lemma editorCommands_unix:
  assumes "h_GOOS h \<noteq> ''windows''"
  shows "editorCommands ed h editor [f] =
    (if MatchString needsShell editor then [''sh'', ''-c'', editor @ '' '' @ dq ''$@'', ''sh'', f] else [editor, f])"
  using assms by (simp add: editorCommands_def)

text \<open>Without a terminal the text is returned as it is and nothing is done.\<close>

lemma EditString_unchanged:
  "Editor ed (mc_host (w tr)) e0 = Inr ed' \<Longrightarrow> ed' = '':'' \<or> ed' = [] \<or> \<not> ed_Isatty ed \<Longrightarrow> EditString ed e0 data w tr = (tr, Inr data)"
  by (simp add: EditString_def op_simps ret_def)

end
