(* ===== verification/Upload_Command.thy ===== *)
theory Upload_Command
  imports Upload_Options Editor_Pkg
begin

text \<open>
  The command upload (cmd/upload.go): finding the branches to upload, the selection by questions or
  in an editor, and the upload of what was selected. Messages are not part of the model; the report
  of failed uploads is the text with which the process ends.
\<close>

section \<open>Branches\<close>

text \<open>A reviewable branch with its project.\<close>

record task =
  t_Project :: WorkProject
  t_Branch :: ReviewableBranch

abbreviation tName :: "task \<Rightarrow> string" where "tName t \<equiv> br_Name (rb_Branch (t_Branch t))"

record upload_cmd =
  uc_env :: cmd_env
  uc_penv :: penv
  uc_settings :: "string option"
  uc_ue :: upload_env
  uc_editor :: editor_env
  uc_AdminDir :: string

definition getDestBranch :: "upload_options \<Rightarrow> task \<Rightarrow> string" where
  "getDestBranch o' t =
     (if u_DestBranch o' \<noteq> [] then u_DestBranch o'
      else if DestBranch (mproject (t_Project t)) \<noteq> [] then DestBranch (mproject (t_Project t))
      else Revision (mproject (t_Project t)))"

definition t_Commits :: "machine \<Rightarrow> task \<Rightarrow> string list" where
  "t_Commits mc t = rb_Commits mc (t_Project t) (t_Branch t)"

definition reviewOf :: "PRemote \<Rightarrow> string" where "reviewOf r = rm_Review (pr_Remote r)"

definition autouploadKey :: "PRemote \<Rightarrow> string" where
  "autouploadKey r = ''review.'' @ reviewOf r @ ''.autoupload''"

definition HasCfg :: "upload_cmd \<Rightarrow> task \<Rightarrow> string \<Rightarrow> bool" where
  "HasCfg uc t key = ConfigWithDefault_HasKey (uc_penv uc) (uc_settings uc) (t_Project t) key"

definition BoolCfg :: "upload_cmd \<Rightarrow> task \<Rightarrow> string \<Rightarrow> bool" where
  "BoolCfg uc t key = ConfigWithDefault_GetBool (uc_penv uc) (uc_settings uc) (t_Project t) key False"

section \<open>Uploading what was selected\<close>

definition origPeople :: "upload_options \<Rightarrow> string list list" where
  "origPeople o' =
     (let split = (\<lambda>rs. if rs = [] then [] else filter (\<lambda>x. x \<noteq> []) (map TrimSpace (StrSplit (StrJoin rs '','') CHR '','')))
      in [split (u_Reviewers o'), split (u_Cc o')])"

text \<open>The outcome of a branch: whether it was uploaded, its error, and whether its upload failed.\<close>

record report =
  r_Task :: task
  r_Uploaded :: bool
  r_Error :: "string option"
  r_Failed :: bool

definition askDirty :: "upload_cmd \<Rightarrow> task \<Rightarrow> PRemote \<Rightarrow> bool op" where
  "askDirty uc t r =
     bnd (look (\<lambda>mc. Project_IsClean mc (t_Project t))) (\<lambda>clean.
       if clean \<or> HasCfg uc t (autouploadKey r) then ret True
       else bnd (userInput (uc_env uc) ''Continue uploading? (y/N) '' ''N'') (\<lambda>input. ret (answerIsTrue input)))"

definition fullHead :: "string \<Rightarrow> string" where
  "fullHead b = (if HasPrefix b RefsHeads then b else RefsHeads @ b)"

text \<open>The old commit and the destination, \<open>None\<close> when the branch is skipped since it is to be merged elsewhere.\<close>

definition uploadTarget :: "upload_options \<Rightarrow> task \<Rightarrow> machine \<Rightarrow> (string \<times> string) option result" where
  "uploadTarget o' t mc =
     (if CodeReview_Empty (u_CodeReview o') then
        let oldOid = published mc (t_Project t) (tName t); destBranch = getDestBranch o' t in
        if destBranch \<noteq> [] \<and> u_DestBranch o' = [] \<and> fullHead (rt_Branch (rb_Track (t_Branch t))) \<noteq> fullHead destBranch then Inr None
        else Inr (Some (oldOid, destBranch))
      else
        (case ResolveRevision mc (t_Project t) (cr_Ref (u_CodeReview o')) of
           Inl (Error e) \<Rightarrow> Inl (Error (''fail to parse ref '' @ sq (cr_Ref (u_CodeReview o')) @ '', not downloaded yet?''))
         | Inl e \<Rightarrow> Inl e
         | Inr oldOid \<Rightarrow> Inr (Some (oldOid, []))))"

definition reviewOptions :: "cmd_env \<Rightarrow> upload_options \<Rightarrow> bool \<Rightarrow> task \<Rightarrow> string list list \<Rightarrow> string \<Rightarrow> string \<Rightarrow> UploadOptions" where
  "reviewOptions env o' topic t pss oldOid destBranch =
     \<lparr>AutoTopic = topic, uo_CodeReview = u_CodeReview o', Description = u_Description o', uo_DestBranch = destBranch,
      Draft = u_Draft o', Issue = u_Issue o', LocalBranch = tName t, MockGitPush = u_MockGitPush o',
      NoCertChecks = (u_NoCertChecks o' \<or> ce_NoCertChecks env), NoEmails = u_NoEmails o', OldOid = oldOid, People = pss,
      Private = u_Private o', PushOptions = u_PushOptions o', UploadOptions.RemoteName = [], UploadOptions.RemoteURL = [],
      Title = u_Title o', WIP = u_WIP o'\<rparr>"

text \<open>One branch. \<open>topic\<close> is the option AutoTopic, which the setting of a server turns on for the
  branches that follow too.\<close>

definition uploadBranch :: "upload_cmd \<Rightarrow> upload_options \<Rightarrow> bool \<Rightarrow> task \<Rightarrow> (bool \<times> report) op" where
  "uploadBranch uc o' topic t =
     (case rb_Remote (t_Branch t) of
        None \<Rightarrow> ret (topic, \<lparr>r_Task = t, r_Uploaded = False, r_Error = None, r_Failed = False\<rparr>)
      | Some r \<Rightarrow>
        bnd (lookR (\<lambda>_. AppendReviewers (ConfigWithDefault_Get (uc_penv uc) (uc_settings uc) (t_Project t)) (t_Branch t) (origPeople o'))) (\<lambda>pss.
        bnd (askDirty uc t r) (\<lambda>answer.
          if \<not> answer then ret (topic, \<lparr>r_Task = t, r_Uploaded = False, r_Error = Some ''User aborted'', r_Failed = False\<rparr>)
          else let topic' = (topic \<or> BoolCfg uc t (''review.'' @ reviewOf r @ ''.uploadtopic'')) in
            bnd (lookR (uploadTarget o' t)) (\<lambda>target. case target of
              None \<Rightarrow> ret (topic', \<lparr>r_Task = t, r_Uploaded = False, r_Error = None, r_Failed = False\<rparr>)
            | Some (oldOid, destBranch) \<Rightarrow>
                bnd (attempt (UploadForReview (uc_ue uc) (t_Project t) (t_Branch t)
                       (reviewOptions (uc_env uc) o' topic' t pss oldOid destBranch))) (\<lambda>res.
                  ret (topic', case res of Inl e \<Rightarrow> \<lparr>r_Task = t, r_Uploaded = False, r_Error = Some e, r_Failed = True\<rparr>
                        | Inr _ \<Rightarrow> \<lparr>r_Task = t, r_Uploaded = True, r_Error = None, r_Failed = False\<rparr>))))))"

fun uploadBranches :: "upload_cmd \<Rightarrow> upload_options \<Rightarrow> bool \<Rightarrow> task list \<Rightarrow> report list op" where
  "uploadBranches uc o' topic [] = ret []"
| "uploadBranches uc o' topic (t # ts) =
     bnd (uploadBranch uc o' topic t) (\<lambda>(topic', r). bnd (uploadBranches uc o' topic' ts) (\<lambda>rs. ret (r # rs)))"

definition failedLine :: "report \<Rightarrow> string" where
  "failedLine r =
     (case r_Error r of None \<Rightarrow> []
      | Some e \<Rightarrow> if r_Uploaded r then []
          else ''[FAILED] '' @ padRight 15 (pPath (t_Project (r_Task r)) @ ''/'') @ '' '' @ padRight 15 (tName (r_Task r)) @
               (if length e \<le> 30 then '' (('' @ e @ '')'' else [LF] @ ''       (('' @ e @ '')'') @ [LF])"

definition UploadAndReport :: "upload_cmd \<Rightarrow> upload_options \<Rightarrow> task list \<Rightarrow> report list op" where
  "UploadAndReport uc o' ts =
     bnd (uploadBranches uc o' (u_AutoTopic o') ts) (\<lambda>rs.
       if \<exists>r \<in> set rs. r_Failed r then fail (Fatal (concat (map failedLine rs))) else ret rs)"

section \<open>Selection by questions\<close>

definition byProjectBranch :: "task \<Rightarrow> task \<Rightarrow> bool" where
  "byProjectBranch a b =
     (if pName (t_Project a) = pName (t_Project b) then tName a < tName b else pName (t_Project a) < pName (t_Project b))"

text \<open>The second question, about many commits, comes when the branch has been chosen already.\<close>

definition confirmMany :: "upload_cmd \<Rightarrow> string list \<Rightarrow> unit op" where
  "confirmMany uc commitList =
     doIf (length commitList > unusualCommitThreshold)
       (ignore (userInput (uc_env uc) ''If you are sure you intend to do this, type 'yes': '' ''N''))"

text \<open>Whether a branch is put on the list of those to upload.\<close>

definition confirmBranch :: "upload_cmd \<Rightarrow> task \<Rightarrow> bool op" where
  "confirmBranch uc t =
     (case rb_Remote (t_Branch t) of
        None \<Rightarrow> ret False
      | Some r \<Rightarrow>
        bnd (look (\<lambda>mc. t_Commits mc t)) (\<lambda>commitList.
          if HasCfg uc t (autouploadKey r) then
            (if \<not> BoolCfg uc t (autouploadKey r) then ret False
             else andThen (confirmMany uc commitList) (ret False))
          else
            bnd (userInput (uc_env uc) (''to '' @ reviewOf r @ '' (y/N)? '') ''N'') (\<lambda>input.
              if answerIsTrue input then andThen (confirmMany uc commitList) (ret True) else ret False)))"

fun filterOp :: "('a \<Rightarrow> bool op) \<Rightarrow> 'a list \<Rightarrow> 'a list op" where
  "filterOp f [] = ret []"
| "filterOp f (x # xs) = bnd (f x) (\<lambda>b. bnd (filterOp f xs) (\<lambda>ys. ret (if b then x # ys else ys)))"

definition UploadForReviewWithConfirm :: "upload_cmd \<Rightarrow> upload_options \<Rightarrow> (string \<times> task list) list \<Rightarrow> report list op" where
  "UploadForReviewWithConfirm uc o' branchesMap =
     bnd (filterOp (confirmBranch uc) (sortBy byProjectBranch (concat (map snd branchesMap)))) (\<lambda>todo.
       if todo \<noteq> [] then UploadAndReport uc o' todo else fail (Error ''nothing confirmed for upload''))"

section \<open>Selection in an editor\<close>

definition markbranchSelection :: string where
  "markbranchSelection = ''# Step 2: Select project and branches for upload''"

definition ruler :: string where "ruler = replicate 78 CHR ''#''"

definition branchComment :: "cmd_env \<Rightarrow> (string \<times> task list) list \<Rightarrow> string" where
  "branchComment env branchesMap =
     (if ce_AssumeYes env then '' ''
      else if ce_AssumeNo env then ''#''
      else if length branchesMap = 1 \<and> length (snd (hd branchesMap)) = 1 then '' ''
      else ''#'')"

definition branchLine :: "upload_options \<Rightarrow> string \<Rightarrow> nat \<Rightarrow> task \<Rightarrow> string" where
  "branchLine o' comment n t =
     comment @ ''  branch '' @ tName t @ '' ('' @ pad2 n @ '' commit(s)) '' @
     (if CodeReview_Empty (rb_CodeReview (t_Branch t)) then ''to remote branch '' @ getDestBranch o' t
      else ''to update code review #'' @ cr_ID (rb_CodeReview (t_Branch t))) @ '':''"

definition commitLines :: "string list \<Rightarrow> string list" where
  "commitLines cs = map (\<lambda>c. ''#         '' @ c) (take 10 cs) @ (if length cs > 10 then [''#         ... ...''] else [])"

text \<open>The lines of the branches of a project; \<open>comment\<close> says how the line of a branch begins.\<close>

fun branchesScript :: "machine \<Rightarrow> upload_options \<Rightarrow> (task \<Rightarrow> string) \<Rightarrow> bool \<Rightarrow> task list \<Rightarrow> string list" where
  "branchesScript mc o' comment later [] = []"
| "branchesScript mc o' comment later (t # ts) =
     (if later then [''#''] else []) @
     branchLine o' (comment t) (length (t_Commits mc t)) t # commitLines (t_Commits mc t) @
     branchesScript mc o' comment True ts"

definition projectScript :: "machine \<Rightarrow> upload_options \<Rightarrow> (task \<Rightarrow> string) \<Rightarrow> task list \<Rightarrow> string list" where
  "projectScript mc o' comment ts =
     [''#'', ''# project '' @ pPath (t_Project (hd ts)) @ ''/:''] @ branchesScript mc o' comment False ts"

definition selectionScript :: "machine \<Rightarrow> upload_options \<Rightarrow> (task \<Rightarrow> string) \<Rightarrow> task list list \<Rightarrow> string list" where
  "selectionScript mc o' comment tss =
     [[], ruler, markbranchSelection, ''#'', ''# Note: Uncomment the branches to upload, and not touch the project lines'', ruler, []] @
     concat (map (projectScript mc o' comment) tss) @ [[]]"

text \<open>The two indexes of the script: projects by path, branches by the name of the project.\<close>

definition projectsIdx :: "task list list \<Rightarrow> (string \<rightharpoonup> WorkProject)" where
  "projectsIdx tss = map_of (rev (map (\<lambda>ts. (pPath (t_Project (hd ts)), t_Project (hd ts))) tss))"

definition branchesIdx :: "task list list \<Rightarrow> (string \<rightharpoonup> (string \<rightharpoonup> task))" where
  "branchesIdx tss = map_of (rev (map (\<lambda>ts. (pName (t_Project (hd ts)), map_of (rev (map (\<lambda>t. (tName t, t)) ts)))) tss))"

definition projectPattern :: regexp where
  "projectPattern = RSeq (ROpt (RLit ''#'')) (RSeq (RStar True re_space) (RSeq (RLit ''project'') (RSeq (RStar True re_space)
     (RSeq (RGrp ''1'' (RPlus True (\<lambda>c. \<not> re_space c))) (RLit ''/:'')))))"

definition branchPattern :: regexp where
  "branchPattern = RSeq (RStar True re_space) (RSeq (RLit ''branch'') (RSeq (RStar True re_space)
     (RSeq (RGrp ''1'' (RPlus True (\<lambda>c. \<not> re_space c \<and> c \<noteq> CHR ''('')))
       (RSeq (RStar True re_space) (RSeq (RLit ''('') (RStar True any_char))))))"

text \<open>The selection is read line by line; \<open>p\<close> is the project of the last project line.\<close>

fun parseSelection :: "task list list \<Rightarrow> WorkProject option \<Rightarrow> string list \<Rightarrow> task list result" where
  "parseSelection tss p [] = Inr []"
| "parseSelection tss p (line # ls) =
     (case FindSubmatch projectPattern line of
        Some m \<Rightarrow>
          (case projectsIdx tss (capture m ''1'') of
             None \<Rightarrow> Inl (Fatal (''project '' @ capture m ''1'' @ '' not available for upload''))
           | Some q \<Rightarrow> parseSelection tss (Some q) ls)
      | None \<Rightarrow>
          (case FindSubmatch branchPattern line of
             None \<Rightarrow> parseSelection tss p ls
           | Some m \<Rightarrow>
               let name = capture m ''1'' in
               (case p of
                  None \<Rightarrow> Inl (Fatal (''project for branch '' @ name @ '' not in script''))
                | Some q \<Rightarrow>
                    (case (case branchesIdx tss (pName q) of None \<Rightarrow> None | Some b \<Rightarrow> b name) of
                       None \<Rightarrow> Inl (Fatal (''branch '' @ name @ '' not in '' @ pPath q))
                     | Some t \<Rightarrow> bind_result (parseSelection tss p ls) (\<lambda>ts. Inr (t # ts))))))"

definition selectedBranches :: "task list list \<Rightarrow> string list \<Rightarrow> task list result" where
  "selectedBranches tss script = parseSelection tss None (tl (dropWhile (\<lambda>l. l \<noteq> markbranchSelection) script))"

section \<open>The file with the options of the last upload\<close>

definition uploadOptionsFile :: string where "uploadOptionsFile = ''UPLOAD_OPTIONS''"
definition uploadOptionsDir :: string where "uploadOptionsDir = ''UPLOAD_OPTIONS.d''"

definition SafeCreateParentDir :: "string \<Rightarrow> unit op" where
  "SafeCreateParentDir name =
     bnd (look (\<lambda>mc. Exist (mc_host mc) (Dir name))) (\<lambda>there. doIf (\<not> there) (ignore (perform (MkdirAll (Dir name)))))"

text \<open>The walk visits names in order; \<open>skip\<close> are the directories it leaves out.\<close>

fun firstOptionsFile :: "string list \<Rightarrow> string \<Rightarrow> (string \<times> stat_kind) list \<Rightarrow> string" where
  "firstOptionsFile skip f [] = f"
| "firstOptionsFile skip f ((p, k) # es) =
     (if \<exists>d \<in> set skip. HasPrefix p (d @ ''/'') then firstOptionsFile skip f es
      else if k = Directory then firstOptionsFile (if Base p = uploadOptionsDir then skip else p # skip) f es
      else firstOptionsFile (Dir p # skip) p es)"

definition findOptionsFile :: "upload_cmd \<Rightarrow> string \<Rightarrow> string op" where
  "findOptionsFile uc optionsFile =
     bnd (look (\<lambda>mc. Exist (mc_host mc) optionsFile)) (\<lambda>there.
       if there then ret optionsFile
       else
         let f1 = Join [uc_AdminDir uc, uploadOptionsFile] in
         andThen (SafeCreateParentDir f1)
           (look (\<lambda>mc. let h = mc_host mc;
                         f2 = (if Exist h f1 then f1 else firstOptionsFile [] f1 (h_Walk h (Join [uc_AdminDir uc, uploadOptionsDir]))) in
                    if Exist h f2 then f2
                    else case GetConfigDir mc of Inl _ \<Rightarrow> f2 | Inr d \<Rightarrow> Join [d, uploadOptionsFile])))"

text \<open>The options of the file fill those that were not given.\<close>

definition fillOptions :: "upload_options \<Rightarrow> upload_options \<Rightarrow> upload_options" where
  "fillOptions v f = v\<lparr>
     u_Title := (if u_Title v = [] then u_Title f else u_Title v),
     u_Description := (if u_Description v = [] then u_Description f else u_Description v),
     u_Issue := (if u_Issue v = [] then u_Issue f else u_Issue v),
     u_Reviewers := (if u_Reviewers v = [] then u_Reviewers f else u_Reviewers v),
     u_Cc := (if u_Cc v = [] then u_Cc f else u_Cc v),
     u_Draft := (u_Draft v \<or> u_Draft f),
     u_WIP := (u_WIP v \<or> u_WIP f),
     u_Private := (u_Private v \<or> u_Private f)\<rparr>"

definition optionsHead :: "bool \<Rightarrow> string list" where
  "optionsHead isPub =
     [ruler, ''# Step 1: Input your options for code review'', ''#''] @
     (if isPub then
        [''# Note: Input your options below the comments and keep the comments unchanged,'',
         ''#       and options which work only for new created code review are hidden.'']
      else [''# Note: Input your options below the comments and keep the comments unchanged'']) @
     [ruler, []]"

text \<open>The filled options are shown in the script only, the options of the caller stay.\<close>

definition fmtUploadOptionsScript :: "upload_cmd \<Rightarrow> upload_options \<Rightarrow> string \<Rightarrow> bool \<Rightarrow> string list op" where
  "fmtUploadOptionsScript uc o' optionsFile isPub =
     bnd (findOptionsFile uc optionsFile) (\<lambda>f.
     bnd (look (\<lambda>mc. h_ReadFile (mc_host mc) f)) (\<lambda>buf.
       ret (optionsHead isPub @
            Export isPub (case buf of Inl _ \<Rightarrow> o' | Inr data \<Rightarrow> fillOptions o' (LoadFromText upload_options0 data)))))"

definition keepOld :: "upload_options \<Rightarrow> upload_options \<Rightarrow> upload_options" where
  "keepOld old v = v\<lparr>u_Title := (if u_Title old \<noteq> [] then u_Title old else u_Title v),
     u_Description := (if u_Description old \<noteq> [] then u_Description old else u_Description v)\<rparr>"

text \<open>The directory is made by \<^verbatim>\<open>Mkdir\<close>; its parent, the administrative directory, is there.\<close>

definition saveUploadOptions :: "string \<Rightarrow> upload_options \<Rightarrow> unit op" where
  "saveUploadOptions optionsFile v =
     bnd (look (\<lambda>mc. Exist (mc_host mc) optionsFile)) (\<lambda>there.
     bnd (if there then
            look (\<lambda>mc. keepOld (LoadFromFile (\<lambda>f. case h_ReadFile (mc_host mc) f of Inl _ \<Rightarrow> None | Inr d \<Rightarrow> Some d)
                         upload_options0 optionsFile) v)
          else bnd (look (\<lambda>mc. Exist (mc_host mc) (Dir optionsFile))) (\<lambda>dirThere.
                 andThen (doIf (\<not> dirThere) (ignore (perform (MkdirAll (Dir optionsFile))))) (ret v))) (\<lambda>x.
     andThen (perform (WriteFile (optionsFile @ ''.lock'') (StrJoin (Export False x) [LF])))
       (perform (Rename (optionsFile @ ''.lock'') optionsFile))))"

section \<open>Upload with the editor\<close>

definition optionsFileName :: "upload_cmd \<Rightarrow> upload_options \<Rightarrow> task list list \<Rightarrow> string" where
  "optionsFileName uc o' tss =
     (let dests = map (getDestBranch o') (filter (\<lambda>t. CodeReview_Empty (rb_CodeReview (t_Branch t))) (concat tss));
          f = (case filter (\<lambda>d. d \<noteq> []) dests of [] \<Rightarrow> [] | d # _ \<Rightarrow> d)
      in Join [uc_AdminDir uc, uploadOptionsDir, StrReplace (TrimPrefix f RefsHeads) CHR ''/'' ''.''])"

definition editedText :: "upload_options \<Rightarrow> string \<Rightarrow> string op" where
  "editedText o' t =
     (if u_MockEditScript o' \<noteq> [] then
        look (\<lambda>mc. case h_ReadFile (mc_host mc) (u_MockEditScript o') of Inl _ \<Rightarrow> t | Inr buf \<Rightarrow> buf)
      else ret t)"

definition beforeMark :: "string \<Rightarrow> string" where
  "beforeMark t = (case CutFirst t markbranchSelection of None \<Rightarrow> t | Some (a, _) \<Rightarrow> a)"

definition UploadForReviewWithEditor :: "upload_cmd \<Rightarrow> upload_options \<Rightarrow> string \<Rightarrow> (string \<times> task list) list \<Rightarrow> report list op" where
  "UploadForReviewWithEditor uc o' editorCmd branchesMap =
     (let tss = map snd (sortBy (\<lambda>a b. fst a < fst b) branchesMap); optionsFile = optionsFileName uc o' tss in
      bnd (look (\<lambda>mc. (selectionScript mc o' (\<lambda>_. branchComment (uc_env uc) branchesMap) tss,
                       list_all (\<lambda>t. IsPublished mc (t_Project t) (t_Branch t)) (concat tss)))) (\<lambda>(selection, isPub).
      andThen (SafeCreateParentDir optionsFile)
        (bnd (fmtUploadOptionsScript uc o' optionsFile isPub) (\<lambda>options.
         bnd (EditString (uc_editor uc) editorCmd (StrJoin (options @ selection) [LF])) (\<lambda>t0.
         bnd (editedText o' t0) (\<lambda>editString.
           let o1 = LoadFromText o' (beforeMark editString) in
           andThen (ignore (saveUploadOptions optionsFile o1))
             (bnd (lookR (\<lambda>_. selectedBranches tss (StrSplit editString LF))) (\<lambda>todo.
                if todo = [] then fail (Fatal ''nothing uncommented for upload'') else UploadAndReport uc o1 todo))))))))"

section \<open>The command\<close>

definition up_error :: "string \<Rightarrow> 'a op" where "up_error s = fail (Error s)"

text \<open>The branch and the remote in single mode.\<close>

definition singleHead :: "machine \<Rightarrow> upload_options \<Rightarrow> WorkProject \<Rightarrow> string result" where
  "singleHead mc o' p =
     (let head = (if u_Branch o' = [] then GetHead mc p else fullHead (u_Branch o')) in
      if \<not> IsHead head then Inl (Error (''upload failed: not in a branch'' @ [LF, LF] @ ''Please run command '' @ dq ''git checkout -b <branch>'' @ '' to create a new branch.''))
      else Inr (TrimPrefix head RefsHeads))"

definition singleRemote :: "machine \<Rightarrow> upload_options \<Rightarrow> RemoteMap \<Rightarrow> WorkProject \<Rightarrow> string \<Rightarrow> (string \<times> PRemote) result" where
  "singleRemote mc o' m p head =
     bind_result
       (if u_Remote o' = [] then
          bind_result (GetBranchRemote mc m p head True) (\<lambda>r.
            case r of None \<Rightarrow> Inl (Error (''no remote for branch '' @ sq head @ '' of project '' @ sq (pName p) @ '' to push''))
            | Some r \<Rightarrow> Inr (rm_Name (pr_Remote r), r))
        else
          (case RemoteMap_Get m (u_Remote o') of
             None \<Rightarrow> Inl (Error (''cannot find remote named '' @ sq (u_Remote o') @ ''for project '' @ sq (pName p)))
           | Some r \<Rightarrow> Inr (u_Remote o', r))) (\<lambda>(name, r).
       if \<not> ProtoHelperReady r
       then Inl (Error (''remote '' @ sq (rm_Name (pr_Remote r)) @ '' for project '' @ sq (pName p) @ '' is not reviewable''))
       else Inr (name, r))"

text \<open>The reference of the code review that is changed.\<close>

definition changeRef :: "ext_env \<Rightarrow> upload_options \<Rightarrow> PRemote \<Rightarrow> upload_options result" where
  "changeRef ext o' r =
     (if cr_ID (u_CodeReview o') = [] then Inr o'
      else case pr_Helper r of
          None \<Rightarrow> Inl nilPointer
        | Some h \<Rightarrow>
          (case GetDownloadRefOptions ext h (cr_ID (u_CodeReview o')) [] of
             Inl (Error e) \<Rightarrow> Inl (Error (''fail to get local ref for code review #'' @ cr_ID (u_CodeReview o') @ '': '' @ e))
           | Inl e \<Rightarrow> Inl e
           | Inr (ref, _) \<Rightarrow> Inr (o'\<lparr>u_CodeReview := (u_CodeReview o')\<lparr>cr_Ref := ref\<rparr>\<rparr>)))"

definition singleProject :: "WorkProject \<Rightarrow> string \<Rightarrow> string \<Rightarrow> string \<Rightarrow> WorkProject" where
  "singleProject p remoteURL remoteName remoteRevision =
     (let name = (case ParseGitURL remoteURL of None \<Rightarrow> pName p
                  | Some u \<Rightarrow> if Repo u = [] then pName p else if GitURL.Proto u = ''file'' then Base (Repo u) else Repo u)
      in p\<lparr>Repository.RemoteURL := remoteURL,
           mproject := (mproject p)\<lparr>Name := name, ProjectAttrs.RemoteName := remoteName, Revision := remoteRevision\<rparr>\<rparr>)"

definition noTracking :: string where
  "noTracking = ''upload failed: cannot find tracking branch'' @ [LF, LF] @
     ''Please run command '' @ dq ''git branch -u <upstream>'' @ '' to track a remote branch. E.g.:'' @ [LF, LF] @
     ''    git branch -u origin/master'' @ [LF, LF] @
     ''Or give the following options when uploading:'' @ [LF, LF] @
     ''    --dest <dest-branch> [--remote <remote>]''"

text \<open>The task of a single repository, with the options and the project as they are afterwards.\<close>

definition singleTask :: "upload_cmd \<Rightarrow> upload_options \<Rightarrow> RemoteMap \<Rightarrow> WorkProject \<Rightarrow> (upload_options \<times> WorkProject \<times> task option) op" where
  "singleTask uc o' m p =
     bnd (lookR (\<lambda>mc. singleHead mc o' p)) (\<lambda>head.
     bnd (lookR (\<lambda>mc. singleRemote mc o' m p head)) (\<lambda>(remoteName, r).
     bnd (lookR (\<lambda>_. changeRef (ue_ext (uc_ue uc)) o' r)) (\<lambda>o1.
     bnd (if u_DestBranch o1 = [] then lookR (\<lambda>mc. TrackBranch mc p head) else ret (u_DestBranch o1)) (\<lambda>remoteRevision.
       if remoteRevision = [] \<and> CodeReview_Empty (u_CodeReview o1) then up_error noTracking
       else bnd (lookR (\<lambda>mc. GitConfigRemoteURL mc p remoteName)) (\<lambda>remoteURL.
         let p1 = singleProject p remoteURL remoteName remoteRevision in
         andThen (doIf (PRemote_GetType r = ProtoTypeGerrit) (ignore (InstallGerritHooks p1)))
           (bnd (lookR (\<lambda>mc. if CodeReview_Empty (u_CodeReview o1) then GetUploadableBranch mc p1 head (Some r) remoteRevision (u_ReRun o1)
                               else Inr (GetUploadableBranchForChange mc p1 head (Some r) (u_CodeReview o1)))) (\<lambda>rb.
            ret (o1, p1, map_option (\<lambda>b. \<lparr>t_Project = p1, t_Branch = b\<rparr>) rb))))))))"

definition manifestTasks :: "machine \<Rightarrow> upload_options \<Rightarrow> (WorkProject \<Rightarrow> RemoteMap) \<Rightarrow> WorkProject \<Rightarrow> task list result" where
  "manifestTasks mc o' tables p =
     bind_result
       (if u_CurrentBranch o' then
          let cbr = GetHead mc p in
          bind_result (GetBranchRemote mc (tables p) p cbr False) (\<lambda>r.
            if cbr \<noteq> [] \<and> r \<noteq> None
            then bind_result (GetUploadableBranch mc p cbr r [] (u_ReRun o')) (\<lambda>rb. Inr (case rb of None \<Rightarrow> [] | Some b \<Rightarrow> [b]))
            else Inr [])
        else GetUploadableBranches mc (tables p) p (u_Branch o') (u_ReRun o')) (\<lambda>rbs.
       Inr (map (\<lambda>b. \<lparr>t_Project = p, t_Branch = b\<rparr>) rbs))"

definition addTasks :: "(string \<times> task list) list \<Rightarrow> WorkProject \<Rightarrow> task list \<Rightarrow> (string \<times> task list) list" where
  "addTasks tasks p ts = (if ts = [] then tasks else AList.update (pPath p) ts tasks)"

fun allTasks :: "upload_options \<Rightarrow> (WorkProject \<Rightarrow> RemoteMap) \<Rightarrow> (string \<times> task list) list \<Rightarrow> WorkProject list \<Rightarrow> (string \<times> task list) list op" where
  "allTasks o' tables tasks [] = ret tasks"
| "allTasks o' tables tasks (p # ps) =
     bnd (lookR (\<lambda>mc. manifestTasks mc o' tables p)) (\<lambda>ts. allTasks o' tables (addTasks tasks p ts) ps)"

text \<open>The options, the first project and the tasks.\<close>

definition uploadTasks :: "upload_cmd \<Rightarrow> upload_options \<Rightarrow> (WorkProject \<Rightarrow> RemoteMap) \<Rightarrow> WorkProject \<Rightarrow> WorkProject list \<Rightarrow>
    (upload_options \<times> WorkProject \<times> (string \<times> task list) list) op" where
  "uploadTasks uc o' tables p ps =
     (if ce_Single (uc_env uc) then
        bnd (singleTask uc o' (tables p) p) (\<lambda>(o1, p1, t). ret (o1, p1, case t of None \<Rightarrow> [] | Some x \<Rightarrow> [(pPath p1, [x])]))
      else bnd (allTasks o' tables [] (p # ps)) (\<lambda>tasks. ret (o', p, tasks)))"

definition upload_Execute :: "upload_cmd \<Rightarrow> WorkSpace result \<Rightarrow> (WorkProject \<Rightarrow> RemoteMap) result \<Rightarrow> upload_options \<Rightarrow> string list \<Rightarrow> unit op" where
  "upload_Execute uc found infos o' args =
     bnd (lookR (\<lambda>_. Cmd_WorkSpace \<lparr>wc_MirrorOK = False, wc_SingleOK = True\<rparr> (uc_env uc) found)) (\<lambda>ws.
     bnd (lookR (\<lambda>_. infos)) (\<lambda>tables.
       if u_Remote o' \<noteq> [] \<and> \<not> ce_Single (uc_env uc) then up_error ''--remote can be only used with --single''
       else bnd (lookR (\<lambda>mc. WorkSpace_GetProjects mc ws args)) (\<lambda>ps. case ps of
         [] \<Rightarrow> ret ()
       | p # ps' \<Rightarrow>
         bnd (uploadTasks uc o' tables p ps') (\<lambda>(o1, p1, tasks).
           if tasks = [] then ret ()
           else bnd (if u_NoEdit o1 then ret [] else lookR (\<lambda>mc. Editor (uc_editor uc) (mc_host mc) [])) (\<lambda>editor.
             andThen (bnd (if u_NoEdit o1 \<or> editor = [] then UploadForReviewWithConfirm uc o1 tasks
                           else UploadForReviewWithEditor uc o1 editor tasks) (\<lambda>_. ret ()))
               (doIf (ce_Single (uc_env uc)) (Project_CleanPublishedCache p1)))))))"

section \<open>Every selected branch was asked for\<close>

lemma filterOp_kept:
  assumes "filterOp f xs w tr = (tr1, Inr ys)" and "y \<in> set ys" and ext: "\<forall>x w tr. prefix tr (fst (f x w tr))"
  shows "\<exists>pre bs post. tr1 = tr @ pre @ bs @ post \<and> f y w (tr @ pre) = (tr @ pre @ bs, Inr True) \<and> y \<in> set xs"
  using assms(1,2)
proof (induction xs arbitrary: tr ys)
  case Nil
  then show ?case by (simp add: ret_def)
next
  case (Cons x xs)
  obtain b tr2 where f: "f x w tr = (tr2, Inr b)" using Cons.prems(1) by (auto simp: bnd_def split: prod.splits sum.splits)
  obtain us where us: "tr2 = tr @ us" using ext f by (metis fst_conv prefixE)
  obtain zs where zs: "filterOp f xs w tr2 = (tr1, Inr zs)" "ys = (if b then x # zs else zs)"
    using Cons.prems(1) f by (auto simp: bnd_def ret_def split: prod.splits sum.splits)
  have ext2: "\<exists>vs. tr1 = tr2 @ vs"
    using zs(1)
  proof (induction xs arbitrary: tr2 zs)
    case (Cons x xs)
    then obtain b tr3 where f: "f x w tr2 = (tr3, Inr b)" by (auto simp: bnd_def split: prod.splits sum.splits)
    then obtain us where "tr3 = tr2 @ us" using ext by (metis fst_conv prefixE)
    moreover obtain ws where "filterOp f xs w tr3 = (tr1, Inr ws)"
      using Cons.prems f by (auto simp: bnd_def ret_def split: prod.splits sum.splits)
    ultimately show ?case using Cons.IH by force
  qed (simp add: ret_def)
  show ?case
  proof (cases "b \<and> y = x")
    case True
    obtain vs where "tr1 = tr2 @ vs" using ext2 by blast
    then show ?thesis using f us True by (intro exI [of _ "[]"] exI [of _ us] exI [of _ vs]) auto
  next
    case False
    then have "y \<in> set zs" using Cons.prems(2) zs(2) by (auto split: if_splits)
    with Cons.IH [OF zs(1)] obtain pre bs post where
      "tr1 = tr2 @ pre @ bs @ post" "f y w (tr2 @ pre) = (tr2 @ pre @ bs, Inr True)" "y \<in> set xs" by blast
    then show ?thesis using us by (intro exI [of _ "us @ pre"] exI [of _ bs] exI [of _ post]) simp
  qed
qed

lemma emits_userInput [emits_intros]: "(\<And>q. P (Ask q)) \<Longrightarrow> emits P (userInput env prompt d)"
  by (auto simp: userInput_def intro!: emits_intros)

lemma emits_confirmBranch: "(\<And>q. P (Ask q)) \<Longrightarrow> emits P (confirmBranch uc t)"
  by (auto simp: confirmBranch_def confirmMany_def intro!: emits_intros split: option.splits)

lemma userInput_at:
  assumes "\<not> ce_AssumeYes env" and "\<not> ce_AssumeNo env"
  shows "userInput env q d w tr =
    (let tr1 = tr @ [Ask q]; t = TrimSpace (mc_Answer (w tr1)) in (tr1, Inr (if t = [] then d else t)))"
  using assms
  by (simp add: userInput_def andThen_def ignore_def attempt_def bnd_def perform_def ret_def look_def Let_def split: option.splits)

lemma answerIsTrue_no: "\<not> answerIsTrue ''no''" "\<not> answerIsTrue ''N''" by code_simp+

lemma TrimSpace_twice: "answerIsTrue (TrimSpace s) = answerIsTrue s"
proof -
  have "dropWhile isSpace (TrimRightIf isSpace (dropWhile isSpace s)) = TrimRightIf isSpace (dropWhile isSpace s)"
  proof (cases "dropWhile isSpace s")
    case (Cons c cs)
    then have c: "\<not> isSpace c" by (metis hd_dropWhile list.distinct(1) list.sel(1))
    then obtain ds where "dropWhile isSpace (rev cs @ [c]) = ds @ [c]"
      by (metis dropWhile_append2 dropWhile_append3 dropWhile_eq_Nil_conv list.set_intros(1) dropWhile.simps(2) dropWhile_append1 empty_iff list.set(1))
    then show ?thesis using Cons c by (simp add: TrimRightIf_def)
  qed (simp add: TrimRightIf_def del: dropWhile_eq_Nil_conv)
  then show ?thesis by (simp add: answerIsTrue_def TrimSpace_def TrimRightIf_def dropWhile_idem)
qed

lemma confirmBranch_True:
  assumes "confirmBranch uc t w tr = (tr1, Inr True)" and "\<not> ce_AssumeYes (uc_env uc)"
  obtains r where "rb_Remote (t_Branch t) = Some r" and "\<not> HasCfg uc t (autouploadKey r)"
    and "let q = Ask (''to '' @ reviewOf r @ '' (y/N)? '') in prefix (tr @ [q]) tr1 \<and> answerIsTrue (mc_Answer (w (tr @ [q])))"
proof -
  obtain r where r: "rb_Remote (t_Branch t) = Some r" using assms(1) by (auto simp: confirmBranch_def ret_def split: option.splits)
  have cfg: "\<not> HasCfg uc t (autouploadKey r)"
    using assms(1) r by (auto simp: confirmBranch_def op_simps ret_def andThen_def bnd_def split: if_splits prod.splits sum.splits)
  let ?q = "''to '' @ reviewOf r @ '' (y/N)? ''"
  have b: "bnd (userInput (uc_env uc) ?q ''N'') (\<lambda>input.
      if answerIsTrue input then andThen (confirmMany uc (t_Commits (w tr) t)) (ret True) else ret False) w tr = (tr1, Inr True)"
    using assms(1) r cfg by (simp add: confirmBranch_def op_simps)
  have no: "\<not> ce_AssumeNo (uc_env uc)"
    using b assms(2) answerIsTrue_no by (auto simp: userInput_def bnd_def ret_def)
  let ?t = "TrimSpace (mc_Answer (w (tr @ [Ask ?q])))"
  have yes: "answerIsTrue (if ?t = [] then ''N'' else ?t)"
    using b by (auto simp: bnd_def userInput_at [OF assms(2) no] Let_def ret_def split: if_splits)
  then have "answerIsTrue (mc_Answer (w (tr @ [Ask ?q])))"
    using answerIsTrue_no TrimSpace_twice by (auto split: if_splits)
  moreover have "prefix (tr @ [Ask ?q]) tr1"
  proof -
    have "andThen (confirmMany uc (t_Commits (w tr) t)) (ret True) w (tr @ [Ask ?q]) = (tr1, Inr True)"
      using b yes by (auto simp: bnd_def userInput_at [OF assms(2) no] Let_def split: if_splits)
    moreover have "emits (\<lambda>_. True) (andThen (confirmMany uc (t_Commits (w tr) t)) (ret True))"
      unfolding confirmMany_def by (intro emits_intros) simp_all
    ultimately show ?thesis using emits_extends by (metis extends_def fst_conv)
  qed
  ultimately show thesis using that [OF r cfg] by (simp add: Let_def)
qed

lemma guarded_UploadForReview:
  "guarded (\<lambda>mc a. is_Run a \<longrightarrow> pushAction ue p rb uo a) (UploadForReview ue p rb uo) w tr"
proof -
  have "emits (\<lambda>a. \<not> is_Run a) (UpdateRef p dry ref base)" for dry ref base
    unfolding UpdateRef_def setReference_def by (intro emits_intros) simp_all
  then have u: "guarded (\<lambda>mc a. is_Run a \<longrightarrow> Q a) (UpdateRef p dry ref base) w tr" for Q dry ref base tr
    by (intro guarded_emits [of "\<lambda>a. \<not> is_Run a"]) auto
  show ?thesis
    unfolding UploadForReview_def
    by (auto intro!: guarded_intros guarded_andThen u simp: pushAction_def Let_def split: prod.splits)
qed

definition pushesOne :: "upload_cmd \<Rightarrow> task list \<Rightarrow> action \<Rightarrow> bool" where
  "pushesOne uc ts a \<longleftrightarrow> (is_Run a \<longrightarrow> (\<exists>t \<in> set ts. \<exists>uo. pushAction (uc_ue uc) (t_Project t) (t_Branch t) uo a))"

lemma guarded_userInput: "(\<And>mc q. P mc (Ask q)) \<Longrightarrow> guarded P (userInput env prompt d) w tr"
  by (rule guarded_emits [of "\<lambda>a. \<exists>q. a = Ask q"]) (auto intro!: emits_userInput)

lemma guarded_uploadBranch: "t \<in> set ts \<Longrightarrow> guarded (\<lambda>mc. pushesOne uc ts) (uploadBranch uc o' topic t) w tr"
proof -
  assume t: "t \<in> set ts"
  have "guarded (\<lambda>mc. pushesOne uc ts) (UploadForReview (uc_ue uc) (t_Project t) (t_Branch t) uo) w tr" for uo tr
    using guarded_UploadForReview [of "uc_ue uc" "t_Project t" "t_Branch t" uo w tr] t
    by (auto simp: guarded_def pushesOne_def)
  moreover have "guarded (\<lambda>mc. pushesOne uc ts) (askDirty uc t r) w tr" for r tr
    unfolding askDirty_def by (auto intro!: guarded_intros guarded_bnd guarded_userInput simp: pushesOne_def)
  ultimately show ?thesis
    unfolding uploadBranch_def
    by (auto intro!: guarded_intros guarded_bnd simp: Let_def split: option.splits prod.splits)
qed

lemma guarded_uploadBranches: "set us \<subseteq> set ts \<Longrightarrow> guarded (\<lambda>mc. pushesOne uc ts) (uploadBranches uc o' topic us) w tr"
  by (induction us arbitrary: topic tr) (auto intro!: guarded_intros guarded_bnd guarded_uploadBranch)

lemma guarded_UploadAndReport: "guarded (\<lambda>mc. pushesOne uc ts) (UploadAndReport uc o' ts) w tr"
  unfolding UploadAndReport_def by (auto intro!: guarded_bnd guarded_intros guarded_uploadBranches)

lemma emits_filterOp [emits_intros]: "(\<And>x. emits P (f x)) \<Longrightarrow> emits P (filterOp f xs)"
  by (induction xs) (auto intro!: emits_intros)

lemma set_sortBy [simp]: "set (sortBy lt xs) = set xs"
proof -
  have "set (insertBy lt x ys) = insert x (set ys)" for x ys by (induction ys) auto
  then show ?thesis unfolding sortBy_def by (induction xs) auto
qed

text \<open>
  Property C9. Without an editor, a push is made only for a branch the user was asked about and said yes
  to: before the push there is the question with the address of its review server, the answer read then is a yes,
  and the server has no setting autoupload. (With the option to assume yes no question is asked.)
\<close>

theorem UploadForReviewWithConfirm_asks:
  assumes "\<not> ce_AssumeYes (uc_env uc)" and "is_Run a"
    and "a \<in> set (acts (UploadForReviewWithConfirm uc o' m) w tr)"
  shows "\<exists>ts t r uo pre mid post. ts \<in> snd ` set m \<and> t \<in> set ts \<and> rb_Remote (t_Branch t) = Some r \<and>
    pushAction (uc_ue uc) (t_Project t) (t_Branch t) uo a \<and> \<not> HasCfg uc t (autouploadKey r) \<and>
    (let q = Ask (''to '' @ reviewOf r @ '' (y/N)? '') in
     acts (UploadForReviewWithConfirm uc o' m) w tr = pre @ [q] @ mid @ [a] @ post \<and> answerIsTrue (mc_Answer (w (tr @ pre @ [q]))))"
proof -
  let ?sel = "filterOp (confirmBranch uc) (sortBy byProjectBranch (concat (map snd m)))"
  have e: "emits (\<lambda>a. \<exists>q. a = Ask q) ?sel" by (intro emits_intros emits_confirmBranch) auto
  have noRun: "\<not> is_Run b" if "b \<in> set (acts ?sel w tr)" for b
    using emits_acts [OF e, of w tr] that by (fastforce simp: list_all_iff)
  obtain todo where todo: "?sel w tr = (tr @ acts ?sel w tr, Inr todo)" "todo \<noteq> []"
  proof (cases "snd (?sel w tr)")
    case (Inl x)
    then have "acts (UploadForReviewWithConfirm uc o' m) w tr = acts ?sel w tr"
      by (auto simp: UploadForReviewWithConfirm_def acts_def bnd_def split: prod.splits)
    then show thesis using noRun assms(2,3) by auto
  next
    case (Inr todo)
    then have sel: "?sel w tr = (tr @ acts ?sel w tr, Inr todo)" using emits_at [OF e, of w tr] by (metis prod.collapse)
    moreover have "todo \<noteq> []"
    proof
      assume "todo = []"
      then have "acts (UploadForReviewWithConfirm uc o' m) w tr = acts ?sel w tr"
        by (simp add: UploadForReviewWithConfirm_def acts_def [of "bnd _ _"] bnd_Inr [of ?sel w tr, OF sel] fail_def)
      then show False using noRun assms(2,3) by auto
    qed
    ultimately show thesis using that by blast
  qed
  let ?A = "acts ?sel w tr" and ?B = "acts (UploadAndReport uc o' todo) w (tr @ acts ?sel w tr)"
  have g: "guarded (\<lambda>mc. pushesOne uc todo) (UploadAndReport uc o' todo) w (tr @ ?A)" by (rule guarded_UploadAndReport)
  then have "fst (UploadAndReport uc o' todo w (tr @ ?A)) = (tr @ ?A) @ ?B" by (auto simp: guarded_def acts_def)
  then have all: "acts (UploadForReviewWithConfirm uc o' m) w tr = ?A @ ?B"
    using todo(2) by (simp add: UploadForReviewWithConfirm_def acts_def [of "bnd _ _"] bnd_Inr [of ?sel w tr, OF todo(1)])
  then have aB: "a \<in> set ?B" using assms(2,3) noRun by auto
  have "pushesOne uc todo a" using guardedE [OF g aB] by blast
  then obtain t uo where t: "t \<in> set todo" "pushAction (uc_ue uc) (t_Project t) (t_Branch t) uo a"
    using assms(2) by (auto simp: pushesOne_def)
  have ext: "\<forall>x w tr. prefix tr (fst (confirmBranch uc x w tr))"
    using emits_extends [OF emits_confirmBranch [of "\<lambda>_. True"]] by (auto simp: extends_def)
  obtain pre bs post where f: "tr @ ?A = tr @ pre @ bs @ post" "confirmBranch uc t w (tr @ pre) = (tr @ pre @ bs, Inr True)"
    "t \<in> set (sortBy byProjectBranch (concat (map snd m)))" using filterOp_kept [OF todo(1) t(1) ext] by blast
  obtain r where r: "rb_Remote (t_Branch t) = Some r" "\<not> HasCfg uc t (autouploadKey r)"
    "let q = Ask (''to '' @ reviewOf r @ '' (y/N)? '') in prefix ((tr @ pre) @ [q]) (tr @ pre @ bs) \<and> answerIsTrue (mc_Answer (w ((tr @ pre) @ [q])))"
    using confirmBranch_True [OF f(2) assms(1)] by blast
  obtain cs where "bs = Ask (''to '' @ reviewOf r @ '' (y/N)? '') # cs" using r(3) by (auto simp: Let_def prefix_def)
  moreover obtain b1 b2 where "?B = b1 @ a # b2" using aB by (auto simp: in_set_conv_decomp)
  moreover obtain ts where "ts \<in> snd ` set m" "t \<in> set ts" using f(3) by auto
  ultimately show ?thesis using t r f(1) all
    by (intro exI [of _ ts] exI [of _ t] exI [of _ r] exI [of _ uo] exI [of _ pre] exI [of _ "cs @ post @ b1"] exI [of _ b2])
      (simp add: Let_def)
qed

definition sample_cmd_env :: cmd_env where
  "sample_cmd_env = \<lparr>ce_AssumeYes = False, ce_AssumeNo = False, ce_Single = False, ce_Quiet = False, ce_NoCertChecks = False\<rparr>"

definition sample_editor :: editor_env where
  "sample_editor = \<lparr>ed_CoreEditor = [], ed_LookPath = (\<lambda>_. None), ed_ShellParse = (\<lambda>_. None), ed_Isatty = False, ed_Tmp = ''/t''\<rparr>"

definition sample_upload_cmd :: upload_cmd where
  "sample_upload_cmd = \<lparr>uc_env = sample_cmd_env, uc_penv = sample_penv,
     uc_settings = None, uc_ue = sample_upload_env, uc_editor = sample_editor, uc_AdminDir = ''/w/.repo''\<rparr>"

definition sample_task :: task where
  "sample_task = \<lparr>t_Project = sample_work, t_Branch = sample_review\<rparr>"

definition sample_yes :: machine where "sample_yes = sample_machine\<lparr>mc_Answer := '' yes'' @ [LF]\<rparr>"

theorem UploadForReviewWithConfirm_asks_witness:
  "let A = acts (UploadForReviewWithConfirm sample_upload_cmd upload_options0 [(''w'', [sample_task])]) (\<lambda>_. sample_yes) [] in
   (\<exists>a \<in> set A. is_Run a) \<and> (\<exists>r pre post. rb_Remote sample_review = Some r \<and> A = pre @ [Ask (''to '' @ reviewOf r @ '' (y/N)? '')] @ post)"
proof -
  let ?A = "acts (UploadForReviewWithConfirm sample_upload_cmd upload_options0 [(''w'', [sample_task])]) (\<lambda>_. sample_yes) []"
  have "list_ex is_Run ?A" by code_simp
  then obtain a where a: "a \<in> set ?A" "is_Run a" by (auto simp: list_ex_iff)
  have no: "\<not> ce_AssumeYes (uc_env sample_upload_cmd)" by code_simp
  from UploadForReviewWithConfirm_asks [OF no a(2,1)] a show ?thesis
    by (fastforce simp: Let_def sample_task_def)
qed

text \<open>A yes to the first question decides, whatever the answer to the question about many commits; a
  branch whose server has the setting autoupload is never selected, not even when it is on.\<close>

lemma confirmMany_at: "\<exists>tr1. confirmMany uc cs w tr = (tr1, Inr ())"
  by (simp add: confirmMany_def doIf_def ignore_def userInput_def andThen_def attempt_def bnd_def perform_def ret_def look_def
        split: option.splits)

lemma confirmBranch_yes:
  assumes "rb_Remote (t_Branch t) = Some r" and "\<not> HasCfg uc t (autouploadKey r)"
    and "\<not> ce_AssumeYes (uc_env uc)" "\<not> ce_AssumeNo (uc_env uc)"
    and "answerIsTrue (mc_Answer (w (tr @ [Ask (''to '' @ reviewOf r @ '' (y/N)? '')])))"
  shows "outcome (confirmBranch uc t) w tr = Inr True"
proof -
  let ?q = "''to '' @ reviewOf r @ '' (y/N)? ''"
  let ?t = "TrimSpace (mc_Answer (w (tr @ [Ask ?q])))"
  have "?t \<noteq> []" "answerIsTrue ?t" using assms(5) TrimSpace_twice by (auto simp: answerIsTrue_def ToLower_def)
  then have u: "userInput (uc_env uc) ?q ''N'' w tr = (tr @ [Ask ?q], Inr ?t)"
    by (simp add: userInput_at [OF assms(3,4)] Let_def)
  obtain tr1 where "confirmMany uc (t_Commits (w tr) t) w (tr @ [Ask ?q]) = (tr1, Inr ())" using confirmMany_at by blast
  then have "andThen (confirmMany uc (t_Commits (w tr) t)) (ret True) w (tr @ [Ask ?q]) = (tr1, Inr True)"
    by (simp add: andThen_def bnd_def ret_def)
  with \<open>answerIsTrue ?t\<close> have "bnd (userInput (uc_env uc) ?q ''N'') (\<lambda>input.
      if answerIsTrue input then andThen (confirmMany uc (t_Commits (w tr) t)) (ret True) else ret False) w tr = (tr1, Inr True)"
    by (subst bnd_Inr [of "userInput (uc_env uc) ?q ''N''" w tr, OF u]) (simp only: if_True)
  then show ?thesis by (simp add: outcome_def confirmBranch_def op_simps assms(1,2))
qed

lemma confirmBranch_autoupload:
  assumes "rb_Remote (t_Branch t) = Some r" and "HasCfg uc t (autouploadKey r)"
  shows "outcome (confirmBranch uc t) w tr = Inr False"
proof -
  obtain tr1 where "confirmMany uc (t_Commits (w tr) t) w tr = (tr1, Inr ())" using confirmMany_at by blast
  then have "andThen (confirmMany uc (t_Commits (w tr) t)) (ret False) w tr = (tr1, Inr False)"
    by (simp add: andThen_def bnd_def ret_def)
  then show ?thesis using assms by (simp add: outcome_def confirmBranch_def bnd_look ret_def)
qed

section \<open>The script selects what is uncommented\<close>

lemma greedy_star_unique:
  assumes "s = u @ v" and "list_all P u" and "k v = Some x"
    and "\<forall>u' v'. s = u' @ v' \<longrightarrow> list_all P u' \<longrightarrow> k v' \<noteq> None \<longrightarrow> v' = v"
  shows "class_star g P s k = Some x"
proof -
  have "class_star g P s k \<noteq> None"
  proof
    assume "class_star g P s k = None"
    from this [unfolded class_star_None, rule_format, OF assms(1,2)] assms(3) show False by simp
  qed
  then obtain y where y: "class_star g P s k = Some y" by (cases "class_star g P s k") simp_all
  obtain u' v' where v: "s = u' @ v'" "list_all P u'" "k v' = Some y" using class_star_Some [OF y] by (elim exE conjE)
  have "v' = v" using assms(4) [rule_format, OF v(1,2)] v(3) by simp
  with assms(3) y v(3) show ?thesis by simp
qed

text \<open>Names without blanks, in a branch also without a parenthesis; the ids of commits are hexadecimal.\<close>

definition pathWord :: "string \<Rightarrow> bool" where "pathWord s \<longleftrightarrow> s \<noteq> [] \<and> list_all (\<lambda>c. \<not> re_space c) s"

definition branchWord :: "string \<Rightarrow> bool" where
  "branchWord s \<longleftrightarrow> s \<noteq> [] \<and> list_all (\<lambda>c. \<not> re_space c \<and> c \<noteq> CHR ''('') s"

abbreviation atEnd :: "string \<Rightarrow> captures \<Rightarrow> captures option" where
  "atEnd \<equiv> \<lambda>s' c. if s' = [] then Some c else None"

lemma rmatch_spaces:
  assumes "list_all re_space sp" and "v = [] \<or> \<not> re_space (hd v)" and "rmatch r v c k = Some x"
  shows "rmatch (RSeq (RStar True re_space) r) (sp @ v) c k = Some x"
  using greedy_star_max [OF assms(1,2), of "\<lambda>s'. rmatch r s' c k" x] assms(3) by (simp add: class_star_def)

lemma rmatch_lit: "rmatch r v c k = Some x \<Longrightarrow> rmatch (RSeq (RLit l) r) (l @ v) c k = Some x"
  by simp

lemma project_line:
  assumes "pathWord path"
  shows "FindSubmatch projectPattern (''# project '' @ path @ ''/:'') = Some [(''1'', path)]"
proof -
  obtain c cs where c: "path = c # cs" "\<not> re_space c" "list_all (\<lambda>c. \<not> re_space c) cs"
    using assms by (cases path) (auto simp: pathWord_def)
  let ?k = "\<lambda>s'. rmatch (RLit ''/:'') s' [(''1'', take (length (path @ ''/:'') - length s') (path @ ''/:''))] atEnd"
  have slash: "\<not> re_space CHR ''/''" "\<not> re_space CHR '':''" "\<not> re_space CHR ''p''" "re_space CHR '' ''" by code_simp+
  have "class_star True (\<lambda>c. \<not> re_space c) (cs @ ''/:'') ?k = Some [(''1'', path)]"
  proof (rule greedy_star_unique [where u = cs and v = "''/:''"])
    show "\<forall>u' v'. cs @ ''/:'' = u' @ v' \<longrightarrow> list_all (\<lambda>c. \<not> re_space c) u' \<longrightarrow> ?k v' \<noteq> None \<longrightarrow> v' = ''/:''"
      by (auto simp: HasPrefix_iff TrimPrefix_def HasPrefix_def split: if_splits)
  qed (use c in \<open>simp_all add: HasPrefix_def TrimPrefix_def\<close>)
  then have 1: "rmatch (RSeq (RGrp ''1'' (RPlus True (\<lambda>c. \<not> re_space c))) (RLit ''/:'')) (path @ ''/:'') [] atEnd = Some [(''1'', path)]"
    using c by (simp add: class_plus_def)
  have 2: "rmatch (RSeq (RStar True re_space) (RSeq (RLit ''project'') (RSeq (RStar True re_space)
      (RSeq (RGrp ''1'' (RPlus True (\<lambda>c. \<not> re_space c))) (RLit ''/:''))))) ('' '' @ ''project'' @ '' '' @ path @ ''/:'') [] atEnd = Some [(''1'', path)]"
    using c(1,2) slash by (intro rmatch_spaces rmatch_lit 1) auto
  show ?thesis using 2 unfolding FindSubmatch_def projectPattern_def
    by (simp only: rmatch.simps(4) [of "ROpt _"] rmatch.simps(6)) (simp add: HasPrefix_def TrimPrefix_def)
qed

lemma branch_line:
  assumes "branchWord name" and "LF \<notin> set rest" and "list_all re_space sp"
  shows "FindSubmatch branchPattern (sp @ ''branch '' @ name @ '' ('' @ rest) = Some [(''1'', name)]"
proof -
  have sp: "\<not> re_space CHR ''b''" "re_space CHR '' ''" "\<not> re_space CHR ''(''" by code_simp+
  have n: "name \<noteq> []" "list_all (\<lambda>c. \<not> re_space c \<and> c \<noteq> CHR ''('') name" "\<not> re_space (hd name)"
    using assms(1) by (cases name; simp add: branchWord_def)+
  have "greedy_star any_char (rest @ []) (\<lambda>s'. atEnd s' [(''1'', name)]) = Some [(''1'', name)]"
    using assms(2) by (intro greedy_star_max) (auto simp: any_char_def list_all_iff)
  then have "rmatch (RStar True any_char) rest [(''1'', name)] atEnd = Some [(''1'', name)]" by (simp add: class_star_def)
  from rmatch_lit [OF this] have 4: "rmatch (RSeq (RLit ''('') (RStar True any_char)) (''('' @ rest) [(''1'', name)] atEnd = Some [(''1'', name)]"
    by simp
  have 3: "rmatch (RSeq (RStar True re_space) (RSeq (RLit ''('') (RStar True any_char))) ('' '' @ ''('' @ rest) [(''1'', name)] atEnd =
      Some [(''1'', name)]"
    using sp by (intro rmatch_spaces 4) auto
  have 2: "rmatch (RSeq (RGrp ''1'' (RPlus True (\<lambda>c. \<not> re_space c \<and> c \<noteq> CHR ''('')))
      (RSeq (RStar True re_space) (RSeq (RLit ''('') (RStar True any_char)))) (name @ '' '' @ ''('' @ rest) [] atEnd = Some [(''1'', name)]"
    unfolding rmatch.simps(4) [of "RGrp _ _"] rmatch.simps(7) rmatch.simps(3)
    by (rule greedy_plus_max) (use n sp 3 in auto)
  have "rmatch (RSeq (RStar True re_space) (RSeq (RLit ''branch'') (RSeq (RStar True re_space)
      (RSeq (RGrp ''1'' (RPlus True (\<lambda>c. \<not> re_space c \<and> c \<noteq> CHR ''('')))
      (RSeq (RStar True re_space) (RSeq (RLit ''('') (RStar True any_char))))))) (sp @ ''branch'' @ '' '' @ name @ '' '' @ ''('' @ rest) [] atEnd =
      Some [(''1'', name)]"
    using sp n assms(3) by (intro rmatch_spaces rmatch_lit 2) (auto simp: hd_append)
  then show ?thesis by (simp add: FindSubmatch_def branchPattern_def)
qed

lemma rmatch_spaces_None:
  assumes "list_all re_space sp" and "v = [] \<or> \<not> re_space (hd v)" and "\<not> HasPrefix v l" and "l \<noteq> []" "\<not> re_space (hd l)"
  shows "rmatch (RSeq (RStar True re_space) (RSeq (RLit l) r)) (sp @ v) c k = None"
proof -
  have "\<not> HasPrefix v' l" if "sp @ v = u @ v'" "list_all re_space u" for u v'
  proof -
    from that(1) consider us where "sp = u @ us" "v' = us @ v" | us where "u = sp @ us" "v = us @ v'"
      by (auto simp: append_eq_append_conv2)
    then show ?thesis
    proof cases
      case 1
      then show ?thesis using assms by (cases us; cases l) (auto simp: HasPrefix_iff)
    next
      case 2
      then have "us = []" using assms(2) that(2) by (cases us) auto
      then show ?thesis using 2 assms(3) by simp
    qed
  qed
  then show ?thesis by (auto simp: class_star_None)
qed

lemma opt_hash:
  "rmatch (RSeq (ROpt (RLit ''#'')) r) (''#'' @ s) c k = or_else (rmatch r s c k) (rmatch r (''#'' @ s) c k)"
  "\<not> HasPrefix s ''#'' \<Longrightarrow> rmatch (RSeq (ROpt (RLit ''#'')) r) s c k = rmatch r s c k"
  by (simp_all add: HasPrefix_def TrimPrefix_def)

lemma no_project:
  assumes "list_all re_space sp" and "v = [] \<or> \<not> re_space (hd v)" and "\<not> HasPrefix v ''project''"
  shows "FindSubmatch projectPattern (''#'' @ sp @ v) = None"
    and "\<not> HasPrefix (sp @ v) ''#'' \<Longrightarrow> FindSubmatch projectPattern (sp @ v) = None"
proof -
  have p: "''project'' \<noteq> []" "\<not> re_space (hd ''project'')" "\<not> HasPrefix (''#'' @ x) ''project''" "''#'' @ x = [] \<or> \<not> re_space (hd (''#'' @ x))" for x
    by (simp_all add: re_space_def HasPrefix_def)
  note n = rmatch_spaces_None [OF assms p(1,2)]
  have n0: "rmatch (RSeq (RStar True re_space) (RSeq (RLit ''project'') r)) (''#'' @ x) c k = None" for r x c k
  proof -
    have "rmatch (RSeq (RStar True re_space) (RSeq (RLit ''project'') r)) ([] @ ''#'' @ x) c k = None"
      by (rule rmatch_spaces_None [OF _ p(4) p(3) p(1,2)]) simp
    then show ?thesis by (simp only: append_Nil)
  qed
  show "FindSubmatch projectPattern (''#'' @ sp @ v) = None"
    by (simp only: FindSubmatch_def projectPattern_def opt_hash(1) n n0 or_else.simps)
  show "FindSubmatch projectPattern (sp @ v) = None" if "\<not> HasPrefix (sp @ v) ''#''"
    by (simp only: FindSubmatch_def projectPattern_def opt_hash(2) [OF that] n)
qed

lemma no_branch: "FindSubmatch branchPattern (''#'' @ v) = None"
proof -
  have "\<not> HasPrefix (''#'' @ v) ''branch''" "\<not> re_space (hd (''#'' @ v))" by (simp_all add: re_space_def HasPrefix_def)
  then have "rmatch (RSeq (RStar True re_space) (RSeq (RLit ''branch'') r)) ([] @ ''#'' @ v) c k = None" for r c k
    by (intro rmatch_spaces_None) (simp_all add: re_space_def)
  then show ?thesis by (simp only: FindSubmatch_def branchPattern_def append_Nil)
qed

definition quietSelection :: "string \<Rightarrow> bool" where
  "quietSelection l \<longleftrightarrow> FindSubmatch projectPattern l = None \<and> FindSubmatch branchPattern l = None"

lemma parseSelection_quiet: "list_all quietSelection ls \<Longrightarrow> parseSelection tss p (ls @ rest) = parseSelection tss p rest"
  by (induction ls) (auto simp: quietSelection_def)

definition hexId :: "string \<Rightarrow> bool" where
  "hexId s \<longleftrightarrow> s \<noteq> [] \<and> list_all (\<lambda>c. c \<in> set ''0123456789abcdef'') s"

lemma quiet_comment:
  assumes "list_all re_space sp" and "v = [] \<or> \<not> re_space (hd v)" and "\<not> HasPrefix v ''project''"
  shows "quietSelection (''#'' @ sp @ v)"
  using no_project(1) [OF assms] no_branch by (simp only: quietSelection_def)

lemma quiet_commits:
  assumes "\<forall>c \<in> set cs. hexId c"
  shows "list_all quietSelection (commitLines cs)"
proof -
  have "quietSelection (''#'' @ ''         '' @ c)" if "hexId c" for c
    using that by (intro quiet_comment) (cases c; auto simp: hexId_def HasPrefix_def re_space_def)+
  then have "\<forall>c \<in> set (take 10 cs). quietSelection (''#         '' @ c)" using assms in_set_takeD [of _ 10 cs] by fastforce
  moreover have "quietSelection ''#         ... ...''" by code_simp
  ultimately show ?thesis by (auto simp: commitLines_def list_all_iff)
qed

text \<open>What the script needs of the branches: they are told apart by their projects and names, and the lines
  can be told apart.\<close>

definition selectable :: "machine \<Rightarrow> upload_options \<Rightarrow> task \<Rightarrow> bool" where
  "selectable mc o' t \<longleftrightarrow> branchWord (tName t) \<and> LF \<notin> set (getDestBranch o' t) \<and>
     LF \<notin> set (cr_ID (rb_CodeReview (t_Branch t))) \<and> (\<forall>c \<in> set (t_Commits mc t). hexId c)"

definition selectableAll :: "machine \<Rightarrow> upload_options \<Rightarrow> task list list \<Rightarrow> bool" where
  "selectableAll mc o' tss \<longleftrightarrow>
     distinct (map (\<lambda>ts. pPath (t_Project (hd ts))) tss) \<and> distinct (map (\<lambda>ts. pName (t_Project (hd ts))) tss) \<and>
     (\<forall>ts \<in> set tss. ts \<noteq> [] \<and> pathWord (pPath (t_Project (hd ts))) \<and> distinct (map tName ts) \<and> (\<forall>t \<in> set ts. selectable mc o' t))"

lemma map_of_rev_SomeI: "distinct (map fst xs) \<Longrightarrow> (k, x) \<in> set xs \<Longrightarrow> map_of (rev xs) k = Some x"
  by (rule map_of_is_SomeI) (simp_all add: rev_map [symmetric])

lemma branchLine_selected:
  assumes "selectable mc o' t"
  shows "FindSubmatch projectPattern (branchLine o' '' '' n t) = None"
    and "FindSubmatch branchPattern (branchLine o' '' '' n t) = Some [(''1'', tName t)]"
proof -
  let ?dest = "(if CodeReview_Empty (rb_CodeReview (t_Branch t)) then ''to remote branch '' @ getDestBranch o' t
      else ''to update code review #'' @ cr_ID (rb_CodeReview (t_Branch t))) @ '':''"
  have l: "branchLine o' '' '' n t = ''   '' @ ''branch '' @ tName t @ '' ('' @ (pad2 n @ '' commit(s)) '' @ ?dest)"
    by (simp add: branchLine_def)
  have "LF \<notin> set (pad2 n)" using digits_of_isDigit [of LF n] by (auto simp: pad2_def Itoa_def isDigit_def Let_def)
  then have "LF \<notin> set (pad2 n @ '' commit(s)) '' @ ?dest)" using assms by (auto simp: selectable_def)
  then show "FindSubmatch branchPattern (branchLine o' '' '' n t) = Some [(''1'', tName t)]"
    unfolding l using assms by (intro branch_line) (auto simp: selectable_def re_space_def)
  show "FindSubmatch projectPattern (branchLine o' '' '' n t) = None"
    unfolding l by (rule no_project(2)) (auto simp: re_space_def HasPrefix_def)
qed

lemma branchLine_comment: "quietSelection (branchLine o' ''#'' n t)"
proof -
  have "branchLine o' ''#'' n t = ''#'' @ ''  '' @ (''branch '' @ drop 10 (branchLine o' ''#'' n t))"
    by (simp add: branchLine_def)
  also have "quietSelection \<dots>" by (rule quiet_comment) (auto simp: re_space_def HasPrefix_def)
  finally show ?thesis .
qed

definition uncommented :: "(task \<Rightarrow> string) \<Rightarrow> task list \<Rightarrow> task list" where
  "uncommented comment ts = filter (\<lambda>t. comment t = '' '') ts"

lemma parse_branches:
  assumes "\<forall>t \<in> set ts. selectable mc o' t \<and> (comment t = '' '' \<or> comment t = ''#'') \<and>
      (case branchesIdx tss (pName q) of None \<Rightarrow> None | Some b \<Rightarrow> b (tName t)) = Some t"
  shows "parseSelection tss (Some q) (branchesScript mc o' comment later ts @ rest) =
    bind_result (parseSelection tss (Some q) rest) (\<lambda>us. Inr (uncommented comment ts @ us))"
  using assms
proof (induction ts arbitrary: later)
  case Nil
  show ?case by (cases "parseSelection tss (Some q) rest") (simp_all add: uncommented_def)
next
  case (Cons t ts)
  let ?more = "branchesScript mc o' comment True ts @ rest" and ?line = "branchLine o' (comment t) (length (t_Commits mc t)) t"
  have "quietSelection ''#''" by code_simp
  then have h: "list_all quietSelection (if later then [''#''] else [])" by simp
  have c: "list_all quietSelection (commitLines (t_Commits mc t))" using Cons.prems by (intro quiet_commits) (simp add: selectable_def)
  have all: "parseSelection tss (Some q) (branchesScript mc o' comment later (t # ts) @ rest) =
      parseSelection tss (Some q) (?line # commitLines (t_Commits mc t) @ ?more)"
    using parseSelection_quiet [OF h, of tss "Some q" "?line # commitLines (t_Commits mc t) @ ?more"] by simp
  have IH: "parseSelection tss (Some q) (commitLines (t_Commits mc t) @ ?more) =
      bind_result (parseSelection tss (Some q) rest) (\<lambda>us. Inr (uncommented comment ts @ us))"
    using Cons by (simp add: parseSelection_quiet [OF c])
  show ?case
  proof (cases "comment t = '' ''")
    case True
    then show ?thesis using all IH Cons.prems branchLine_selected [of mc o' t "length (t_Commits mc t)"]
      by (cases "parseSelection tss (Some q) rest") (simp_all add: uncommented_def capture_def Let_def)
  next
    case False
    then have "comment t = ''#''" using Cons.prems by auto
    then show ?thesis using all IH branchLine_comment [of o' "length (t_Commits mc t)" t] False
      by (simp add: quietSelection_def uncommented_def)
  qed
qed

lemma parse_projects:
  assumes "selectableAll mc o' tss" and "\<forall>t. comment t = '' '' \<or> comment t = ''#''" and "set uss \<subseteq> set tss"
  shows "parseSelection tss p (concat (map (projectScript mc o' comment) uss) @ [[]]) = Inr (uncommented comment (concat uss))"
  using assms(3)
proof (induction uss arbitrary: p)
  case Nil
  have "quietSelection []" by code_simp
  then show ?case by (simp add: quietSelection_def uncommented_def)
next
  case (Cons ts uss)
  let ?q = "t_Project (hd ts)" and ?rest = "concat (map (projectScript mc o' comment) uss) @ [[]]"
  have ts: "ts \<in> set tss" using Cons.prems by simp
  then have q: "projectsIdx tss (pPath ?q) = Some ?q" "pathWord (pPath ?q)"
    using assms(1) by (auto simp: projectsIdx_def selectableAll_def comp_def intro!: map_of_rev_SomeI)
  have b: "branchesIdx tss (pName ?q) = Some (map_of (rev (map (\<lambda>t. (tName t, t)) ts)))"
    using assms(1) ts by (auto simp: branchesIdx_def selectableAll_def comp_def intro!: map_of_rev_SomeI)
  have t: "map_of (rev (map (\<lambda>t. (tName t, t)) ts)) (tName t) = Some t" if "t \<in> set ts" for t
    using assms(1) ts that by (auto simp: selectableAll_def comp_def intro!: map_of_rev_SomeI)
  have br: "parseSelection tss (Some ?q) (branchesScript mc o' comment False ts @ ?rest) = Inr (uncommented comment ts @ uncommented comment (concat uss))"
    using Cons assms(1,2) ts b t by (subst parse_branches) (auto simp: selectableAll_def result_simps)
  have "quietSelection ''#''" by code_simp
  then have "parseSelection tss p (projectScript mc o' comment ts @ ?rest) =
      parseSelection tss p ((''# project '' @ pPath ?q @ ''/:'') # branchesScript mc o' comment False ts @ ?rest)"
    using parseSelection_quiet [of "[''#'']"] by (simp add: projectScript_def)
  also have "\<dots> = Inr (uncommented comment ts @ uncommented comment (concat uss))"
    by (simp only: parseSelection.simps(2) project_line [OF q(2)] option.case capture_def map_of.simps if_True fst_conv snd_conv fun_upd_same q(1) br)
  finally show ?case by (simp add: uncommented_def)
qed

text \<open>
  Property C10. A script in which the user has only removed or added the comment signs of branch lines
  selects exactly the branches whose lines are not comments, in their order, whatever comes before
  the mark. The projects must have different names and paths without blanks.
\<close>

theorem selectedBranches_script:
  assumes "selectableAll mc o' tss" and "\<forall>t. comment t = '' '' \<or> comment t = ''#''"
    and "markbranchSelection \<notin> set pre"
  shows "selectedBranches tss (pre @ selectionScript mc o' comment tss) = Inr (filter (\<lambda>t. comment t = '' '') (concat tss))"
proof -
  let ?projects = "concat (map (projectScript mc o' comment) tss) @ [[]]"
  let ?note = "[''#'', ''# Note: Uncomment the branches to upload, and not touch the project lines'', ruler, []]"
  have "list_all quietSelection ?note" by code_simp
  then have "parseSelection tss None (?note @ ?projects) = Inr (uncommented comment (concat tss))"
    using parse_projects [OF assms(1,2) subset_refl] by (simp only: parseSelection_quiet)
  moreover have "dropWhile (\<lambda>l. l \<noteq> markbranchSelection) (pre @ selectionScript mc o' comment tss) = markbranchSelection # ?note @ ?projects"
  proof -
    have "dropWhile (\<lambda>l. l \<noteq> markbranchSelection) (pre @ xs) = dropWhile (\<lambda>l. l \<noteq> markbranchSelection) xs" for xs
      using assms(3) by (intro dropWhile_append2) auto
    moreover have "ruler \<noteq> markbranchSelection" "[] \<noteq> markbranchSelection" by code_simp+
    ultimately show ?thesis by (simp add: selectionScript_def)
  qed
  ultimately show ?thesis by (simp add: selectedBranches_def uncommented_def)
qed

definition task_of :: "string \<Rightarrow> string \<Rightarrow> string \<Rightarrow> task" where
  "task_of name path branch =
     \<lparr>t_Project = sample_work\<lparr>mproject := (mproject sample_work)\<lparr>Name := name, Path := path\<rparr>\<rparr>,
      t_Branch = sample_review\<lparr>rb_Branch := \<lparr>br_Name = branch, br_Hash = ''1''\<rparr>\<rparr>\<rparr>"

definition onlyMain :: "task \<Rightarrow> string" where
  "onlyMain t = (if tName t = ''main'' then '' '' else ''#'')"

theorem selectedBranches_script_witness:
  "selectedBranches [[task_of ''p'' ''a/p'' ''dev'', task_of ''p'' ''a/p'' ''main''], [task_of ''q'' ''q'' ''main'']]
     ([''x''] @ selectionScript sample_machine upload_options0 onlyMain
        [[task_of ''p'' ''a/p'' ''dev'', task_of ''p'' ''a/p'' ''main''], [task_of ''q'' ''q'' ''main'']]) =
   Inr [task_of ''p'' ''a/p'' ''main'', task_of ''q'' ''q'' ''main'']"
proof -
  let ?tss = "[[task_of ''p'' ''a/p'' ''dev'', task_of ''p'' ''a/p'' ''main''], [task_of ''q'' ''q'' ''main'']]"
  have "selectableAll sample_machine upload_options0 ?tss" "markbranchSelection \<notin> set [''x'']" by code_simp+
  moreover have "\<forall>t. onlyMain t = '' '' \<or> onlyMain t = ''#''" by (simp add: onlyMain_def)
  ultimately have "selectedBranches ?tss ([''x''] @ selectionScript sample_machine upload_options0 onlyMain ?tss) =
      Inr (filter (\<lambda>t. onlyMain t = '' '') (concat ?tss))" by (intro selectedBranches_script)
  also have "filter (\<lambda>t. onlyMain t = '' '') (concat ?tss) = [task_of ''p'' ''a/p'' ''main'', task_of ''q'' ''q'' ''main'']"
    by (simp add: onlyMain_def task_of_def)
  finally show ?thesis .
qed

text \<open>When two paths have the same project, the branch of the last one is taken for both: here the
  line of the branch below a/p is not a comment, the one below b/p is.\<close>

lemma selectedBranches_same_name:
  "case selectedBranches [[task_of ''p'' ''a/p'' ''main''], [task_of ''p'' ''b/p'' ''main'']]
     (selectionScript sample_machine upload_options0 (\<lambda>t. if pPath (t_Project t) = ''a/p'' then '' '' else ''#'')
       [[task_of ''p'' ''a/p'' ''main''], [task_of ''p'' ''b/p'' ''main'']]) of
     Inl _ \<Rightarrow> False | Inr ts \<Rightarrow> map (\<lambda>t. pPath (t_Project t)) ts = [''b/p'']"
  by code_simp

end
