(* ===== verification/Keyword_Subst.thy ===== *)
theory Keyword_Subst
  imports Command
begin

text \<open>
  The content filter for keywords (cmd/filter.go, cmd/filter-helper-keyword-subst.go): the clean
  filter reduces a keyword with its value to the keyword, the smudge filter puts in the values
  found in the log. Both work line by line.
\<close>

section \<open>The pattern\<close>

definition Keywords :: "string list" where
  "Keywords = [''Date'', ''LastChangedDate'', ''Revision'', ''LastChangedRevision'', ''Author'', ''LastChangedBy'', ''HeadURL'', ''Id'', ''Header'']"

fun RAlts :: "string list \<Rightarrow> regexp" where
  "RAlts [] = RCls (\<lambda>_. False)"
| "RAlts [s] = RLit s"
| "RAlts (s # ss) = RAlt (RLit s) (RAlts ss)"

definition keywordRe :: regexp where
  "keywordRe = RSeq (RLit ''$'') (RSeq (RGrp ''1'' (RAlts Keywords))
     (RSeq (ROpt (RSeq (RLit '':'') (RStar True (none_of ''$'')))) (RLit ''$'')))"

text \<open>A match at the start of the text: the keyword and the text after the match.\<close>

definition matchHere :: "string \<Rightarrow> (string \<times> string) option" where
  "matchHere s =
     (case rmatch keywordRe s [] (\<lambda>s' c. Some ((''rest'', s') # c)) of
        None \<Rightarrow> None | Some c \<Rightarrow> Some (capture c ''1'', capture c ''rest''))"

text \<open>What may stand between the keyword and the closing dollar.\<close>

definition keywordBody :: "string \<Rightarrow> bool" where
  "keywordBody x \<longleftrightarrow> x = [] \<or> (\<exists>y. x = CHR '':'' # y \<and> CHR ''$'' \<notin> set y)"

definition keywordText :: "string \<Rightarrow> string \<Rightarrow> string" where
  "keywordText k x = ''$'' @ k @ x @ ''$''"

lemma parses_RAlts: "parses (RAlts ss) u m \<longleftrightarrow> u \<in> set ss \<and> m = []"
  by (induction ss rule: RAlts.induct) auto

lemma parses_keywordRe:
  "parses keywordRe u m \<longleftrightarrow> (\<exists>k x. k \<in> set Keywords \<and> keywordBody x \<and> u = keywordText k x \<and> m = [(''1'', k)])"
proof -
  have body: "parses (ROpt (RSeq (RLit '':'') (RStar True (none_of ''$'')))) x m \<longleftrightarrow> keywordBody x \<and> m = []" for x m
    by (auto simp: keywordBody_def none_of_def list_all_iff)
  show ?thesis unfolding keywordRe_def parses.simps(5) body
    by (auto simp: parses_RAlts keywordText_def)
qed

lemma matchHere_Some:
  assumes "matchHere s = Some (k, rest)"
  shows "k \<in> set Keywords \<and> (\<exists>x. keywordBody x \<and> s = keywordText k x @ rest)"
proof -
  obtain c where c: "rmatch keywordRe s [] (\<lambda>s' c. Some ((''rest'', s') # c)) = Some c" "capture c ''1'' = k" "capture c ''rest'' = rest"
    using assms by (auto simp: matchHere_def split: option.splits)
  obtain u v m where "s = u @ v" "parses keywordRe u m" "c = (''rest'', v) # m" using rmatch_sound [OF c(1)] by auto
  with c(2,3) show ?thesis by (auto simp: parses_keywordRe capture_def)
qed

lemma matchHere_shorter: "matchHere s = Some (k, rest) \<Longrightarrow> length rest < length s"
  by (drule matchHere_Some) (auto simp: keywordText_def)

section \<open>The filters\<close>

text \<open>All matches from left to right: the text and its keyword.\<close>

function findAll :: "string \<Rightarrow> (string \<times> string) list" where
  "findAll [] = []"
| "findAll (c # s) =
     (case matchHere (c # s) of
        None \<Rightarrow> findAll s
      | Some (k, rest) \<Rightarrow> (take (length (c # s) - length rest) (c # s), k) # findAll rest)"
  by pat_completeness auto
termination
  by (relation "measure length") (auto dest: matchHere_shorter)

text \<open>\<^verbatim>\<open>ReplaceAllString\<close> with the keyword between dollars\<close>

function replaceAll :: "string \<Rightarrow> string" where
  "replaceAll [] = []"
| "replaceAll (c # s) =
     (case matchHere (c # s) of
        None \<Rightarrow> c # replaceAll s
      | Some (k, rest) \<Rightarrow> ''$'' @ k @ ''$'' @ replaceAll rest)"
  by pat_completeness auto
termination
  by (relation "measure length") (auto dest: matchHere_shorter)

text \<open>\<^verbatim>\<open>bytes.Replace\<close> of an old text that is not empty\<close>

function bytesReplace :: "string \<Rightarrow> string \<Rightarrow> string \<Rightarrow> string" where
  "bytesReplace [] old new = []"
| "bytesReplace (c # s) old new =
     (if old \<noteq> [] \<and> HasPrefix (c # s) old then new @ bytesReplace (TrimPrefix (c # s) old) old new
      else c # bytesReplace s old new)"
  by pat_completeness auto
termination
  by (relation "measure (\<lambda>(s, _). length s)") (auto simp: TrimPrefix_def)

text \<open>Lines with their line feed, as \<^verbatim>\<open>ReadBytes\<close> gives them.\<close>

fun readLines :: "string \<Rightarrow> string list" where
  "readLines [] = []"
| "readLines (c # s) =
     (if c = CHR 0x0A then [c] # readLines s
      else case readLines s of [] \<Rightarrow> [[c]] | l # ls \<Rightarrow> (c # l) # ls)"

definition cleanLine :: "string \<Rightarrow> string" where
  "cleanLine buf = (if findAll buf \<noteq> [] then replaceAll buf else buf)"

definition Clean_filter :: "string \<Rightarrow> string" where
  "Clean_filter input = concat (map cleanLine (readLines input))"

text \<open>A keyword without value is left alone.\<close>

type_synonym keyword_map = "string \<Rightarrow> string"

definition replaceMatch :: "keyword_map \<Rightarrow> string \<Rightarrow> string \<times> string \<Rightarrow> string" where
  "replaceMatch kw buf m =
     (case m of (text, keyword) \<Rightarrow>
        if kw keyword \<noteq> [] then bytesReplace buf text (''$'' @ keyword @ '': '' @ kw keyword @ '' $'') else buf)"

definition smudgeLine :: "keyword_map \<Rightarrow> string \<Rightarrow> string" where
  "smudgeLine kw buf = foldl (replaceMatch kw) buf (findAll buf)"

definition Smudge_filter :: "keyword_map \<Rightarrow> string \<Rightarrow> string" where
  "Smudge_filter kw input = concat (map (smudgeLine kw) (readLines input))"

section \<open>The values of the keywords\<close>

definition logArgs :: "string \<Rightarrow> string list" where
  "logArgs filename = [''git'', ''log'', ''-1'', ''--no-color'', ''--no-decorate'', ''--pretty=fuller'', ''--'', filename]"

text \<open>\<open>dates\<close> gives the date of a commit in UTC and in local time, if it can be parsed.\<close>

definition logLine :: "(string \<Rightarrow> (string \<times> string) option) \<Rightarrow> keyword_map \<Rightarrow> string \<Rightarrow> keyword_map" where
  "logLine dates kw l =
     (if HasPrefix l ''commit '' then kw(''Commit'' := TrimPrefix l ''commit '')
      else if HasPrefix l ''Author:'' then
        let a = TrimSpace (TrimPrefix l ''Author:'') in kw(''Author'' := a, ''LastChangedBy'' := a)
      else if HasPrefix l ''CommitDate:'' then
        let d = TrimSpace (TrimPrefix l ''CommitDate:'') in
        (case dates d of
           None \<Rightarrow> kw(''UTC'' := d, ''Date'' := d, ''LastChangedDate'' := d)
         | Some (utc, local) \<Rightarrow> kw(''UTC'' := utc, ''Date'' := local, ''LastChangedDate'' := local))
      else kw)"

text \<open>The path below the work tree is computed only when there is no work tree.\<close>

definition keywordPath :: "machine \<Rightarrow> string \<Rightarrow> string" where
  "keywordPath mc filename =
     (let h = mc_host mc in
      case FindGitWorkSpace h [] of
        Inr _ \<Rightarrow> filename
      | Inl _ \<Rightarrow>
        (let a = (case Abs h filename of Inl _ \<Rightarrow> [] | Inr x \<Rightarrow> x) in
         case Rel [] a of None \<Rightarrow> [] | Some r \<Rightarrow> r))"

definition keywordURL :: "machine \<Rightarrow> string \<Rightarrow> string" where
  "keywordURL mc fullPath =
     (case mc_Config mc [] of
        Inl _ \<Rightarrow> fullPath
      | Inr c \<Rightarrow>
        (case filter (\<lambda>x. HasPrefix x ''remote.'') (mc_Sections mc []) of
           [] \<Rightarrow> fullPath
         | x # _ \<Rightarrow> Join [getKey c (x @ ''.url''), fullPath]))"

definition initialKeywordMap :: "machine \<Rightarrow> (string \<Rightarrow> (string \<times> string) option) \<Rightarrow> string \<Rightarrow> keyword_map" where
  "initialKeywordMap mc dates filename =
     (case mc_Output mc [] (logArgs filename) of
        (_, Some _) \<Rightarrow> (\<lambda>_. [])
      | (out, None) \<Rightarrow>
        let kw1 = foldl (logLine dates) (\<lambda>_. []) (StrSplit out CHR 0x0A);
            kw2 = (case mc_Output mc [] [''git'', ''describe'', ''--always'', kw1 ''Commit'', ''--''] of
                     (_, Some _) \<Rightarrow> kw1
                   | (rv, None) \<Rightarrow> kw1(''Revision'' := TrimSpace rv, ''LastChangedRevision'' := TrimSpace rv));
            fields = '' '' @ kw2 ''Revision'' @ '' '' @ kw2 ''UTC'' @ '' '' @ kw2 ''Author'';
            fullPath = keywordURL mc (keywordPath mc filename)
        in kw2(''Id'' := Base filename @ fields, ''Header'' := fullPath @ fields, ''HeadURL'' := fullPath))"

section \<open>The command filter\<close>

record filter_options =
  fl_Kind :: string
  fl_Clean :: bool
  fl_Smudge :: bool

definition filter_Execute :: "machine \<Rightarrow> (string \<Rightarrow> (string \<times> string) option) \<Rightarrow> filter_options \<Rightarrow> string list \<Rightarrow> string \<Rightarrow> string result" where
  "filter_Execute mc dates o' args input =
     (if \<not> fl_Clean o' \<and> \<not> fl_Smudge o' then Inl (Error ''must provide one of --clean or --smudge option'')
      else if fl_Clean o' \<and> fl_Smudge o' then Inl (Error ''cannot use --clean and --smudge options together'')
      else if length args \<noteq> 1 then Inl (Error ''should provide one filename'')
      else if fl_Kind o' \<noteq> ''keyword-subst'' then Inl (Error (''known filter driver: '' @ fl_Kind o'))
      else Inr (if fl_Clean o' then Clean_filter input else Smudge_filter (initialKeywordMap mc dates (hd args)) input))"

section \<open>Lines with keywords\<close>

text \<open>A line as text without dollars and keywords with their bodies.\<close>

type_synonym piece = "string \<times> string \<times> string"

fun renderLine :: "string \<Rightarrow> piece list \<Rightarrow> string" where
  "renderLine u [] = u"
| "renderLine u ((k, x, v) # ps) = u @ keywordText k x @ renderLine v ps"

definition plain :: "string \<Rightarrow> bool" where "plain u \<longleftrightarrow> CHR ''$'' \<notin> set u"

text \<open>The text between two keywords does not look like one together with their dollars.\<close>

fun aligned :: "piece list \<Rightarrow> bool" where
  "aligned ((k, x, u) # p # ps) \<longleftrightarrow> matchHere (''$'' @ u @ ''$'') = None \<and> aligned (p # ps)"
| "aligned _ = True"

definition keywordLine :: "string \<Rightarrow> piece list \<Rightarrow> bool" where
  "keywordLine u ps \<longleftrightarrow> plain u \<and> list_all (\<lambda>(k, x, v). k \<in> set Keywords \<and> keywordBody x \<and> plain v) ps \<and> aligned ps"

lemma Keywords_plain: "k \<in> set Keywords \<Longrightarrow> plain k \<and> CHR '':'' \<notin> set k"
  by (auto simp: Keywords_def plain_def)

lemma keywordBody_plain: "keywordBody x \<Longrightarrow> plain x"
  by (auto simp: keywordBody_def plain_def)

lemma split_dollar: "plain a \<Longrightarrow> plain b \<Longrightarrow> a @ CHR ''$'' # s = b @ CHR ''$'' # t \<longleftrightarrow> a = b \<and> s = t"
proof (induction a arbitrary: b)
  case Nil
  then show ?case by (cases b) (auto simp: plain_def)
next
  case (Cons c a)
  then show ?case by (cases b) (auto simp: plain_def)
qed

lemma split_body:
  assumes "k \<in> set Keywords" "k' \<in> set Keywords" "keywordBody x" "keywordBody x'"
  shows "k @ x = k' @ x' \<longleftrightarrow> k = k' \<and> x = x'"
proof
  assume eq: "k @ x = k' @ x'"
  have "takeWhile (\<lambda>c. c \<noteq> CHR '':'') (k @ x) = k" "takeWhile (\<lambda>c. c \<noteq> CHR '':'') (k' @ x') = k'"
    using assms Keywords_plain by (fastforce simp: keywordBody_def takeWhile_append)+
  with eq show "k = k' \<and> x = x'" by (metis append_eq_append_conv)
qed simp

lemma keywordText_prefix:
  assumes "k \<in> set Keywords" "k' \<in> set Keywords" "keywordBody x" "keywordBody x'"
  shows "keywordText k x @ s = keywordText k' x' @ t \<longleftrightarrow> k = k' \<and> x = x' \<and> s = t"
proof -
  have "plain (k @ x)" "plain (k' @ x')" using assms Keywords_plain keywordBody_plain by (auto simp: plain_def)
  from split_dollar [OF this, of s t] split_body [OF assms] show ?thesis by (auto simp: keywordText_def)
qed

lemma matchHere_text:
  assumes "k \<in> set Keywords" "keywordBody x"
  shows "matchHere (keywordText k x @ v) = Some (k, v)"
proof (cases "matchHere (keywordText k x @ v)")
  case None
  then have n: "rmatch keywordRe (keywordText k x @ v) [] (\<lambda>s' c. Some ((''rest'', s') # c)) = None"
    by (auto simp: matchHere_def split: option.splits)
  have "parses keywordRe (keywordText k x) [(''1'', k)]" using assms by (auto simp: parses_keywordRe)
  from rmatch_complete [OF n _ refl this] show ?thesis by simp
next
  case (Some r)
  then obtain k' rest where r: "matchHere (keywordText k x @ v) = Some (k', rest)" by (cases r) auto
  from matchHere_Some [OF r] obtain x' where "k' \<in> set Keywords" "keywordBody x'" "keywordText k x @ v = keywordText k' x' @ rest"
    by blast
  with keywordText_prefix [OF assms(1) this(1) assms(2) this(2)] r show ?thesis by auto
qed

lemma matchHere_other: "c \<noteq> CHR ''$'' \<Longrightarrow> matchHere (c # s) = None"
  by (cases "matchHere (c # s)") (auto dest!: matchHere_Some simp: keywordText_def)

lemma skip_plain:
  assumes "plain u"
  shows "findAll (u @ s) = findAll s" "replaceAll (u @ s) = u @ replaceAll s"
  using assms by (induction u) (auto simp: plain_def matchHere_other)

lemma keywordText_Cons: "keywordText k x = CHR ''$'' # k @ x @ ''$''"
  by (simp add: keywordText_def)

lemma at_keyword:
  assumes "k \<in> set Keywords" "keywordBody x"
  shows "findAll (keywordText k x @ v) = (keywordText k x, k) # findAll v"
    "replaceAll (keywordText k x @ v) = keywordText k [] @ replaceAll v"
  using matchHere_text [OF assms, of v] by (simp_all add: keywordText_Cons)

lemma findAll_render:
  assumes "plain u" "list_all (\<lambda>(k, x, v). k \<in> set Keywords \<and> keywordBody x \<and> plain v) ps"
  shows "findAll (renderLine u ps) = map (\<lambda>(k, x, v). (keywordText k x, k)) ps"
    and "replaceAll (renderLine u ps) = renderLine u (map (\<lambda>(k, x, v). (k, [], v)) ps)"
  using assms
proof (induction u ps rule: renderLine.induct)
  case (1 u)
  case 1 then show ?case using skip_plain(1) [of u "[]"] by simp
  case 2 then show ?case using skip_plain(2) [of u "[]"] by simp
next
  case (2 u k x v ps)
  note IH = 2
  case 1 then show ?case using IH by (simp add: skip_plain at_keyword)
  case 2 then show ?case using IH by (simp add: skip_plain at_keyword)
qed

text \<open>Replacing the text of one keyword changes exactly the keywords with this text.\<close>

lemma bytesReplace_plain:
  assumes "plain u" and "old = CHR ''$'' # t"
  shows "bytesReplace (u @ s) old new = u @ bytesReplace s old new"
  using assms by (induction u) (auto simp: plain_def HasPrefix_def)

definition revalue :: "string \<Rightarrow> string \<Rightarrow> string \<Rightarrow> piece \<Rightarrow> piece" where
  "revalue k x y p = (case p of (k', x', v) \<Rightarrow> (k', if k' = k \<and> x' = x then y else x', v))"

lemma not_between:
  assumes "aligned ((k', x', v) # ps)" "plain v" "k \<in> set Keywords" "keywordBody x"
  shows "\<not> HasPrefix (CHR ''$'' # renderLine v ps) (keywordText k x)"
proof
  assume h: "HasPrefix (CHR ''$'' # renderLine v ps) (keywordText k x)"
  have plain: "plain (k @ x)" using assms(3,4) Keywords_plain keywordBody_plain by (auto simp: plain_def)
  from h obtain t where t: "renderLine v ps = (k @ x) @ CHR ''$'' # t" by (auto simp: HasPrefix_iff keywordText_def)
  show False
  proof (cases ps)
    case Nil
    with t assms(2) show False by (auto simp: plain_def)
  next
    case (Cons p qs)
    obtain k2 x2 v2 where p: "p = (k2, x2, v2)" by (cases p)
    from t Cons have "v @ CHR ''$'' # (k2 @ x2 @ ''$'' @ renderLine v2 qs) = (k @ x) @ CHR ''$'' # t"
      by (simp add: p keywordText_def)
    with split_dollar [OF assms(2) plain] have "v = k @ x" by blast
    then have "''$'' @ v @ ''$'' = keywordText k x @ []" by (simp add: keywordText_def)
    with matchHere_text [OF assms(3,4), of "[]"] assms(1) show False by (simp add: Cons)
  qed
qed

lemma aligned_tl: "aligned (p # ps) \<Longrightarrow> aligned ps"
  by (cases p; cases ps) auto

lemma bytesReplace_render:
  assumes "keywordLine u ps" "k \<in> set Keywords" "keywordBody x"
  shows "bytesReplace (renderLine u ps) (keywordText k x) (keywordText k y) = renderLine u (map (revalue k x y) ps)"
  using assms(1)
proof (induction u ps rule: renderLine.induct)
  case (1 u)
  then show ?case using bytesReplace_plain [of u "keywordText k x" _ "[]"] by (simp add: keywordLine_def keywordText_Cons)
next
  case (2 u k' x' v ps)
  let ?r = "renderLine v ps"
  have line: "keywordLine v ps" and piece: "k' \<in> set Keywords" "keywordBody x'" "plain u" "plain v"
    using 2(2) by (auto simp: keywordLine_def dest: aligned_tl)
  have tail: "bytesReplace ?r (keywordText k x) (keywordText k y) = renderLine v (map (revalue k x y) ps)"
    by (rule 2(1) [OF line])
  have "bytesReplace (keywordText k' x' @ ?r) (keywordText k x) (keywordText k y) =
      keywordText k' (if k' = k \<and> x' = x then y else x') @ renderLine v (map (revalue k x y) ps)"
  proof (cases "k' = k \<and> x' = x")
    case True
    have "HasPrefix (keywordText k x @ ?r) (keywordText k x)" "TrimPrefix (keywordText k x @ ?r) (keywordText k x) = ?r" by simp_all
    with True tail show ?thesis by (simp add: keywordText_Cons)
  next
    case False
    have "\<not> HasPrefix (keywordText k' x' @ ?r) (keywordText k x)"
      using False keywordText_prefix [OF piece(1) assms(2) piece(2) assms(3)] by (auto simp: HasPrefix_iff)
    then have "bytesReplace (keywordText k' x' @ ?r) (keywordText k x) (keywordText k y) =
        CHR ''$'' # bytesReplace ((k' @ x') @ CHR ''$'' # ?r) (keywordText k x) (keywordText k y)"
      by (simp add: keywordText_Cons)
    also have "\<dots> = CHR ''$'' # (k' @ x') @ bytesReplace (CHR ''$'' # ?r) (keywordText k x) (keywordText k y)"
      using Keywords_plain [OF piece(1)] keywordBody_plain [OF piece(2)]
      by (subst bytesReplace_plain) (auto simp: plain_def keywordText_Cons)
    also have "bytesReplace (CHR ''$'' # ?r) (keywordText k x) (keywordText k y) = CHR ''$'' # bytesReplace ?r (keywordText k x) (keywordText k y)"
      using not_between [of k' x' v ps k x] 2(2) assms(2,3) piece(4) by (simp add: keywordLine_def)
    finally show ?thesis using False unfolding tail by (auto simp: keywordText_Cons [of k'])
  qed
  then show ?case
    by (simp add: bytesReplace_plain [OF piece(3) keywordText_Cons] revalue_def [of k x y "(k', x', v)"])
qed

lemma keywordLine_revalue:
  assumes "keywordLine u ps" "keywordBody y"
  shows "keywordLine u (map (revalue k x y) ps)"
proof -
  have "aligned qs \<Longrightarrow> aligned (map (revalue k x y) qs)" for qs
    by (induction qs rule: aligned.induct) (auto simp: revalue_def split: prod.splits)
  with assms show ?thesis by (auto simp: keywordLine_def list_all_iff revalue_def)
qed

text \<open>The body of a keyword with its value, and the pieces after a substitution.\<close>

definition valueBody :: "keyword_map \<Rightarrow> string \<Rightarrow> string" where
  "valueBody kw k = '': '' @ kw k @ '' ''"

definition smudgePiece :: "keyword_map \<Rightarrow> piece \<Rightarrow> piece" where
  "smudgePiece kw p = (case p of (k, x, v) \<Rightarrow> (k, if kw k \<noteq> [] then valueBody kw k else x, v))"

lemma smudge_fold:
  assumes "\<forall>k. plain (kw k)" "keywordLine u ps" "\<forall>(k, x) \<in> set ms. k \<in> set Keywords \<and> keywordBody x"
  shows "foldl (replaceMatch kw) (renderLine u ps) (map (\<lambda>(k, x). (keywordText k x, k)) ms) =
    renderLine u (map (\<lambda>(k, x, v). (k, if kw k \<noteq> [] \<and> (k, x) \<in> set ms then valueBody kw k else x, v)) ps)"
  using assms(2,3)
proof (induction ms arbitrary: ps)
  case Nil
  have "map (\<lambda>(k, x, v). (k, x, v)) ps = ps" by (induction ps) auto
  then show ?case by simp
next
  case (Cons m ms)
  obtain k x where m: "m = (k, x)" by (cases m)
  have body: "keywordBody (valueBody kw k)" using assms(1) by (simp add: keywordBody_def valueBody_def plain_def)
  let ?ps = "if kw k \<noteq> [] then map (revalue k x (valueBody kw k)) ps else ps"
  have "replaceMatch kw (renderLine u ps) (keywordText k x, k) = renderLine u ?ps"
    using bytesReplace_render [of u ps k x "valueBody kw k"] Cons.prems
    by (simp add: replaceMatch_def m keywordText_def valueBody_def)
  moreover have "keywordLine u ?ps" using Cons.prems(1) body keywordLine_revalue by simp
  ultimately have "foldl (replaceMatch kw) (renderLine u ps) (map (\<lambda>(k, x). (keywordText k x, k)) (m # ms)) =
      renderLine u (map (\<lambda>(k, x, v). (k, if kw k \<noteq> [] \<and> (k, x) \<in> set ms then valueBody kw k else x, v)) ?ps)"
    using Cons.IH Cons.prems(2) by (simp add: m)
  also have "map (\<lambda>(k, x, v). (k, if kw k \<noteq> [] \<and> (k, x) \<in> set ms then valueBody kw k else x, v)) ?ps =
      map (\<lambda>(k, x, v). (k, if kw k \<noteq> [] \<and> (k, x) \<in> set (m # ms) then valueBody kw k else x, v)) ps"
    by (auto simp: m revalue_def)
  finally show ?case .
qed

lemma smudgeLine_render:
  assumes "\<forall>k. plain (kw k)" "keywordLine u ps"
  shows "smudgeLine kw (renderLine u ps) = renderLine u (map (smudgePiece kw) ps)"
proof -
  have "findAll (renderLine u ps) = map (\<lambda>(k, x). (keywordText k x, k)) (map (\<lambda>(k, x, v). (k, x)) ps)"
    using findAll_render(1) [of u ps] assms(2) by (auto simp: keywordLine_def)
  moreover have ms: "\<forall>(k, x) \<in> set (map (\<lambda>(k, x, v). (k, x)) ps). k \<in> set Keywords \<and> keywordBody x"
    using assms(2) by (auto simp: keywordLine_def list_all_iff)
  ultimately have "smudgeLine kw (renderLine u ps) =
      renderLine u (map (\<lambda>(k, x, v). (k, if kw k \<noteq> [] \<and> (k, x) \<in> set (map (\<lambda>(k, x, v). (k, x)) ps) then valueBody kw k else x, v)) ps)"
    unfolding smudgeLine_def using smudge_fold [OF assms ms] by simp
  also have "map (\<lambda>(k, x, v). (k, if kw k \<noteq> [] \<and> (k, x) \<in> set (map (\<lambda>(k, x, v). (k, x)) ps) then valueBody kw k else x, v)) ps = map (smudgePiece kw) ps"
    by (force simp: smudgePiece_def)
  finally show ?thesis .
qed

lemma cleanLine_render:
  assumes "keywordLine u ps"
  shows "cleanLine (renderLine u ps) = renderLine u (map (\<lambda>(k, x, v). (k, [], v)) ps)"
  using assms findAll_render [of u ps] by (cases ps) (auto simp: cleanLine_def keywordLine_def)

text \<open>
  Property C8. In a line whose keywords are apart from each other and whose values have no
  dollar, smudging puts the value into every keyword that has one, and cleaning gives back what
  cleaning the line before had given: what is checked in does not depend on the values.
\<close>

theorem smudge_clean:
  assumes "\<forall>k. plain (kw k)" and "keywordLine u ps"
  shows "smudgeLine kw (renderLine u ps) = renderLine u (map (smudgePiece kw) ps) \<and>
    cleanLine (smudgeLine kw (renderLine u ps)) = cleanLine (renderLine u ps) \<and>
    smudgeLine kw (smudgeLine kw (renderLine u ps)) = smudgeLine kw (renderLine u ps)"
proof -
  have "keywordBody (valueBody kw k)" for k using assms(1) by (simp add: keywordBody_def valueBody_def plain_def)
  moreover have "aligned qs \<Longrightarrow> aligned (map (smudgePiece kw) qs)" for qs
    by (induction qs rule: aligned.induct) (auto simp: smudgePiece_def split: prod.splits)
  ultimately have line: "keywordLine u (map (smudgePiece kw) ps)"
    using assms(2) by (auto simp: keywordLine_def list_all_iff smudgePiece_def)
  have eqs: "map (\<lambda>(k, x, v). (k, [], v)) (map (smudgePiece kw) ps) = map (\<lambda>(k, x, v). (k, [], v)) ps"
    "map (smudgePiece kw) (map (smudgePiece kw) ps) = map (smudgePiece kw) ps"
    by (auto simp: smudgePiece_def)
  show ?thesis
    unfolding smudgeLine_render [OF assms] smudgeLine_render [OF assms(1) line] cleanLine_render [OF line] cleanLine_render [OF assms(2)]
    by (simp only: eqs simp_thms)
qed

theorem smudge_clean_witness:
  "let kw = (\<lambda>k. if k = ''Id'' then ''f 1'' else []) in
   smudgeLine kw ''a $Id$ b $Date: x$ $Id: old $'' = ''a $Id: f 1 $ b $Date: x$ $Id: f 1 $'' \<and>
   cleanLine (smudgeLine kw ''a $Id$ b $Date: x$ $Id: old $'') = ''a $Id$ b $Date$ $Id$''"
proof -
  let ?kw = "\<lambda>k. if k = ''Id'' then ''f 1'' else ([] :: string)"
  let ?ps = "[(''Id'', [], '' b ''), (''Date'', '': x'', '' ''), (''Id'', '': old '', [])]"
  have "\<forall>k. plain (?kw k)" by (simp add: plain_def)
  moreover have "keywordLine ''a '' ?ps"
  proof -
    have "matchHere ''$ b $'' = None" "matchHere ''$ $'' = None" by code_simp+
    then show ?thesis by (simp add: keywordLine_def plain_def keywordBody_def Keywords_def)
  qed
  ultimately have "smudgeLine ?kw (renderLine ''a '' ?ps) = renderLine ''a '' (map (smudgePiece ?kw) ?ps)"
    "cleanLine (smudgeLine ?kw (renderLine ''a '' ?ps)) = cleanLine (renderLine ''a '' ?ps)"
    using smudge_clean [of ?kw "''a ''" ?ps] by blast+
  moreover have "cleanLine (renderLine ''a '' ?ps) = ''a $Id$ b $Date$ $Id$''" by code_simp
  ultimately show ?thesis by (simp add: keywordText_def smudgePiece_def valueBody_def)
qed

text \<open>
  When the text between two dollars of different keywords looks like a keyword that occurs later
  in the line, the substitution hits it too, and the line is not cleaned to what it was.
\<close>

lemma smudge_misaligned:
  "let kw = (\<lambda>k. if k = ''Id'' then ''1'' else []) in
   cleanLine ''$Date$Id$ $Id$'' = ''$Date$Id$ $Id$'' \<and>
   cleanLine (smudgeLine kw ''$Date$Id$ $Id$'') \<noteq> ''$Date$Id$ $Id$''"
  by code_simp

text \<open>The address of a file is joined as a path, so the two slashes of a URL become one.\<close>

lemma keywordURL_one_slash: "Join [''https://h/r.git'', ''f''] = ''https:/h/r.git/f''"
  by code_simp

end
