(* ===== verification/Status.thy ===== *)
theory Status
  imports Repo_View "HOL-Library.List_Lexorder" "HOL-Library.Char_ord"
begin

text \<open>
  The status of a project (project/status.go, project/execute.go) and the colours of its lines
  (color/color.go). The parser reads the \<^verbatim>\<open>-z\<close> format of git's diff commands; the round trip
  states that every entry git can print is read back.
\<close>

section \<open>Colours (color/color.go)\<close>

definition colorMap :: "string \<rightharpoonup> int" where
  "colorMap = [''normal'' \<mapsto> -1, ''black'' \<mapsto> 0, ''red'' \<mapsto> 1, ''green'' \<mapsto> 2, ''yellow'' \<mapsto> 3, ''blue'' \<mapsto> 4,
     ''magenta'' \<mapsto> 5, ''cyan'' \<mapsto> 6, ''white'' \<mapsto> 7]"

definition attrMap :: "string \<rightharpoonup> int" where
  "attrMap = [''bold'' \<mapsto> 1, ''dim'' \<mapsto> 2, ''ul'' \<mapsto> 4, ''blink'' \<mapsto> 5, ''reverse'' \<mapsto> 7]"

definition mapping_get :: "(string \<rightharpoonup> int) \<Rightarrow> string \<Rightarrow> int" where
  "mapping_get m s = (case m s of None \<Rightarrow> -1 | Some n \<Rightarrow> n)"

text \<open>\<^verbatim>\<open>string('0' + rune(n))\<close> for the small numbers of the tables.\<close>

definition digitChar :: "int \<Rightarrow> string" where "digitChar n = [char_of (48 + nat n)]"

definition sgr :: "string \<Rightarrow> string \<Rightarrow> int \<Rightarrow> string" where
  "sgr code lead n =
     (if n \<ge> 0 then (if code \<noteq> [] then code @ '';'' else code) @
        (if n < 8 then lead @ digitChar n else lead @ ''8;5;'' @ digitChar n) else code)"

definition colorPrefix :: string where "colorPrefix = [CHR 0x1B] @ ''[''"

definition Color :: "bool \<Rightarrow> string \<Rightarrow> string \<Rightarrow> string \<Rightarrow> string" where
  "Color enabled fgColor bgColor attrVal =
     (if \<not> enabled then []
      else
        let fg = mapping_get colorMap fgColor; bg = mapping_get colorMap bgColor; attr = mapping_get attrMap attrVal in
        if attr \<ge> 0 \<or> fg \<ge> 0 \<or> bg \<ge> 0 then
          colorPrefix @ sgr (sgr (if attr \<ge> 0 then digitChar attr else []) ''3'' fg) ''4'' bg @ ''m''
        else [])"

definition Reset :: "bool \<Rightarrow> string" where "Reset enabled = (if enabled then colorPrefix @ ''m'' else [])"

section \<open>Commands and their results (project/execute.go)\<close>

text \<open>\<open>cr_Error\<close> is the error of a command with what it wrote to the standard error; a command that
  could not be started has no such text, and its message is shown instead.\<close>

datatype exec_error = ExitStatus string | NotRun string

record CmdExecResult =
  cr_Out :: string
  cr_Error :: "exec_error option"

definition CmdExecResult_Stderr :: "CmdExecResult \<Rightarrow> string" where
  "CmdExecResult_Stderr r = (case cr_Error r of None \<Rightarrow> [] | Some (ExitStatus t) \<Rightarrow> t | Some (NotRun e) \<Rightarrow> e)"

definition CmdExecResult_Empty :: "CmdExecResult \<Rightarrow> bool" where
  "CmdExecResult_Empty r \<longleftrightarrow> cr_Out r = [] \<and> CmdExecResult_Stderr r = []"

definition CmdExecResult_Success :: "CmdExecResult \<Rightarrow> bool" where
  "CmdExecResult_Success r \<longleftrightarrow> cr_Error r = None"

section \<open>Parsing (parseGitStatus)\<close>

record gitStatus =
  SrcMode :: string
  DestMode :: string
  SrcOID :: string
  DestOID :: string
  gs_Status :: string
  Level :: string
  SrcPath :: string
  gs_Path :: string

definition gitStatus0 :: gitStatus where
  "gitStatus0 = \<lparr>SrcMode = [], DestMode = [], SrcOID = [], DestOID = [], gs_Status = [], Level = [], SrcPath = [], gs_Path = []\<rparr>"

text \<open>The state of the loop: what is expected next and the entry being read.\<close>

record parser =
  wantMode :: bool
  wantPath :: bool
  wantTwoPath :: bool
  entry :: gitStatus

definition parser0 :: parser where
  "parser0 = \<lparr>wantMode = True, wantPath = False, wantTwoPath = False, entry = gitStatus0\<rparr>"

text \<open>The line of modes; \<open>None\<close> ends the loop with an error message.\<close>

definition parseModes :: "string \<Rightarrow> parser option result" where
  "parseModes buf =
     (if hd buf \<noteq> CHR '':'' then Inr None
      else
        let fields = StrSplit (tl buf) CHR '' '' in
        if length fields \<noteq> 5 then Inr None
        else
          let s = gitStatus0\<lparr>SrcMode := fields ! 0, DestMode := fields ! 1, SrcOID := fields ! 2, DestOID := fields ! 3,
                    gs_Status := fields ! 4\<rparr>
          in case fields ! 4 of
              [] \<Rightarrow> Inl (Panic ''index out of range'')
            | c # level \<Rightarrow>
                if c = CHR ''C'' \<or> c = CHR ''R''
                then Inr (Some \<lparr>wantMode = False, wantPath = True, wantTwoPath = True, entry = s\<lparr>Level := level, gs_Status := [c]\<rparr>\<rparr>)
                else Inr (Some \<lparr>wantMode = False, wantPath = True, wantTwoPath = False, entry = s\<rparr>))"

definition parsePath :: "parser \<Rightarrow> string \<Rightarrow> parser \<times> gitStatus option" where
  "parsePath p buf =
     (if wantPath p \<and> wantTwoPath p then (p\<lparr>wantPath := False, entry := (entry p)\<lparr>gs_Path := buf\<rparr>\<rparr>, None)
      else
        let p1 = (if wantPath p then p\<lparr>wantPath := False, wantMode := True, entry := (entry p)\<lparr>gs_Path := buf\<rparr>\<rparr> else p);
            p2 = (if wantTwoPath p1
                  then p1\<lparr>wantTwoPath := False, wantMode := True,
                         entry := (entry p1)\<lparr>SrcPath := gs_Path (entry p1), gs_Path := buf\<rparr>\<rparr>
                  else p1)
        in (p2, if wantMode p2 then Some (entry p2) else None))"

fun parseChunks :: "parser \<Rightarrow> string list \<Rightarrow> gitStatus list result" where
  "parseChunks p [] = Inr []"
| "parseChunks p (buf # rest) =
     (if buf = [] then Inr []
      else if wantMode p then
        bind_result (parseModes buf) (\<lambda>r. case r of None \<Rightarrow> Inr [] | Some p' \<Rightarrow> parseChunks p' rest)
      else
        let (p', s) = parsePath p buf in
        bind_result (parseChunks p' rest) (\<lambda>ss. Inr (case s of None \<Rightarrow> ss | Some x \<Rightarrow> x # ss)))"

definition parseGitStatus :: "string \<Rightarrow> gitStatus list result" where
  "parseGitStatus out = parseChunks parser0 (StrSplit out CHR 0x00)"

section \<open>Combining (combineGitStatus, Status)\<close>

definition lastByPath :: "gitStatus list \<Rightarrow> string \<rightharpoonup> gitStatus" where
  "lastByPath ss = foldl (\<lambda>m s. m(gs_Path s \<mapsto> s)) Map.empty ss"

definition statusKeys :: "gitStatus list \<Rightarrow> gitStatus list \<Rightarrow> string list \<Rightarrow> string list" where
  "statusKeys sti stf sto =
     map gs_Path sti @ filter (\<lambda>p. lastByPath sti p = None) (map gs_Path stf) @ sto"

definition statusLine :: "bool \<Rightarrow> (string \<rightharpoonup> gitStatus) \<Rightarrow> (string \<rightharpoonup> gitStatus) \<Rightarrow> string \<Rightarrow> string" where
  "statusLine enabled im fm p =
     (let i = im p; f = fm p;
          iStatus = (case i of None \<Rightarrow> ''-'' | Some s \<Rightarrow> ToUpper (gs_Status s));
          fStatus = (case f of None \<Rightarrow> ''-'' | Some s \<Rightarrow> ToLower (gs_Status s));
          line = (case i of
                    Some s \<Rightarrow> if SrcPath s \<noteq> []
                      then '' '' @ iStatus @ fStatus @ [CHR 0x09] @ SrcPath s @ '' => '' @ gs_Path s @ '' ('' @ Level s @ ''%)''
                      else '' '' @ iStatus @ fStatus @ [CHR 0x09] @ p
                  | None \<Rightarrow> '' '' @ iStatus @ fStatus @ [CHR 0x09] @ p)
      in Color enabled (if i \<noteq> None \<and> f = None then ''green'' else ''red'') [] [] @ line @ Reset enabled)"

definition combineGitStatus :: "bool \<Rightarrow> gitStatus list \<Rightarrow> gitStatus list \<Rightarrow> string list \<Rightarrow> string" where
  "combineGitStatus enabled sti stf sto =
     concat (map (\<lambda>p. statusLine enabled (lastByPath sti) (lastByPath stf) p @ [CHR 0x0A]) (sort (statusKeys sti stf sto)))"

definition joinErrors :: "CmdExecResult \<Rightarrow> CmdExecResult \<Rightarrow> exec_error option" where
  "joinErrors di df =
     (case (cr_Error di, cr_Error df) of
        (Some _, Some _) \<Rightarrow>
          (let e = CmdExecResult_Stderr di in
           Some (NotRun ((if e \<noteq> [] \<and> last e \<noteq> CHR 0x0A then e @ [CHR 0x0A] else e) @ CmdExecResult_Stderr df)))
      | (Some e, None) \<Rightarrow> Some e
      | (None, e) \<Rightarrow> e)"

text \<open>\<open>run\<close> gives the result of a git command in the project.\<close>

definition Status :: "bool \<Rightarrow> (string list \<Rightarrow> CmdExecResult) \<Rightarrow> machine \<Rightarrow> WorkProject \<Rightarrow> CmdExecResult result" where
  "Status enabled run mc v =
     (if IsRebaseInProgress mc v
      then Inr \<lparr>cr_Out = [], cr_Error = Some (NotRun ''prior sync failed; rebase still in progress'')\<rparr>
      else
        let di = run [''git'', ''diff-index'', ''-z'', ''-M'', ''--cached'', ''HEAD''];
            df = run [''git'', ''diff-files'', ''-z''];
            others = run [''git'', ''ls-files'', ''-z'', ''--others'', ''--exclude-standard'']
        in if CmdExecResult_Empty di \<and> CmdExecResult_Empty df \<and> CmdExecResult_Empty others
           then Inr \<lparr>cr_Out = [], cr_Error = None\<rparr>
           else bind_result (parseGitStatus (cr_Out di)) (\<lambda>sti.
                bind_result (parseGitStatus (cr_Out df)) (\<lambda>stf.
                  Inr \<lparr>cr_Out = combineGitStatus enabled sti stf (filter (\<lambda>n. n \<noteq> []) (StrSplit (cr_Out others) CHR 0x00)),
                       cr_Error = joinErrors di df\<rparr>)))"

section \<open>Every entry is read back\<close>

text \<open>What git prints for an entry: the line of modes, then one path, or two for a copy or a rename.\<close>

definition renamed :: "gitStatus \<Rightarrow> bool" where
  "renamed s \<longleftrightarrow> gs_Status s = ''C'' \<or> gs_Status s = ''R''"

definition printStatus :: "gitStatus \<Rightarrow> string list" where
  "printStatus s =
     ('':'' @ StrJoin [SrcMode s, DestMode s, SrcOID s, DestOID s, gs_Status s @ Level s] '' '') #
     (if renamed s then [SrcPath s, gs_Path s] else [gs_Path s])"

definition wf_status :: "gitStatus \<Rightarrow> bool" where
  "wf_status s \<longleftrightarrow> gs_Path s \<noteq> [] \<and>
     list_all (\<lambda>f. CHR '' '' \<notin> set f \<and> CHR 0x00 \<notin> set f) [SrcMode s, DestMode s, SrcOID s, DestOID s, gs_Status s, Level s] \<and>
     CHR 0x00 \<notin> set (gs_Path s) \<and> CHR 0x00 \<notin> set (SrcPath s) \<and>
     (if renamed s then SrcPath s \<noteq> []
      else SrcPath s = [] \<and> Level s = [] \<and> gs_Status s \<noteq> [] \<and> hd (gs_Status s) \<notin> {CHR ''C'', CHR ''R''})"

lemma StrSplit_terminated:
  "(\<forall>c \<in> set cs. z \<notin> set c) \<Longrightarrow> StrSplit (concat (map (\<lambda>c. c @ [z]) cs)) z = cs @ [[]]"
  by (induction cs) (simp_all add: StrSplit_append_sep StrSplit_single)

lemma modes_fields:
  assumes "list_all (\<lambda>f. CHR '' '' \<notin> set f) [a, b, c, d, e]"
  shows "StrSplit (StrJoin [a, b, c, d, e] '' '') CHR '' '' = [a, b, c, d, e]"
  using assms by (simp add: StrSplit_append_sep StrSplit_single)

lemma parseModes_print:
  assumes "wf_status s"
  shows "parseModes (hd (printStatus s)) =
     Inr (Some \<lparr>wantMode = False, wantPath = True, wantTwoPath = renamed s, entry = s\<lparr>SrcPath := [], gs_Path := []\<rparr>\<rparr>)"
proof -
  have fields: "StrSplit (StrJoin [SrcMode s, DestMode s, SrcOID s, DestOID s, gs_Status s @ Level s] '' '') CHR '' '' =
      [SrcMode s, DestMode s, SrcOID s, DestOID s, gs_Status s @ Level s]"
    using assms by (intro modes_fields) (simp add: wf_status_def)
  show ?thesis
  proof (cases "renamed s")
    case True
    then show ?thesis
      using fields by (cases s) (auto simp: parseModes_def printStatus_def renamed_def Let_def gitStatus0_def)
  next
    case False
    then obtain x xs where "gs_Status s = x # xs" "x \<noteq> CHR ''C''" "x \<noteq> CHR ''R''" "Level s = []"
      using assms by (cases "gs_Status s") (auto simp: wf_status_def)
    then show ?thesis
      using fields False by (cases s) (auto simp: parseModes_def printStatus_def renamed_def Let_def gitStatus0_def)
  qed
qed

lemma parseChunks_entry:
  assumes "wf_status s" and "wantMode p"
  shows "parseChunks p (printStatus s @ rest) =
     bind_result (parseChunks \<lparr>wantMode = True, wantPath = False, wantTwoPath = False, entry = s\<rparr> rest) (\<lambda>ss. Inr (s # ss))"
proof -
  obtain m where m: "printStatus s = m # (if renamed s then [SrcPath s, gs_Path s] else [gs_Path s])" "m \<noteq> []"
    by (simp add: printStatus_def)
  have modes: "parseModes m = Inr (Some \<lparr>wantMode = False, wantPath = True, wantTwoPath = renamed s, entry = s\<lparr>SrcPath := [], gs_Path := []\<rparr>\<rparr>)"
    using parseModes_print [OF assms(1)] m(1) by simp
  have paths: "\<not> renamed s \<Longrightarrow> SrcPath s = []" "renamed s \<Longrightarrow> SrcPath s \<noteq> []" "gs_Path s \<noteq> []"
    using assms(1) by (auto simp: wf_status_def split: if_splits)
  have same: "s\<lparr>SrcPath := SrcPath s, gs_Path := gs_Path s\<rparr> = s" "SrcPath s = [] \<Longrightarrow> s\<lparr>SrcPath := []\<rparr> = s"
    by (cases s; simp)+
  have assoc: "bind_result (bind_result r f) g = bind_result r (\<lambda>x. bind_result (f x) g)"
    for r :: "gitStatus list result" and f g :: "gitStatus list \<Rightarrow> gitStatus list result"
    by (cases r) simp_all
  show ?thesis
    using m modes paths same assms(2) by (cases "renamed s") (simp_all add: parsePath_def assoc)
qed

lemma parseChunks_entries:
  "(\<forall>s \<in> set ss. wf_status s) \<Longrightarrow> wantMode p \<Longrightarrow> parseChunks p (concat (map printStatus ss) @ [[]]) = Inr ss"
  by (induction ss arbitrary: p) (simp_all add: parseChunks_entry)

text \<open>
  Property C23. The parser of git's status output reads back every list of entries in the format
  git prints them, renames and copies with their two paths and similarity among them, as long as
  no field contains a separator and no path is empty.
\<close>

theorem parseGitStatus_roundtrip:
  assumes "\<forall>s \<in> set ss. wf_status s"
  shows "parseGitStatus (concat (map (\<lambda>c. c @ [CHR 0x00]) (concat (map printStatus ss)))) = Inr ss"
proof -
  have "\<forall>c \<in> set (concat (map printStatus ss)). CHR 0x00 \<notin> set c"
    using assms by (auto simp: printStatus_def wf_status_def)
  then show ?thesis
    using parseChunks_entries [OF assms, of parser0] by (simp add: parseGitStatus_def StrSplit_terminated parser0_def)
qed

definition sample_status :: "gitStatus list" where
  "sample_status = [\<lparr>SrcMode = ''1'', DestMode = ''2'', SrcOID = ''a'', DestOID = ''b'', gs_Status = ''R'', Level = ''98'', SrcPath = ''x y'', gs_Path = ''z''\<rparr>,
     \<lparr>SrcMode = ''1'', DestMode = ''1'', SrcOID = ''a'', DestOID = ''0'', gs_Status = ''M'', Level = [], SrcPath = [], gs_Path = ''q''\<rparr>]"

theorem parseGitStatus_roundtrip_witness:
  "parseGitStatus (concat (map (\<lambda>c. c @ [CHR 0x00]) (concat (map printStatus sample_status)))) = Inr sample_status"
proof -
  have "\<forall>s \<in> set sample_status. wf_status s" by code_simp
  then show ?thesis by (rule parseGitStatus_roundtrip)
qed

end
