(* ===== verification/Format_Box.thy ===== *)
theory Format_Box
  imports Utf8
begin

text \<open>
  Package format (format/format.go): the message box. Widths are counted in bytes where the
  code breaks lines and in runes where \<^verbatim>\<open>fmt\<close> pads them. \<open>Add\<close> takes string arguments and the
  verbs the code uses, \<^verbatim>\<open>%s\<close> and \<^verbatim>\<open>%v\<close>.
\<close>

section \<open>State and construction\<close>

record MessageBox =
  msgs :: "string list"
  maxWidth :: nat
  width :: nat
  leftC :: char
  rightC :: char
  topC :: char
  bottomC :: char
  topLeftC :: char
  topRightC :: char
  bottomLeftC :: char
  bottomRightC :: char

definition NewMessageBox :: "int \<Rightarrow> MessageBox" where
  "NewMessageBox maxW =
     \<lparr>msgs = [], maxWidth = nat (if 50 > maxW then 50 else maxW), width = 50,
      leftC = CHR ''|'', rightC = CHR ''|'', topC = CHR ''-'', bottomC = CHR ''-'',
      topLeftC = CHR ''+'', topRightC = CHR ''+'', bottomLeftC = CHR ''+'', bottomRightC = CHR ''+''\<rparr>"

definition set_borders :: "MessageBox \<Rightarrow> char \<Rightarrow> char \<Rightarrow> char \<Rightarrow> char \<Rightarrow> char \<Rightarrow> char \<Rightarrow> char \<Rightarrow> char \<Rightarrow> MessageBox" where
  "set_borders v l lt t tr r br b bl =
     v\<lparr>leftC := l, topLeftC := lt, topC := t, topRightC := tr, rightC := r,
       bottomRightC := br, bottomC := b, bottomLeftC := bl\<rparr>"

fun SetStyle :: "MessageBox \<Rightarrow> char list \<Rightarrow> MessageBox" where
  "SetStyle v [c] = set_borders v c c c c c c c c"
| "SetStyle v [l, t, r, b] = set_borders v l t t t r b b b"
| "SetStyle v [l, lt, t, tr, r, br, b, bl] = set_borders v l lt t tr r br b bl"
| "SetStyle v _ = set_borders v CHR ''*'' CHR ''*'' CHR ''*'' CHR ''*'' CHR ''*'' CHR ''*'' CHR ''*'' CHR ''*''"

section \<open>Adding text\<close>

text \<open>The inner loop: the position of the blank at which the line is broken, if there is one
  between the middle and the end of the first \<open>maxWidth\<close> bytes.\<close>

function breakAt :: "string \<Rightarrow> nat \<Rightarrow> nat \<Rightarrow> nat option" where
  "breakAt line m i =
     (if line ! i = CHR '' '' then Some i
      else if i \<le> m div 2 + 1 then None
      else breakAt line m (i - 1))"
  by pat_completeness auto
termination by (relation "measure (\<lambda>(_, _, i). i)") auto

declare breakAt.simps [simp del]

function addLine :: "MessageBox \<Rightarrow> string \<Rightarrow> MessageBox result" where
  "addLine v line =
     (if length line > maxWidth v then
        if maxWidth v = 0 then Inl (Panic ''index out of range'')
        else case breakAt line (maxWidth v) (maxWidth v - 1) of
          Some i \<Rightarrow>
            addLine (v\<lparr>msgs := msgs v @ [take i line], width := (if width v < i then i else width v)\<rparr>)
              (drop (i + 1) line)
        | None \<Rightarrow>
            addLine (v\<lparr>msgs := msgs v @ [take (maxWidth v) line], width := maxWidth v\<rparr>)
              (drop (maxWidth v) line)
      else Inr (v\<lparr>width := (if width v < length line then length line else width v),
                  msgs := msgs v @ [line]\<rparr>))"
  by pat_completeness auto
termination by (relation "measure (\<lambda>(_, line). length line)") auto

declare addLine.simps [simp del]

fun Sprintf :: "string \<Rightarrow> string list \<Rightarrow> string" where
  "Sprintf [] [] = []"
| "Sprintf [] (a # as) = ''%!(EXTRA '' @ StrJoin (map (\<lambda>x. ''string='' @ x) (a # as)) '', '' @ '')''"
| "Sprintf (c # f) as =
     (if c = CHR ''%'' then
        case f of [] \<Rightarrow> ''%!(NOVERB)'' @ Sprintf [] as
        | d # f' \<Rightarrow>
            if d = CHR ''%'' then CHR ''%'' # Sprintf f' as
            else case as of [] \<Rightarrow> ''%!'' @ [d] @ ''(MISSING)'' @ Sprintf f' []
              | a # as' \<Rightarrow> (if d = CHR ''s'' \<or> d = CHR ''v'' then a
                            else ''%!'' @ [d] @ ''(string='' @ a @ '')'') @ Sprintf f' as'
      else c # Sprintf f as)"

definition trimLine :: "string \<Rightarrow> string" where
  "trimLine = TrimRightIf (\<lambda>c. c = CHR '' '' \<or> c = CHR 0x09 \<or> c = CHR 0x0D)"

definition addMessage :: "string list \<Rightarrow> string" where
  "addMessage a = (case a of [] \<Rightarrow> [] | [m] \<Rightarrow> m | f # as \<Rightarrow> Sprintf f as)"

definition Add :: "MessageBox \<Rightarrow> string list \<Rightarrow> MessageBox result" where
  "Add v a = foldM_result addLine v (map trimLine (StrSplit (addMessage a) CHR 0x0A))"

section \<open>Drawing\<close>

definition padRight :: "nat \<Rightarrow> string \<Rightarrow> string" where
  "padRight n s = s @ replicate (n - RuneCount s) CHR '' ''"

definition drawBorder :: "char \<Rightarrow> char \<Rightarrow> char \<Rightarrow> nat \<Rightarrow> string" where
  "drawBorder l c r n = rune_of_byte l @ concat (replicate n (rune_of_byte c)) @ rune_of_byte r"

text \<open>The lines written, without their line feeds.\<close>

definition Draw :: "MessageBox \<Rightarrow> string list" where
  "Draw v =
     [drawBorder (topLeftC v) (topC v) (topRightC v) (width v + 2)] @
     map (\<lambda>line. rune_of_byte (leftC v) @ '' '' @ padRight (width v) line @ '' '' @ rune_of_byte (rightC v)) (msgs v) @
     [drawBorder (bottomLeftC v) (bottomC v) (bottomRightC v) (width v + 2)]"

section \<open>Invariant\<close>

definition box_inv :: "MessageBox \<Rightarrow> bool" where
  "box_inv v \<longleftrightarrow> 50 \<le> width v \<and> width v \<le> maxWidth v \<and> list_all (\<lambda>m. length m \<le> width v) (msgs v)"

lemma breakAt_Some: "breakAt line m i = Some j \<Longrightarrow> j \<le> i \<and> line ! j = CHR '' ''"
proof (induction line m i rule: breakAt.induct)
  case (1 line m i)
  then show ?case by (subst (asm) (2) breakAt.simps) (auto split: if_splits)
qed

lemma box_inv_New: "box_inv (NewMessageBox n)"
  by (auto simp: box_inv_def NewMessageBox_def)

text \<open>\<open>pieces line ps\<close>: the pieces are the line, cut either between two bytes or at a blank that
  is dropped.\<close>

fun pieces :: "string \<Rightarrow> string list \<Rightarrow> bool" where
  "pieces line [] \<longleftrightarrow> False"
| "pieces line [p] \<longleftrightarrow> line = p"
| "pieces line (p # ps) \<longleftrightarrow>
     take (length p) line = p \<and>
     (pieces (drop (length p) line) ps \<or>
      (\<exists>rest. drop (length p) line = CHR '' '' # rest \<and> pieces rest ps))"

lemma pieces_Cons:
  "ps \<noteq> [] \<Longrightarrow> pieces line (p # ps) \<longleftrightarrow>
     take (length p) line = p \<and>
     (pieces (drop (length p) line) ps \<or>
      (\<exists>rest. drop (length p) line = CHR '' '' # rest \<and> pieces rest ps))"
  by (cases ps) auto

definition style :: "MessageBox \<Rightarrow> char list" where
  "style v = [leftC v, topLeftC v, topC v, topRightC v, rightC v, bottomRightC v, bottomC v, bottomLeftC v]"

lemma addLine_spec:
  assumes "box_inv v"
  shows "\<exists>v' ps. addLine v line = Inr v' \<and> box_inv v' \<and> maxWidth v' = maxWidth v \<and>
           style v' = style v \<and> width v \<le> width v' \<and> msgs v' = msgs v @ ps \<and> pieces line ps"
  using assms
proof (induction v line rule: addLine.induct)
  case (1 v line)
  let ?m = "maxWidth v"
  have m: "50 \<le> ?m" using 1(3) by (simp add: box_inv_def)
  show ?case
  proof (cases "length line > ?m")
    case False
    let ?v = "v\<lparr>width := (if width v < length line then length line else width v), msgs := msgs v @ [line]\<rparr>"
    have "box_inv ?v" using False 1(3) by (fastforce simp: box_inv_def list_all_iff)
    with False show ?thesis
      by (intro exI [of _ ?v] exI [of _ "[line]"]) (simp add: addLine.simps style_def)
  next
    case long: True
    show ?thesis
    proof (cases "breakAt line ?m (?m - 1)")
      case None
      let ?v = "v\<lparr>msgs := msgs v @ [take ?m line], width := ?m\<rparr>"
      have inv: "box_inv ?v" using 1(3) by (fastforce simp: box_inv_def list_all_iff)
      obtain v' ps where *: "addLine ?v (drop ?m line) = Inr v'" "box_inv v'" "maxWidth v' = ?m"
        "style v' = style v" "?m \<le> width v'" "msgs v' = msgs v @ take ?m line # ps" "pieces (drop ?m line) ps"
        using 1(1) [OF long _ None inv] m by (auto simp: style_def)
      then have "pieces line (take ?m line # ps)" using long by (cases ps) auto
      then show ?thesis using * None long m 1(3)
        by (intro exI [of _ v'] exI [of _ "take ?m line # ps"])
          (auto simp: addLine.simps [of v] box_inv_def)
    next
      case (Some i)
      let ?w = "if width v < i then i else width v"
      let ?v = "v\<lparr>msgs := msgs v @ [take i line], width := ?w\<rparr>"
      have i: "i < ?m" "line ! i = CHR '' ''" using breakAt_Some [OF Some] m by auto
      have inv: "box_inv ?v" using 1(3) i by (fastforce simp: box_inv_def list_all_iff)
      obtain v' ps where *: "addLine ?v (drop (i + 1) line) = Inr v'" "box_inv v'" "maxWidth v' = ?m"
        "style v' = style v" "?w \<le> width v'" "msgs v' = msgs v @ take i line # ps"
        "pieces (drop (i + 1) line) ps"
        using 1(2) [OF long _ Some inv] m by (auto simp: style_def)
      have "drop i line = CHR '' '' # drop (i + 1) line"
        using i long by (metis Cons_nth_drop_Suc Suc_eq_plus1 order.strict_trans)
      then have "pieces line (take i line # ps)" using * i long by (cases ps) auto
      then show ?thesis using * Some long m
        by (intro exI [of _ v'] exI [of _ "take i line # ps"])
          (auto simp: addLine.simps [of v] split: if_splits)
    qed
  qed
qed

lemma Add_lines_spec:
  assumes "box_inv v"
  shows "\<exists>v' pss. foldM_result addLine v ls = Inr v' \<and> box_inv v' \<and> maxWidth v' = maxWidth v \<and>
           style v' = style v \<and> width v \<le> width v' \<and> msgs v' = msgs v @ concat pss \<and>
           list_all2 pieces ls pss"
  using assms
proof (induction ls arbitrary: v)
  case Nil
  then show ?case by auto
next
  case (Cons l ls)
  obtain v1 ps where 1: "addLine v l = Inr v1" "box_inv v1" "maxWidth v1 = maxWidth v"
    "style v1 = style v" "width v \<le> width v1" "msgs v1 = msgs v @ ps" "pieces l ps"
    using addLine_spec [OF Cons.prems] by blast
  obtain v' pss where 2: "foldM_result addLine v1 ls = Inr v'" "box_inv v'" "maxWidth v' = maxWidth v1"
    "style v' = style v1" "width v1 \<le> width v'" "msgs v' = msgs v1 @ concat pss"
    "list_all2 pieces ls pss"
    using Cons.IH [OF 1(2)] by blast
  show ?case using 1 2 by (intro exI [of _ v'] exI [of _ "ps # pss"]) auto
qed

text \<open>The states a client of the package can reach.\<close>

inductive box_reachable :: "MessageBox \<Rightarrow> bool" where
  br_new: "box_reachable (NewMessageBox n)"
| br_style: "box_reachable v \<Longrightarrow> box_reachable (SetStyle v pos)"
| br_add: "box_reachable v \<Longrightarrow> Add v a = Inr v' \<Longrightarrow> box_reachable v'"

lemma set_borders_fields [simp]:
  "msgs (set_borders v a b c d e f g h) = msgs v" "width (set_borders v a b c d e f g h) = width v"
  "maxWidth (set_borders v a b c d e f g h) = maxWidth v"
  by (simp_all add: set_borders_def)

lemma SetStyle_fields [simp]:
  "msgs (SetStyle v pos) = msgs v" "width (SetStyle v pos) = width v" "maxWidth (SetStyle v pos) = maxWidth v"
  by (induction v pos rule: SetStyle.induct) simp_all

lemma box_reachable_inv: "box_reachable v \<Longrightarrow> box_inv v"
proof (induction rule: box_reachable.induct)
  case (br_new n)
  then show ?case by (rule box_inv_New)
next
  case (br_style v pos)
  then show ?case by (simp add: box_inv_def)
next
  case (br_add v a v')
  from Add_lines_spec [OF br_add.IH] obtain v'' where "Add v a = Inr v''" "box_inv v''"
    unfolding Add_def by blast
  with br_add.hyps show ?case by simp
qed

text \<open>
  Property C38. Adding text to a box never fails, whatever the text: every line of the message is
  trimmed and cut into pieces no wider than the box may be, only a blank being dropped at a cut,
  and the pieces are appended in order to what the box held.
\<close>

theorem Add_preserves_text:
  assumes "box_reachable v"
  shows "\<exists>v' pss. Add v a = Inr v' \<and> msgs v' = msgs v @ concat pss \<and>
     list_all2 pieces (map trimLine (StrSplit (addMessage a) CHR 0x0A)) pss \<and>
     list_all (\<lambda>m. length m \<le> width v') (msgs v') \<and>
     width v \<le> width v' \<and> width v' \<le> maxWidth v"
proof -
  obtain v' pss where "Add v a = Inr v'" "box_inv v'" "maxWidth v' = maxWidth v" "width v \<le> width v'"
    "msgs v' = msgs v @ concat pss" "list_all2 pieces (map trimLine (StrSplit (addMessage a) CHR 0x0A)) pss"
    using Add_lines_spec [OF box_reachable_inv [OF assms]] unfolding Add_def by blast
  then show ?thesis by (intro exI [of _ v'] exI [of _ pss]) (simp add: box_inv_def)
qed

theorem Add_preserves_text_witness:
  "\<exists>v' pss. Add (NewMessageBox 0) [''see %s'', replicate 60 CHR ''x''] = Inr v' \<and> msgs v' = concat pss \<and>
     list_all2 pieces [''see '' @ replicate 60 CHR ''x''] pss \<and> width v' \<le> 50"
proof -
  have "map trimLine (StrSplit (addMessage [''see %s'', replicate 60 CHR ''x'']) CHR 0x0A) =
      [''see '' @ replicate 60 CHR ''x'']" "msgs (NewMessageBox 0) = []" "maxWidth (NewMessageBox 0) = 50"
    by code_simp+
  then show ?thesis
    using Add_preserves_text [OF br_new [of 0], of "[''see %s'', replicate 60 CHR ''x'']"] by auto
qed

section \<open>The drawing\<close>

lemma drawBorder_length:
  "ascii [l, c, r] \<Longrightarrow> length (drawBorder l c r n) = n + 2"
  by (simp add: drawBorder_def rune_of_byte_def length_concat sum_list_replicate)

lemma padRight_length: "ascii s \<Longrightarrow> length s \<le> n \<Longrightarrow> length (padRight n s) = n"
  by (simp add: padRight_def RuneCount_ascii)

text \<open>
  What \<open>Draw\<close> writes for a box of ASCII text and style is a rectangle: two borders
  and one line per piece of text, all of the width of the box plus four, and the text stands in
  its line after the left border and a blank, padded with blanks.
\<close>

theorem Draw_rectangle:
  assumes "box_reachable v" and "list_all ascii (msgs v)" and "ascii (style v)"
  shows "length (Draw v) = length (msgs v) + 2 \<and>
     list_all (\<lambda>l. length l = width v + 4) (Draw v) \<and>
     (\<forall>i < length (msgs v). \<exists>n. Draw v ! Suc i = [leftC v, CHR '' ''] @ msgs v ! i @ replicate n CHR '' '' @ [rightC v])"
proof -
  have inv: "box_inv v" using assms(1) by (rule box_reachable_inv)
  have "list_all (\<lambda>l. length l = width v + 4) (Draw v)"
    using inv assms(2,3)
    by (auto simp: Draw_def list_all_iff box_inv_def drawBorder_length padRight_length style_def rune_of_byte_def)
  moreover have "\<exists>n. Draw v ! Suc i = [leftC v, CHR '' ''] @ msgs v ! i @ replicate n CHR '' '' @ [rightC v]"
    if "i < length (msgs v)" for i
    using that assms(3)
    by (intro exI [of _ "width v - RuneCount (msgs v ! i) + 1"])
      (simp add: Draw_def nth_append padRight_def rune_of_byte_def style_def replicate_append_same)
  ultimately show ?thesis by (simp add: Draw_def)
qed

theorem Draw_rectangle_witness:
  "list_all (\<lambda>l. length l = 54) (Draw (SetStyle (NewMessageBox 80) ''#''))"
proof -
  have "box_reachable (SetStyle (NewMessageBox 80) ''#'')" by (intro box_reachable.intros)
  moreover have "list_all ascii (msgs (SetStyle (NewMessageBox 80) ''#''))"
    "ascii (style (SetStyle (NewMessageBox 80) ''#''))" "width (SetStyle (NewMessageBox 80) ''#'') = 50"
    by code_simp+
  ultimately show ?thesis using Draw_rectangle [of "SetStyle (NewMessageBox 80) ''#''"] by simp
qed

end
