(* ===== verification/SSH_Info_Proofs.thy ===== *)
theory SSH_Info_Proofs
  imports SSH_Info
begin

text \<open>
  Properties of the ssh information: what validation guarantees, that the query returns, that the
  package's cache answers repeated queries and how long the cache file does.
\<close>

section \<open>Validation\<close>

abbreviation alnum :: "char \<Rightarrow> bool" where
  "alnum c \<equiv> isDigit c \<or> isLetter c"

definition safe_name :: "string \<Rightarrow> string \<Rightarrow> bool" where
  "safe_name extra s \<longleftrightarrow> s = [] \<or> (alnum (hd s) \<and> list_all (\<lambda>c. alnum c \<or> c \<in> set extra) (tl s))"

lemma first_then_rest:
  "MatchString (RSeq (RCls P) (RStar g Q)) s \<longleftrightarrow> s \<noteq> [] \<and> P (hd s) \<and> list_all Q (tl s)"
proof (cases s)
  case Nil
  then show ?thesis by (simp add: MatchString_iff)
next
  case (Cons a t)
  then have "(\<exists>u v. s = u @ v \<and> (\<exists>x. u = [x] \<and> P x) \<and> list_all Q v) \<longleftrightarrow> P a \<and> list_all Q t"
    by (fastforce intro: exI [of _ "[a]"])
  with Cons show ?thesis by (simp add: MatchString_iff)
qed

lemma Validate_safe:
  "Validate v = Inr i \<Longrightarrow> i = v \<and> safe_name ''.-'' (si_Host i) \<and> safe_name ''._-'' (si_User i)"
  by (auto simp: Validate_def hostnamePattern_def usernamePattern_def first_then_rest safe_name_def
      split: if_splits)

text \<open>
  Property C36. Information accepted from a server names a host and a user that are empty or begin
  with a letter or digit and go on with letters, digits, dots, dashes and, for the user,
  underscores. So neither can be taken for an option of the ssh program, and no macro such as
  \<open>{email}\<close> gets through in the user name.
\<close>

theorem sshInfoFromString_safe:
  assumes "sshInfoFromString env d = Inr i"
  shows "safe_name ''.-'' (si_Host i) \<and> safe_name ''._-'' (si_User i)"
  using assms
  by (auto simp: sshInfoFromString_def Let_def SSHInfo0_def safe_name_def [of _ "[]"] result_simps
      dest: Validate_safe split: if_splits)

definition sample_info :: SSHInfo where
  "sample_info = SSHInfo0\<lparr>si_Host := ''r.e'', si_Port := 29, ProtoType := ''gerrit''\<rparr>"

definition sample_env :: ssh_env where
  "sample_env = \<lparr>se_Getenv = (\<lambda>_. []), se_GitConfig = (\<lambda>_. []), se_RunOK = (\<lambda>_. True),
     se_Output = (\<lambda>_. Inl ''no ssh''), se_HTTP = (\<lambda>_ _. Response 200 ''r.e 29''),
     se_Unmarshal = (\<lambda>d. if d = ''J'' then Inr sample_info else Inl ''no JSON''),
     se_Marshal = (\<lambda>_. ''J''), se_MockResponse = [], se_MockStatus = 0,
     se_Now = 1000, se_ZoneOffset = 28800, se_ParseTime = (\<lambda>s. if s = ''t'' then Some 73000 else None),
     se_FormatTime = (\<lambda>t. if t = 73000 then ''t'' else ''u'')\<rparr>"

theorem sshInfoFromString_safe_witness:
  "\<exists>i. sshInfoFromString sample_env ''r.e 29'' = Inr i \<and> safe_name ''.-'' (si_Host i) \<and> safe_name ''._-'' (si_User i)"
proof -
  have "case sshInfoFromString sample_env ''r.e 29'' of Inr i \<Rightarrow> True | _ \<Rightarrow> False" by code_simp
  then obtain i where s: "sshInfoFromString sample_env ''r.e 29'' = Inr i" by (auto split: sum.splits)
  from s sshInfoFromString_safe [OF s] show ?thesis by blast
qed

section \<open>Which addresses parse\<close>

lemmas pattern_defs = GitHTTPProtocolPattern_def GitSSHProtocolPattern_def GitDaemonProtocolPattern_def
  GitFileProtocolPattern_def GitSCPProtocolPattern_def

text \<open>A host name without a slash is a valid http address once the scheme is put in front.\<close>

lemma http_pattern_host:
  assumes "h \<noteq> []" and "CHR ''/'' \<notin> set h" and "p = ''http'' \<or> p = ''https''"
  shows "\<exists>m. parses GitHTTPProtocolPattern (p @ ''://'' @ h) m"
proof -
  have "parses (RGrp ''proto'' (RAlt (RLit ''http'') (RLit ''https''))) p [(''proto'', p)]"
    using assms(3) by auto
  moreover have "parses (RLit ''://'') ''://'' []" by simp
  moreover have "parses re_user [] []" "parses re_port [] []"
    "parses (ROpt (RSeq (RLit ''/'') (RSeq re_repo (RSeq re_dotgit re_slash)))) [] []"
    by (simp_all del: parses.simps(5))
  moreover have "parses re_host h [(''host'', h)]"
    using assms(1,2) by (auto simp: none_of_def list_all_iff)
  ultimately have "parses GitHTTPProtocolPattern (p @ ''://'' @ [] @ h @ [] @ []) ((((([] @ []) @ [(''host'', h)]) @ []) @ []) @ [(''proto'', p)])"
    unfolding GitHTTPProtocolPattern_def by (intro parses_seq)
  then show ?thesis by simp blast
qed

lemma http_host_parses:
  assumes "h \<noteq> []" and "CHR ''/'' \<notin> set h" and "p = ''http'' \<or> p = ''https''"
  shows "\<exists>u. ParseGitURL (p @ ''://'' @ h) = Some u \<and> IsHTTP u"
proof -
  obtain m where m: "FindSubmatch GitHTTPProtocolPattern (p @ ''://'' @ h) = Some m"
    using http_pattern_host [OF assms] FindSubmatch_None by (metis not_None_eq)
  have "grp ''proto'' GitHTTPProtocolPattern (capture m ''proto'')"
    by (rule capture_grp [OF FindSubmatch_parses [OF m]]) (simp add: GitHTTPProtocolPattern_def)
  then have "capture m ''proto'' = ''http'' \<or> capture m ''proto'' = ''https''"
    by (auto simp: GitHTTPProtocolPattern_def)
  with m show ?thesis
    by (auto simp: ParseGitURL_def getMatchedGitURL_def IsHTTP_def)
qed

text \<open>The host of an ssh address.\<close>

lemma matched_parses:
  "getMatchedGitURL re s = Some u \<Longrightarrow> \<exists>m. parses re s m \<and> Proto u = capture m ''proto'' \<and> Host u = capture m ''host''"
  by (auto simp: getMatchedGitURL_def dest!: FindSubmatch_parses split: option.splits)

lemma matched_host:
  "getMatchedGitURL re s = Some u \<Longrightarrow> always ''host'' re \<Longrightarrow> grp ''host'' re (Host u)"
  using capture_grp by (fastforce dest!: matched_parses)

lemma matched_proto:
  "getMatchedGitURL re s = Some u \<Longrightarrow> Proto u = [] \<or> grp ''proto'' re (Proto u)"
  using capture_grp_or by (fastforce dest!: matched_parses)

lemma ParseGitURL_cases:
  assumes "ParseGitURL s = Some u"
  obtains (network) re where "re \<in> {GitHTTPProtocolPattern, GitSSHProtocolPattern, GitDaemonProtocolPattern}"
      "getMatchedGitURL re s = Some u"
  | (local_file) u' where "getMatchedGitURL GitFileProtocolPattern s = Some u'"
      "u = (if Proto u' = [] then u'\<lparr>Proto := ''file''\<rparr> else u')"
  | (scp) u' where "getMatchedGitURL GitSCPProtocolPattern s = Some u'"
      "u = (if Proto u' = [] then u'\<lparr>Proto := ''ssh''\<rparr> else u')"
  | (absolute) "IsAbs s" "Proto u = ''local''"
  using assms by (auto simp: ParseGitURL_def split: option.splits if_splits)

lemma ssh_host:
  assumes "ParseGitURL s = Some u" and "IsSSH u"
  shows "Host u \<noteq> [] \<and> CHR ''/'' \<notin> set (Host u)"
  using assms(1)
proof (cases rule: ParseGitURL_cases)
  case (network re)
  then show ?thesis using matched_host [of re s u]
    by (auto simp: pattern_defs none_of_def list_all_iff)
next
  case (local_file u')
  then have "Proto u' = [] \<or> Proto u' = ''file''"
    using matched_proto [of GitFileProtocolPattern s u'] by (auto simp: GitFileProtocolPattern_def)
  with local_file assms(2) show ?thesis by (auto simp: IsSSH_def)
next
  case (scp u')
  then show ?thesis using matched_host [of GitSCPProtocolPattern s u']
    by (auto simp: GitSCPProtocolPattern_def none_of_def list_all_iff)
next
  case absolute
  with assms(2) show ?thesis by (simp add: IsSSH_def)
qed

lemma slashless_address:
  assumes "ParseGitURL s = Some u" and "CHR ''/'' \<notin> set s" and "s \<noteq> []"
  shows "IsSSH u \<and> CHR '':'' \<notin> set (Host u) \<and> CHR '':'' \<in> set s"
  using assms(1)
proof (cases rule: ParseGitURL_cases)
  case (network re)
  then show ?thesis using assms(2) by (auto simp: pattern_defs dest!: matched_parses)
next
  case (local_file u')
  then show ?thesis using assms(2,3) by (auto simp: GitFileProtocolPattern_def dest!: matched_parses)
next
  case (scp u')
  then have "Proto u' = []" "CHR '':'' \<notin> set (Host u')"
    using matched_proto [of GitSCPProtocolPattern s u'] matched_host [of GitSCPProtocolPattern s u']
    by (auto simp: GitSCPProtocolPattern_def none_of_def list_all_iff)
  moreover have "CHR '':'' \<in> set s"
    using scp by (auto simp: GitSCPProtocolPattern_def dest!: matched_parses)
  ultimately show ?thesis using scp by (simp add: IsSSH_def)
next
  case absolute
  with assms(2,3) show ?thesis by (cases s) (auto simp: IsAbs_def)
qed

section \<open>The query returns\<close>

lemma sshInfoFromCommand_returns:
  "(\<exists>r. q (Host url) = Some r) \<Longrightarrow> \<exists>r. sshInfoFromCommand env q url = Some r"
  by (auto simp: sshInfoFromCommand_def split: sum.splits)

text \<open>One unfolding: the recursive calls that have to return.\<close>

lemma querySSHInfo_returns:
  assumes "\<And>t. t = TrimPrefix address ''persistent-'' \<Longrightarrow> t \<noteq> [] \<Longrightarrow> ParseGitURL t = None \<Longrightarrow>
      (\<exists>r. querySSHInfo n env (''https://'' @ t) = Some r) \<and> (\<exists>r. querySSHInfo n env (''http://'' @ t) = Some r)"
    and "\<And>t u. t = TrimPrefix address ''persistent-'' \<Longrightarrow> t \<noteq> [] \<Longrightarrow> ParseGitURL t = Some u \<Longrightarrow> IsSSH u \<Longrightarrow>
      \<exists>r. querySSHInfo n env (Host u) = Some r"
  shows "\<exists>r. querySSHInfo (Suc n) env address = Some r"
proof -
  let ?t = "TrimPrefix address ''persistent-''"
  show ?thesis
  proof (cases "ParseGitURL ?t")
    case None
    then show ?thesis using assms(1) [OF refl]
      by (cases "?t = []") (auto simp: Let_def simp del: TrimPrefix_append)
  next
    case (Some u)
    then show ?thesis
      using assms(2) [OF refl] sshInfoFromCommand_returns [of "querySSHInfo n env" u env]
      by (cases "?t = []") (auto simp: Let_def)
  qed
qed

lemma scheme_query_returns:
  assumes "h \<noteq> []" and "CHR ''/'' \<notin> set h" and "p = ''http'' \<or> p = ''https''"
  shows "\<exists>r. querySSHInfo (Suc n) env (p @ ''://'' @ h) = Some r"
proof (rule querySSHInfo_returns)
  have t: "TrimPrefix (p @ ''://'' @ h) ''persistent-'' = p @ ''://'' @ h"
    using assms(3) by (intro TrimPrefix_no) (auto simp: HasPrefix_def)
  obtain u where u: "ParseGitURL (p @ ''://'' @ h) = Some u" "IsHTTP u"
    using http_host_parses [OF assms] by blast
  fix t
  assume "t = TrimPrefix (p @ ''://'' @ h) ''persistent-''"
  then have [simp]: "t = p @ ''://'' @ h" using t by simp
  show "(\<exists>r. querySSHInfo n env (''https://'' @ t) = Some r) \<and> (\<exists>r. querySSHInfo n env (''http://'' @ t) = Some r)"
    if "ParseGitURL t = None" using that u by simp
  show "\<exists>r. querySSHInfo n env (Host v) = Some r" if "ParseGitURL t = Some v" "IsSSH v" for v
    using that u by (auto simp: IsSSH_def IsHTTP_def)
qed

lemma TrimPrefix_subset: "set (TrimPrefix s p) \<subseteq> set s"
  by (auto simp: TrimPrefix_def dest: in_set_dropD)

lemma host_query_returns:
  assumes "CHR ''/'' \<notin> set h" and "CHR '':'' \<notin> set h \<or> n > 0"
  shows "\<exists>r. querySSHInfo (Suc (Suc n)) env h = Some r"
  using assms
proof (induction n arbitrary: h)
  case 0
  show ?case
  proof (rule querySSHInfo_returns)
    fix t assume t: "t = TrimPrefix h ''persistent-''" "t \<noteq> []"
    then have sl: "CHR ''/'' \<notin> set t" "CHR '':'' \<notin> set t" using 0 TrimPrefix_subset [of h] by auto
    show "(\<exists>r. querySSHInfo (Suc 0) env (''https://'' @ t) = Some r) \<and> (\<exists>r. querySSHInfo (Suc 0) env (''http://'' @ t) = Some r)"
      using scheme_query_returns [OF t(2) sl(1), of "''https''" 0 env] scheme_query_returns [OF t(2) sl(1), of "''http''" 0 env] by simp
    show "\<exists>r. querySSHInfo (Suc 0) env (Host u) = Some r" if "ParseGitURL t = Some u" for u
      using slashless_address [OF that sl(1) t(2)] sl(2) by simp
  qed
next
  case (Suc n)
  show ?case
  proof (rule querySSHInfo_returns)
    fix t assume t: "t = TrimPrefix h ''persistent-''" "t \<noteq> []"
    then have sl: "CHR ''/'' \<notin> set t" using Suc.prems TrimPrefix_subset [of h] by auto
    show "(\<exists>r. querySSHInfo (Suc (Suc n)) env (''https://'' @ t) = Some r) \<and> (\<exists>r. querySSHInfo (Suc (Suc n)) env (''http://'' @ t) = Some r)"
      using scheme_query_returns [OF t(2) sl, of "''https''" "Suc n" env] scheme_query_returns [OF t(2) sl, of "''http''" "Suc n" env] by simp
    show "\<exists>r. querySSHInfo (Suc (Suc n)) env (Host u) = Some r" if "ParseGitURL t = Some u" "IsSSH u" for u
      using Suc.IH [of "Host u"] slashless_address [OF that(1) sl t(2)] ssh_host [OF that] by simp
  qed
qed

text \<open>
  Property C35. The query of ssh information returns: for every address that parses (without its
  \<open>persistent-\<close> prefix), four nested calls are enough, whatever the environment and the servers
  answer. An ssh address falls back to its host, at most twice, and a host is looked up under
  https and http, where no further call follows.
\<close>

theorem querySSHInfo_terminates:
  assumes "ParseGitURL (TrimPrefix address ''persistent-'') = Some url" and "4 \<le> fuel"
  shows "\<exists>r. querySSHInfo fuel env address = Some r"
proof -
  obtain n where fuel: "fuel = Suc (Suc (Suc (Suc n)))"
    using assms(2) by (intro that [of "fuel - 4"]) simp
  show ?thesis unfolding fuel
  proof (rule querySSHInfo_returns)
    show "\<exists>r. querySSHInfo (Suc (Suc (Suc n))) env (Host u) = Some r"
      if "t = TrimPrefix address ''persistent-''" "ParseGitURL t = Some u" "IsSSH u" for t u
      using host_query_returns [of "Host u" "Suc n" env] ssh_host [OF that(2,3)] by simp
  qed (use assms(1) in auto)
qed

theorem querySSHInfo_terminates_witness:
  "\<exists>r. querySSHInfo 4 sample_env ''ssh://a/b'' = Some r"
proof -
  have "TrimPrefix ''ssh://a/b'' ''persistent-'' = ''ssh://a/b''" by code_simp
  moreover have "\<exists>url. ParseGitURL ''ssh://a/b'' = Some url"
  proof -
    have "ParseGitURL ''ssh://a/b'' \<noteq> None" by code_simp
    then show ?thesis by blast
  qed
  ultimately show ?thesis using querySSHInfo_terminates [of "''ssh://a/b''" _ 4 sample_env] by fastforce
qed

section \<open>The caches\<close>

text \<open>What the cache relies on: the JSON codec gives the information back, and a time printed with
  the layout is read back.\<close>

definition codec_ok :: "ssh_env \<Rightarrow> SSHInfo \<Rightarrow> bool" where
  "codec_ok env i \<longleftrightarrow> se_Marshal env i \<noteq> [] \<and> se_Unmarshal env (se_Marshal env i) = Inr i"

definition clock_ok :: "ssh_env \<Rightarrow> bool" where
  "clock_ok env \<longleftrightarrow>
     (let t = se_Now env + sshInfoCacheDefaultExpire + se_ZoneOffset env in
      se_FormatTime env t \<noteq> [] \<and> se_ParseTime env (se_FormatTime env t) = Some t)"

lemma cache_keys_differ: "sshInfoKey k \<noteq> expireKey k'"
proof
  assume "sshInfoKey k = expireKey k'"
  then have "last (sshInfoKey k) = last (expireKey k')" by (rule arg_cong)
  then show False by (simp add: sshInfoKey_def expireKey_def)
qed

lemma cacheLookup_stored:
  assumes "codec_ok env i" "clock_ok env" "ProtoType i \<noteq> []"
  shows "cacheLookup (env\<lparr>se_Now := later\<rparr>)
      (c(sshInfoKey key \<mapsto> se_Marshal env i,
         expireKey key \<mapsto> se_FormatTime env (se_Now env + sshInfoCacheDefaultExpire + se_ZoneOffset env))) key =
    (if later < se_Now env + sshInfoCacheDefaultExpire + se_ZoneOffset env then Some i else None)"
  using assms cache_keys_differ
  by (simp add: cacheLookup_def cfgGet_def codec_ok_def clock_ok_def Let_def)

text \<open>
  How long the cache file answers. After a query that reached the server, a new
  process with the same cache file and a later clock gets the same information without any query
  (even with no fuel) exactly as long as its clock is before the time of the query plus twelve
  hours plus the offset of the local time zone: the expiry time is printed in local time and read
  as UTC, so the twelve hours meant hold only in the zone of UTC.
\<close>

theorem GetSSHInfo_cache_lifetime:
  assumes "GetSSHInfo fuel env v address False = Some (v', Inr i)"
    and "internalCache v (urlToKey address) = None" and "CacheFile v \<noteq> []" and "cfg v = Some c"
    and "codec_ok env i" and "clock_ok env" and "ProtoType i \<noteq> []"
  shows "GetSSHInfo 0 (env\<lparr>se_Now := later\<rparr>) (NewSSHInfoQuery (\<lambda>_. saved v') Map.empty (CacheFile v)) address True =
      (if later < se_Now env + 43200 + se_ZoneOffset env
       then Some (NewSSHInfoQuery (\<lambda>_. saved v') Map.empty (CacheFile v), Inr i) else None)"
proof -
  let ?key = "urlToKey address"
  let ?t = "se_Now env + sshInfoCacheDefaultExpire + se_ZoneOffset env"
  have key: "?key \<noteq> []" and q: "querySSHInfo fuel env address = Some (Inr i)"
    using assms(1,2) by (auto simp: GetSSHInfo_def Let_def split: if_splits option.splits sum.splits go_error.splits)
  have "saved v' = Some (c(sshInfoKey ?key \<mapsto> se_Marshal env i, expireKey ?key \<mapsto> se_FormatTime env ?t))"
    using assms(1-4) key q by (auto simp: GetSSHInfo_def cacheStore_def Let_def)
  then show ?thesis
    using cacheLookup_stored [OF assms(5-7), of later c ?key] key assms(3)
    by (simp add: GetSSHInfo_def NewSSHInfoQuery_def Let_def sshInfoCacheDefaultExpire_def)
qed

lemma sample_query:
  "\<exists>v'. GetSSHInfo 4 sample_env (NewSSHInfoQuery load Map.empty f) ''http://r/x'' False = Some (v', Inr sample_info)"
proof -
  have "querySSHInfo 4 sample_env ''http://r/x'' = Some (Inr sample_info)" "urlToKey ''http://r/x'' \<noteq> []"
    by code_simp+
  then show ?thesis by (simp add: GetSSHInfo_def NewSSHInfoQuery_def Let_def)
qed

theorem GetSSHInfo_cache_lifetime_witness:
  "\<exists>v. GetSSHInfo 0 (sample_env\<lparr>se_Now := 60000\<rparr>) v ''http://r/x'' True = Some (v, Inr sample_info)"
proof -
  let ?v = "NewSSHInfoQuery (\<lambda>_. None) Map.empty ''f''"
  obtain v' where 1: "GetSSHInfo 4 sample_env ?v ''http://r/x'' False = Some (v', Inr sample_info)"
    using sample_query by blast
  have 2: "codec_ok sample_env sample_info" "clock_ok sample_env" "ProtoType sample_info \<noteq> []"
    by code_simp+
  have 3: "internalCache ?v k = None" "CacheFile ?v \<noteq> []" "cfg ?v = Some Map.empty" for k
    by (simp_all add: NewSSHInfoQuery_def)
  have "60000 < se_Now sample_env + 43200 + se_ZoneOffset sample_env" by code_simp
  then show ?thesis using GetSSHInfo_cache_lifetime [OF 1 3 2, of 60000] by auto
qed

definition returned :: "'a result \<Rightarrow> bool" where
  "returned r \<longleftrightarrow> (case r of Inl (Fatal _) \<Rightarrow> False | Inl (Panic _) \<Rightarrow> False | _ \<Rightarrow> True)"

text \<open>
  Within a process an address is queried once. After a call that did not use the
  cache file has returned a value or an error, every later call for an address with the same key
  returns the same value or error, without a query and whatever has changed outside.
\<close>

theorem GetSSHInfo_memo:
  assumes "GetSSHInfo fuel env v address False = Some (v', r)" and "urlToKey address \<noteq> []"
    and "returned r"
    and "urlToKey address' = urlToKey address"
  shows "GetSSHInfo 0 env' v' address' useCache = Some (v', r)"
proof -
  have "internalCache v' (urlToKey address) = Some r"
    using assms(1-3)
    by (auto simp: GetSSHInfo_def cacheStore_def Let_def returned_def split: if_splits option.splits sum.splits go_error.splits)
  then show ?thesis using assms(2,4) by (simp add: GetSSHInfo_def)
qed

theorem GetSSHInfo_memo_witness:
  "\<exists>v'. GetSSHInfo 0 (sample_env\<lparr>se_HTTP := (\<lambda>_ _. NoResponse ''down'')\<rparr>) v' ''http://r/y'' True = Some (v', Inr sample_info)"
proof -
  let ?v = "NewSSHInfoQuery (\<lambda>_. None) Map.empty []"
  obtain v' where 1: "GetSSHInfo 4 sample_env ?v ''http://r/x'' False = Some (v', Inr sample_info)"
    using sample_query by blast
  have "urlToKey ''http://r/x'' \<noteq> []" "urlToKey ''http://r/y'' = urlToKey ''http://r/x''" by code_simp+
  then show ?thesis using GetSSHInfo_memo [OF 1] by (fastforce simp: returned_def)
qed

end
