(* ===== verification/Proto_Proofs.thy ===== *)
theory Proto_Proofs
  imports Proto
begin

text \<open>
  Properties of the review protocols: an upload is always a push for review, the text an AGit
  upload sends is safe on a command line, and the references downloads use.
\<close>

section \<open>Uploads\<close>

text \<open>
  What the callers of a protocol helper rely on: the command is a \<^verbatim>\<open>git push\<close> whose last two
  words are the remote and a reference specification from the local branch (or \<open>HEAD\<close>) to a
  reference of the review name space, or to a branch together with the option that names the
  review to be changed.
\<close>

definition review_target :: "UploadOptions \<Rightarrow> string list \<Rightarrow> string \<Rightarrow> bool" where
  "review_target uo opts dst \<longleftrightarrow>
     HasPrefix dst ''refs/for/'' \<or> HasPrefix dst ''refs/drafts/'' \<or> HasPrefix dst ''refs/for-review/'' \<or>
     (HasPrefix dst ''refs/heads/'' \<and> \<not> CodeReview_Empty (uo_CodeReview uo) \<and>
      ''review='' @ cr_ID (uo_CodeReview uo) \<in> set opts)"

definition review_command :: "UploadOptions \<Rightarrow> GitPushCommand \<Rightarrow> bool" where
  "review_command uo c \<longleftrightarrow>
     gp_Cmd c = ''git'' \<and>
     (\<exists>opts dst. gp_Args c = [''push''] @ opts @
          [remoteArg uo, sourceRef (TrimPrefix (LocalBranch uo) RefsHeads) @ '':'' @ dst] \<and>
        review_target uo opts dst)"

locale review_protocol =
  fixes push :: "UploadOptions \<Rightarrow> GitPushCommand result"
  assumes push_reviews: "push uo = Inr c \<Longrightarrow> review_command uo c"
    and push_network: "push uo = Inr c \<Longrightarrow> \<exists>url. ParseGitURL (RemoteURL uo) = Some url \<and> (IsSSH url \<or> IsHTTP url)"
begin

lemma new_review_not_on_branch:
  assumes "push uo = Inr c" and "CodeReview_Empty (uo_CodeReview uo)"
  shows "\<exists>dst. last (gp_Args c) = sourceRef (TrimPrefix (LocalBranch uo) RefsHeads) @ '':'' @ dst \<and>
    \<not> HasPrefix dst ''refs/heads/''"
proof -
  obtain opts dst where d: "gp_Args c = [''push''] @ opts @
      [remoteArg uo, sourceRef (TrimPrefix (LocalBranch uo) RefsHeads) @ '':'' @ dst]" "review_target uo opts dst"
    using push_reviews [OF assms(1)] by (auto simp: review_command_def)
  have "\<not> HasPrefix dst ''refs/heads/''"
    using d(2) assms(2) by (auto simp: review_target_def HasPrefix_iff)
  with d(1) show ?thesis by (intro exI [of _ dst]) simp
qed

end

lemma withRefOptions_prefix: "\<exists>t. withRefOptions s opts = s @ t"
  by (simp add: withRefOptions_def)

lemma agitTarget_form:
  assumes "agitTarget can i uo = Inr (opts, spec)"
  shows "\<exists>dst. spec = sourceRef (TrimPrefix (LocalBranch uo) RefsHeads) @ '':'' @ dst \<and>
     (\<forall>t. review_target uo (pre @ opts @ post) (dst @ t))"
  using assms
  by (auto simp: agitTarget_def Let_def review_target_def HasPrefix_iff opt_def split: if_splits)

lemma AGit_reviews:
  assumes "AGit_GetGitPushCommand git ver i uo = Inr c"
  shows "review_command uo c \<and> (\<exists>url. ParseGitURL (RemoteURL uo) = Some url \<and> (IsSSH url \<or> IsHTTP url))"
proof -
  obtain url where url: "ParseGitURL (RemoteURL uo) = Some url" "IsSSH url \<or> IsHTTP url"
    using assms by (auto simp: AGit_GetGitPushCommand_def IsSSH_def IsHTTP_def split: if_splits option.splits)
  obtain packs env cfgs where tr: "agitTransport ver i url = (packs, env, cfgs)" by (metis prod_cases3)
  obtain topts spec where t: "agitTarget (GitCanPushOptions git) i uo = Inr (topts, spec)"
    using assms by (auto simp: AGit_GetGitPushCommand_def Let_def result_simps split: if_splits option.splits prod.splits)
  have ne: "RemoteURL uo \<noteq> []" using assms by (auto simp: AGit_GetGitPushCommand_def)
  define pops where "pops = (if GitCanPushOptions git then concat (map opt (PushOptions uo)) else [])"
  define ropts where "ropts = (if GitCanPushOptions git then agitReviewOptions uo else [])"
  obtain more where more: "(if GitCanPushOptions git then spec else withRefOptions spec
      (refOptions uo @ (if OldOid uo \<noteq> [] then [''old-oid='' @ OldOid uo] else []))) = spec @ more"
    using withRefOptions_prefix by (metis append_Nil2)
  have "gp_Cmd c = ''git''"
      "gp_Args c = [''push''] @ (packs @ pops @ topts @ ropts) @ [remoteArg uo, spec @ more]"
    using assms url tr t ne unfolding more [symmetric] pops_def ropts_def
    by (auto simp: AGit_GetGitPushCommand_def Let_def IsSSH_def IsHTTP_def)
  moreover obtain dst where "spec = sourceRef (TrimPrefix (LocalBranch uo) RefsHeads) @ '':'' @ dst"
      "\<forall>t. review_target uo ((packs @ pops) @ topts @ ropts) (dst @ t)"
    using agitTarget_form [OF t] by blast
  ultimately show ?thesis using url
    by (auto simp: review_command_def intro!: exI [of _ "packs @ pops @ topts @ ropts"] exI [of _ "dst @ more"])
qed

lemma Gerrit_reviews:
  assumes "Gerrit_GetGitPushCommand uo = Inr c"
  shows "review_command uo c \<and> (\<exists>url. ParseGitURL (RemoteURL uo) = Some url \<and> (IsSSH url \<or> IsHTTP url))"
proof -
  obtain url where url: "ParseGitURL (RemoteURL uo) = Some url" "IsSSH url \<or> IsHTTP url"
    using assms by (auto simp: Gerrit_GetGitPushCommand_def split: if_splits option.splits)
  let ?kind = "if Draft uo then ''drafts'' else ''for''"
  obtain opts more where "gp_Cmd c = ''git''"
      "gp_Args c = [''push''] @ opts @ [remoteArg uo, sourceRef (TrimPrefix (LocalBranch uo) RefsHeads) @ '':'' @
         (''refs/'' @ ?kind @ ''/'' @ more)]"
    using assms url by (auto simp: Gerrit_GetGitPushCommand_def Let_def withRefOptions_def split: if_splits)
  moreover have "review_target uo opts (''refs/'' @ ?kind @ ''/'' @ more)"
    by (simp add: review_target_def HasPrefix_iff)
  ultimately show ?thesis using url by (auto simp: review_command_def)
qed

interpretation agit: review_protocol "AGit_GetGitPushCommand git ver i" for git ver i
  by unfold_locales (use AGit_reviews in blast)+

interpretation gerrit: review_protocol Gerrit_GetGitPushCommand
  by unfold_locales (use Gerrit_reviews in blast)+

text \<open>
  Property C34. An upload is a push for review. Whatever the options, the command the AGit and the
  Gerrit helpers return is a \<^verbatim>\<open>git push\<close> to the remote from the local branch (or \<open>HEAD\<close>); its target
  is a reference of the review name space, unless an existing review is changed under AGit
  version 3, when it is a branch and the option \<open>review=<id>\<close> is on the command line. So a new
  review never writes to a branch.
\<close>

theorem GetGitPushCommand_is_review:
  assumes "GetGitPushCommand env git ver h uo = Inr c" and "GetType h = ProtoTypeAGit \<or> GetType h = ProtoTypeGerrit"
    and "\<forall>i. h \<noteq> ExternalProtoHelper i"
  shows "review_command uo c \<and>
    (CodeReview_Empty (uo_CodeReview uo) \<longrightarrow>
      (\<exists>dst. last (gp_Args c) = sourceRef (TrimPrefix (LocalBranch uo) RefsHeads) @ '':'' @ dst \<and>
         \<not> HasPrefix dst ''refs/heads/''))"
proof (cases h)
  case (AGitProtoHelper i)
  with assms(1) show ?thesis
    using agit.push_reviews agit.new_review_not_on_branch by simp
next
  case (GerritProtoHelper i)
  with assms(1) show ?thesis
    using gerrit.push_reviews gerrit.new_review_not_on_branch by simp
qed (use assms in auto)

definition sample_upload :: UploadOptions where
  "sample_upload = \<lparr>AutoTopic = False, uo_CodeReview = \<lparr>cr_ID = [], cr_Ref = []\<rparr>, Description = [], uo_DestBranch = ''main'',
     Draft = False, Issue = [], LocalBranch = ''topic'', MockGitPush = False, NoCertChecks = False, NoEmails = False,
     OldOid = [], People = [[''bob''], []], Private = False, PushOptions = [], RemoteName = ''origin'',
     RemoteURL = ''http://r/x'', Title = [], WIP = False\<rparr>"

theorem GetGitPushCommand_is_review_witness:
  "\<exists>c. Gerrit_GetGitPushCommand sample_upload = Inr c \<and> gp_Args c = [''push'', ''origin'', ''refs/heads/topic:refs/for/main%r=bob''] \<and>
     review_command sample_upload c"
proof -
  have "case Gerrit_GetGitPushCommand sample_upload of
      Inr c \<Rightarrow> gp_Args c = [''push'', ''origin'', ''refs/heads/topic:refs/for/main%r=bob''] | _ \<Rightarrow> False"
    by code_simp
  then obtain c where c: "Gerrit_GetGitPushCommand sample_upload = Inr c"
      "gp_Args c = [''push'', ''origin'', ''refs/heads/topic:refs/for/main%r=bob'']" by (auto split: sum.splits)
  then show ?thesis
    using GetGitPushCommand_is_review [of undefined undefined undefined "GerritProtoHelper SSHInfo0" sample_upload c] by simp
qed

section \<open>The text of an AGit upload\<close>

definition one_line :: "string \<Rightarrow> bool" where
  "one_line s \<longleftrightarrow> ascii s \<and> CHR 0x0A \<notin> set s"

lemma one_line_append: "one_line (s @ t) \<longleftrightarrow> one_line s \<and> one_line t"
  by (auto simp: one_line_def)

lemma one_line_B64Encode: "one_line (B64Encode s)"
  using B64Encode_line by (simp add: one_line_def)

lemma option_names_one_line:
  "one_line ''title=''" "one_line ''description=''" "one_line ''issue=''" "one_line ''reviewers=''" "one_line ''cc=''"
  "one_line ''notify=no''" "one_line ''private=yes''" "one_line ''wip=yes''" "one_line ''old-oid=''" "one_line ''-o''"
  by code_simp+

text \<open>
  Whatever title, description, issue, reviewers and copies are given, line feeds and
  non-ASCII text included, every word an AGit upload adds for them to the command line is one line
  of ASCII (if the old commit id is), and the decoded title and description are the ones given
  unless they begin with the encoding's own marker.
\<close>

theorem agitReviewOptions_one_line:
  assumes "one_line (OldOid uo)"
  shows "list_all one_line (agitReviewOptions uo) \<and>
    (Title uo \<noteq> [] \<longrightarrow> \<not> HasPrefix (Title uo) ''{base64}'' \<longrightarrow>
      (\<exists>t. ''title='' @ t \<in> set (agitReviewOptions uo) \<and> B64Decode t = Title uo))"
proof
  show "list_all one_line (agitReviewOptions uo)"
    using assms
    by (simp add: agitReviewOptions_def opt_if_def opt_def one_line_append one_line_B64Encode option_names_one_line
        del: append.simps)
  show "Title uo \<noteq> [] \<longrightarrow> \<not> HasPrefix (Title uo) ''{base64}'' \<longrightarrow>
      (\<exists>t. ''title='' @ t \<in> set (agitReviewOptions uo) \<and> B64Decode t = Title uo)"
  proof (intro impI exI conjI)
    assume "Title uo \<noteq> []" "\<not> HasPrefix (Title uo) ''{base64}''"
    then show "''title='' @ B64Encode (Title uo) \<in> set (agitReviewOptions uo)"
      "B64Decode (B64Encode (Title uo)) = Title uo"
      using B64Decode_B64Encode [of "Title uo"] by (simp_all add: agitReviewOptions_def opt_if_def opt_def)
  qed
qed

theorem agitReviewOptions_one_line_witness:
  "list_all one_line (agitReviewOptions (sample_upload\<lparr>Title := [CHR ''a'', CHR 0x0A, CHR 0xE4]\<rparr>)) \<and>
    (\<exists>t. ''title='' @ t \<in> set (agitReviewOptions (sample_upload\<lparr>Title := [CHR ''a'', CHR 0x0A, CHR 0xE4]\<rparr>)) \<and>
       B64Decode t = [CHR ''a'', CHR 0x0A, CHR 0xE4])"
proof -
  let ?u = "sample_upload\<lparr>Title := [CHR ''a'', CHR 0x0A, CHR 0xE4]\<rparr>"
  have "one_line (OldOid ?u)" "Title ?u \<noteq> []" "\<not> HasPrefix (Title ?u) ''{base64}''" by code_simp+
  then show ?thesis using agitReviewOptions_one_line [of ?u] by simp
qed

section \<open>Downloads\<close>

definition pad2 :: "string \<Rightarrow> string" where
  "pad2 s = (if 2 \<le> length s then drop (length s - 2) s else replicate (2 - length s) CHR ''0'' @ s)"

lemma number_text:
  assumes "0 \<le> n" "n \<le> maxInt"
  shows "Atoi (Itoa n) = Some n" "Itoa n \<noteq> []"
proof -
  show "Atoi (Itoa n) = Some n" using assms by (simp add: Atoi_Itoa minInt_def)
  show "Itoa n \<noteq> []" by (simp add: Itoa_def)
qed

lemma Itoa_zero: "0 \<le> n \<Longrightarrow> n \<le> maxInt \<Longrightarrow> Itoa n = ''0'' \<longleftrightarrow> n = 0"
proof -
  assume n: "0 \<le> n" "n \<le> maxInt"
  have "Atoi ''0'' = Some 0" "Itoa 0 = ''0''" by code_simp+
  with number_text(1) [OF n] show ?thesis by (metis option.inject)
qed

lemma gerrit_fields:
  assumes "m ''id'' = Some cid" and "m ''patch'' = Some p"
  shows "fieldValue m ''id:right:2'' = Inr (Some (pad2 cid))" "fieldValue m ''id'' = Inr (Some cid)"
    "fieldValue m ''patch'' = Inr (Some p)"
proof -
  have "parseField ''id:right:2'' = Some (''id'', ''right'', 2)" "parseField ''id'' = Some (''id'', [], 0)"
    "parseField ''patch'' = Some (''patch'', [], 0)" by code_simp+
  then show "fieldValue m ''id:right:2'' = Inr (Some (pad2 cid))" "fieldValue m ''id'' = Inr (Some cid)"
    "fieldValue m ''patch'' = Inr (Some p)"
    using assms by (auto simp: fieldValue_def pad2_def)
qed

lemma replace_field:
  assumes "set pre \<inter> set ''{<}>'' = {}" "set field \<inter> set ''{<}>'' = {}" "fieldValue m field = Inr (Some v)"
    and "ReplaceMacros post m = Inr r"
  shows "ReplaceMacros (pre @ ''{'' @ field @ ''}'' @ post) m = Inr (pre @ v @ r)"
  using ReplaceMacros_field [OF assms(1-3), of post] assms(4) by simp

lemma gerrit_ref:
  assumes "m ''id'' = Some cid" and "m ''patch'' = Some p"
  shows "ReplaceMacros ''refs/changes/{id:right:2}/{id}/{patch}'' m =
     Inr (''refs/changes/'' @ pad2 cid @ ''/'' @ cid @ ''/'' @ p)"
proof -
  have "ReplaceMacros [] m = Inr []" by (rule ReplaceMacros_copy) simp
  from replace_field [OF _ _ gerrit_fields(3) [OF assms] this, of "''/''"]
  have "ReplaceMacros ''/{patch}'' m = Inr (''/'' @ p)" by simp
  from replace_field [OF _ _ gerrit_fields(2) [OF assms] this, of "''/''"]
  have "ReplaceMacros ''/{id}/{patch}'' m = Inr (''/'' @ cid @ ''/'' @ p)" by simp
  from replace_field [OF _ _ gerrit_fields(1) [OF assms] this, of "''refs/changes/''"]
  show ?thesis by simp
qed

lemma agit_ref:
  assumes "m ''id'' = Some cid" and "m ''patch'' = Some p"
  shows "ReplaceMacros ''refs/merge-requests/{id}/head'' m = Inr (''refs/merge-requests/'' @ cid @ ''/head'')"
    and "ReplaceMacros ''refs/changes/{id}/{patch}'' m = Inr (''refs/changes/'' @ cid @ ''/'' @ p)"
proof -
  have "ReplaceMacros ''/head'' m = Inr ''/head''" by (rule ReplaceMacros_copy) simp
  from replace_field [OF _ _ gerrit_fields(2) [OF assms] this, of "''refs/merge-requests/''"]
  show "ReplaceMacros ''refs/merge-requests/{id}/head'' m = Inr (''refs/merge-requests/'' @ cid @ ''/head'')" by simp
  have "ReplaceMacros [] m = Inr []" by (rule ReplaceMacros_copy) simp
  from replace_field [OF _ _ gerrit_fields(3) [OF assms] this, of "''/''"]
  have "ReplaceMacros ''/{patch}'' m = Inr (''/'' @ p)" by simp
  from replace_field [OF _ _ gerrit_fields(2) [OF assms] this, of "''refs/changes/''"]
  show "ReplaceMacros ''refs/changes/{id}/{patch}'' m = Inr (''refs/changes/'' @ cid @ ''/'' @ p)" by simp
qed

text \<open>
  The reference a download fetches for review \<open>n\<close> and patch set \<open>p\<close> when the server
  gives no pattern. Gerrit: \<open>refs/changes/<last two digits of n>/n/p\<close>, with patch set 1 for 0.
  AGit and Gitea: the merge request's head up to version 2, \<open>refs/changes/n/p\<close> (\<open>head\<close> for 0)
  afterwards. The option naming the review is sent only when the type is spelled \<open>agit\<close> in small
  letters, although the helper is chosen without regard to case.
\<close>

theorem GetDownloadRefOptions_ref:
  assumes "0 \<le> n" "n \<le> maxInt" "0 \<le> p" "p \<le> maxInt" and "ReviewRefPattern i = []"
  shows "(ToLower (ProtoType i) = ''gerrit'' \<longrightarrow>
      GetDownloadRefOptions env (NewProtoHelper i) (Itoa n) (Itoa p) =
        Inr (''refs/changes/'' @ pad2 (Itoa n) @ ''/'' @ Itoa n @ ''/'' @ Itoa (max 1 p), [])) \<and>
    (ToLower (ProtoType i) \<in> {''agit'', ''gitea''} \<longrightarrow>
      GetDownloadRefOptions env (NewProtoHelper i) (Itoa n) (Itoa p) =
        Inr (if ProtoVersion i \<le> 2 then ''refs/merge-requests/'' @ Itoa n @ ''/head''
             else ''refs/changes/'' @ Itoa n @ ''/'' @ (if p = 0 then ''head'' else Itoa p),
             if ProtoType i = ''agit'' \<and> ProtoVersion i > 2 then [''review='' @ Itoa n] else []))"
proof (intro conjI impI)
  have p0: "Itoa p = ''0'' \<longleftrightarrow> p = 0" using assms by (simp add: Itoa_zero)
  note num = number_text [OF assms(1,2)] number_text [OF assms(3,4)]
  have one: "Itoa 1 = ''1''" "Itoa 0 = ''0''" "Atoi ''0'' = Some 0" by code_simp+
  assume t: "ToLower (ProtoType i) = ''gerrit''"
  then have "ProtoType i \<noteq> ''agit''" by (auto simp: ToLower_def lower_char_def)
  with t show "GetDownloadRefOptions env (NewProtoHelper i) (Itoa n) (Itoa p) =
      Inr (''refs/changes/'' @ pad2 (Itoa n) @ ''/'' @ Itoa n @ ''/'' @ Itoa (max 1 p), [])"
    using assms num p0 one
    by (cases "p = 0") (simp_all add: NewProtoHelper_def ProtoTypeAGit_def ProtoTypeGerrit_def ProtoTypeGitea_def
        Gerrit_GetDownloadRefOptions_def NewGerritProtoHelper_def GetReviewRefOptions_def Let_def gerrit_ref max_def)
next
  have p0: "Itoa p = ''0'' \<longleftrightarrow> p = 0" using assms by (simp add: Itoa_zero)
  note num = number_text [OF assms(1,2)] number_text [OF assms(3,4)]
  assume "ToLower (ProtoType i) \<in> {''agit'', ''gitea''}"
  then have h: "NewProtoHelper i = AGitProtoHelper (NewAGitProtoHelper i)"
    by (auto simp: NewProtoHelper_def ProtoTypeAGit_def ProtoTypeGerrit_def ProtoTypeGitea_def)
  show "GetDownloadRefOptions env (NewProtoHelper i) (Itoa n) (Itoa p) =
        Inr (if ProtoVersion i \<le> 2 then ''refs/merge-requests/'' @ Itoa n @ ''/head''
             else ''refs/changes/'' @ Itoa n @ ''/'' @ (if p = 0 then ''head'' else Itoa p),
             if ProtoType i = ''agit'' \<and> ProtoVersion i > 2 then [''review='' @ Itoa n] else [])"
    using assms num p0
    by (simp add: h AGit_GetDownloadRefOptions_def NewAGitProtoHelper_def GetReviewRefOptions_def
        ProtoTypeAGit_def agit_ref [of "_(''id'' \<mapsto> Itoa n, ''patch'' \<mapsto> _)" "Itoa n"] agit_ref)
qed

theorem GetDownloadRefOptions_ref_witness:
  "\<forall>env. GetDownloadRefOptions env (NewProtoHelper (SSHInfo0\<lparr>ProtoType := ''Gerrit''\<rparr>)) (Itoa 5) (Itoa 0) =
     Inr (''refs/changes/'' @ pad2 (Itoa 5) @ ''/'' @ Itoa 5 @ ''/'' @ Itoa (max 1 0), [])"
proof -
  have "ToLower (ProtoType (SSHInfo0\<lparr>ProtoType := ''Gerrit''\<rparr>)) = ''gerrit''"
    "ReviewRefPattern (SSHInfo0\<lparr>ProtoType := ''Gerrit''\<rparr>) = []" by code_simp+
  then show ?thesis
    using GetDownloadRefOptions_ref [of 5 0 "SSHInfo0\<lparr>ProtoType := ''Gerrit''\<rparr>"] by (simp add: maxInt_def)
qed

end
