(* ===== verification/Spec2Isabelle.thy ===== *)
theory Spec2Isabelle
  imports Workspace_Proofs Sync_Command Upload_Command Keyword_Subst Status Format_Box SSH_Info_Proofs Proto_Proofs
begin

text \<open>
  A verification library for git-repo-go, a client that works on many git repositories at
  once, described by XML manifests. The program reads the manifest of a workspace, makes an object
  for every project in it, fetches and checks out the projects, and sends reviews with the protocol
  of the server. This library models the code of these parts as functions and proves what they
  promise to each other and to the user.

  \<^bold>\<open>Foundations.\<close> Prelude has errors as values (an error that is returned, the end of the
  process, a panic), Go's string functions, decimal numbers, and the interface \<open>keyed_table\<close> of
  tables that are filled one value at a time. Go\_Filepath is the part of path/filepath the program
  uses (Clean, Join, Dir, Base, Rel) with its laws, Go\_Regexp a matcher for the patterns the
  program has, proved sound and complete for its backtracking order, Utf8 the decoding of runes.

  \<^bold>\<open>Small packages.\<close> Refs (common/refs.go, config/config.go, config/code-review.go): kinds of
  revisions, names of settings, the size of the log. Git\_URL (config/git-url.go, common/url.go):
  parsing, printing and joining of addresses. Path\_Pkg (path/path.go): the search for workspaces.
  Version (version/version.go), Encode (encode/encode.go), Format\_Box (format/format.go), Shell
  (helper/macros.go, helper/shell.go, helper/email.go), Project\_Groups (project/group.go).

  \<^bold>\<open>Manifests\<close> (manifest/manifest.go): Manifest has the elements and their operations,
  Manifest\_Proofs the invariants of fixing up, flattening and merging, with the interfaces
  \<open>fixup\<close> (an operation that checks and normalises an element) and \<open>project_visitor\<close> (a
  handler that is called on every project), Manifest\_Load the files with their includes.

  \<^bold>\<open>Servers.\<close> SSH\_Info and SSH\_Info\_Proofs (helper/ssh.go, helper/ssh-info.go): the ssh command,
  the query for the kind of a server and its caches. Proto and Proto\_Proofs (helper/proto*.go):
  the commands of uploads and downloads, with the interface \<open>review_protocol\<close> both built-in
  protocols satisfy.

  \<^bold>\<open>Projects.\<close> Project\_Pkg and Project\_Proofs (project/project.go): objects made from
  manifest elements, their directories, indexes and trees. Machine is the model of effects: an
  operation appends actions (commands, saved configurations, references, files) and observes the
  machine found after the actions so far; the rules \<open>emits\<close> bound the actions of an operation.
  Repo\_View (project/repository.go, project/branch.go, project/execute.go): repositories and
  branches. Remotes (project/remote.go): the table of remotes. Local\_Half and Local\_Half\_Proofs
  (project/local-half.go, config/hooks.go): what a synchronisation does to a work tree.
  Network\_Half (project/init.go, project/network-half.go): creating and fetching repositories.
  Status (project/status.go, color/color.go): the status of a project. Settings
  (project/manifest\_project.go): the settings of a workspace.

  \<^bold>\<open>Workspaces.\<close> Workspace and Workspace\_Proofs (workspace/*.go): loading, selecting and
  freezing projects, the list of projects and the removal of obsolete ones.

  \<^bold>\<open>Reviews and commands.\<close> Upload\_Review (project/upload.go, project/download.go): which branches
  have commits to review, sending one and recording it as published, fetching a change.
  Event\_Pool has the rules for schedules (bounded runs, runs that can be continued) that both
  pools share; Sync\_Network and Sync\_Local (cmd/sync.go) are the goroutines of the two halves as
  steps of a schedule, and Sync\_Command the command around them: checks, the update of the manifest
  project, the order of the phases. Command (cmd/cmd.go, workspace/workspace.go): questions, errors and
  the checks of the workspace. Branch\_Commands (cmd/start.go, cmd/prune.go, cmd/abandon.go) and
  Download\_Command (cmd/download.go). Upload\_Options (the script of options in cmd/upload.go),
  Editor\_Pkg (editor/editor.go) and Upload\_Command (the rest of cmd/upload.go): the selection of
  branches by questions or in the editor and the uploads. Keyword\_Subst
  (cmd/filter-helper-keyword-subst.go): the clean and the smudge filter.

  \<^bold>\<open>What is shown.\<close> The properties are marked in the text before them. Type and invariant
  properties say what every manifest, workspace and message box satisfies after loading;
  functional ones describe the results on every branch; the safety properties bound what may
  happen to a user's files, branches and servers; round trips relate readers and printers; the
  refinement of the network half by the local half says that what is fetched is what is checked
  out. The liveness properties say that the pools
  of goroutines return under every schedule. Where the code does something it does not mean to, the
  property says what it does, and a lemma shows it on an example.

  \<^bold>\<open>Bounds.\<close> Loops over data are structural recursions or have a measure. The include depth of
  manifests and the depth of visits are the code's own limits (10). The query of ssh information
  calls itself with another address; it takes fuel, and four calls are shown to be enough for
  every address that parses. A schedule of goroutines is a list of events of any length; runs are
  shown to be bounded and every run that is not at its end to have a next event. Machine integers appear where they can overflow (the size of the log and
  the limit of open files in 64 bits, numbers of macros, ports and changes as Go's int).

  \<^bold>\<open>Parameters.\<close> The operating system, git, go-git, goconfig, XML and JSON codecs, network and clock
  are fields of the records \<open>host\<close>, \<open>penv\<close>, \<open>machine\<close>, \<open>ssh_env\<close>, \<open>ext_env\<close>, \<open>cfg_codec\<close>; laws
  they must satisfy are named hypotheses (\<open>codec_laws\<close>). The commands take the results of what runs
  outside of them (the text the editor leaves, the options, loaded remotes) as arguments; the answers of
  the user are a field of \<open>machine\<close>. The
  threads that load remotes do their work one after the other, in any order; the goroutines of sync
  interleave step by step.

  \<^bold>\<open>Not modelled.\<close> The commands status, list, manifest and version, which print what modelled functions
  compute; forall, which starts processes; init, which turns flags and answers into the modelled
  settings; upgrade, which downloads the program; the root command, the helper commands and the
  commands for tests, which are declarations for the flag library. The packages of locked files, stored
  passwords, git configuration and proxies (file/file.go, config/keyring.go,
  config/git-extra-config.go, config/repo-config.go, helper/proxy.go) call the operating system and
  libraries. Logging, messages to the terminal and the HTTP client are left out everywhere; a cached field
  of a branch that holds whether it is published is computed again where it is read.
\<close>

end
